(* ===== verification/ES_Prelude.thy ===== *)
theory ES_Prelude
  imports Main "HOL-Library.Word" "HOL-Library.Char_ord" "HOL-Library.List_Lexorder"
    "HOL-Library.Sublist" "HOL-Library.Code_Target_Nat" "HOL-Library.Monad_Syntax"
begin

text \<open>
  Shared vocabulary of the development: the machine integer types of the C++ code, the result
  type of the operations that can fail, the theorem collections that the component theories
  extend, and generic facts on lists, words and maps that several components use.

  A C++ function \<open>bool F(args, T* out, std::string* error)\<close> is a HOL function into
  \<open>string + T\<close>: \<open>Inl e\<close> is a return of \<open>false\<close> with \<open>*error = e\<close>, and
  \<open>Inr v\<close> is a return of \<open>true\<close> with \<open>*out = v\<close>.  Every call in the program passes
  the addresses of local variables, so the null-pointer guards at the top of these functions
  never fire and the references are modelled as values.
\<close>

section \<open>Machine integers\<close>

type_synonym u8 = "8 word"
type_synonym u32 = "32 word"
type_synonym i32 = "32 word" \<comment> \<open>\<open>std::int32_t\<close>: the value is \<open>sint\<close>\<close>
type_synonym u64 = "64 word"
type_synonym i64 = "64 word" \<comment> \<open>\<open>std::int64_t\<close>: the value is \<open>sint\<close>\<close>
type_synonym path = string

text \<open>Linux error numbers, and the result of reading a file as a whole at one moment.\<close>

type_synonym errno = int
type_synonym file_reader = "path \<Rightarrow> errno + string"

abbreviation EPERM :: errno where "EPERM \<equiv> 1"
abbreviation ENOENT :: errno where "ENOENT \<equiv> 2"
abbreviation ESRCH :: errno where "ESRCH \<equiv> 3"
abbreviation EINTR :: errno where "EINTR \<equiv> 4"
abbreviation EIO :: errno where "EIO \<equiv> 5"
abbreviation EACCES :: errno where "EACCES \<equiv> 13"

abbreviation u64_max :: nat where
  "u64_max \<equiv> 18446744073709551615"

abbreviation u32_max :: nat where
  "u32_max \<equiv> 4294967295"

abbreviation i32_max :: nat where
  "i32_max \<equiv> 2147483647"

section \<open>Theorem collections\<close>

named_theorems stream_simps \<open>evaluation of the input-stream operations on appended text\<close>
named_theorems consumes \<open>a reader leaves a shorter input\<close>
named_theorems char_class \<open>facts on character classes\<close>

section \<open>Results\<close>

definition is_ok :: "'e + 'a \<Rightarrow> bool" where
  "is_ok r \<longleftrightarrow> (case r of Inl _ \<Rightarrow> False | Inr _ \<Rightarrow> True)"

lemma is_ok_simps [simp]: "is_ok (Inr v)" "\<not> is_ok (Inl e)"
  by (simp_all add: is_ok_def)

lemma is_ok_iff: "is_ok r \<longleftrightarrow> (\<exists>v. r = Inr v)"
  by (cases r) simp_all

section \<open>Lists\<close>

lemma takeWhile_append_stop:
  assumes "\<forall>x \<in> set xs. P x" and "\<not> P y"
  shows "takeWhile P (xs @ y # ys) = xs"
  using assms by (induction xs) auto

lemma dropWhile_append_stop:
  assumes "\<forall>x \<in> set xs. P x" and "\<not> P y"
  shows "dropWhile P (xs @ y # ys) = y # ys"
  using assms by (induction xs) auto

lemma takeWhile_all: "\<forall>x \<in> set xs. P x \<Longrightarrow> takeWhile P xs = xs"
  by (induction xs) auto

lemma dropWhile_all: "\<forall>x \<in> set xs. P x \<Longrightarrow> dropWhile P xs = []"
  by (induction xs) auto

definition take_last :: "nat \<Rightarrow> 'a list \<Rightarrow> 'a list" where
  "take_last n xs = drop (length xs - n) xs"

lemma length_take_last: "length (take_last n xs) = min n (length xs)"
  by (simp add: take_last_def)

lemma take_last_append_long: "n \<le> length ys \<Longrightarrow> take_last n (xs @ ys) = take_last n ys"
  by (simp add: take_last_def)

lemma take_last_all: "length xs \<le> n \<Longrightarrow> take_last n xs = xs"
  by (simp add: take_last_def)

lemma take_last_map: "take_last n (map f xs) = map f (take_last n xs)"
  by (simp add: take_last_def drop_map)

lemma set_take_last: "set (take_last n xs) \<subseteq> set xs"
  by (simp add: take_last_def set_drop_subset)

lemma take_last_snoc:
  "take_last n (xs @ [x]) =
     (if n = 0 then [] else take_last (n - 1) xs @ [x])"
  by (auto simp: take_last_def Suc_diff_le not_less_eq_eq)

section \<open>Words\<close>

lemma unat_of_nat_u64: "n \<le> u64_max \<Longrightarrow> unat (word_of_nat n :: u64) = n"
  by (simp add: unat_of_nat)

lemma unat_of_nat_u32: "n \<le> u32_max \<Longrightarrow> unat (word_of_nat n :: u32) = n"
  by (simp add: unat_of_nat)

lemma unat_u64_le: "unat (w :: u64) \<le> u64_max"
proof -
  have "unat w < 2 ^ LENGTH(64)"
    by (rule unsigned_less)
  then show ?thesis by simp
qed

lemma unat_u32_le: "unat (w :: u32) \<le> u32_max"
proof -
  have "unat w < 2 ^ LENGTH(32)"
    by (rule unsigned_less)
  then show ?thesis by simp
qed

lemma unat_plus_no_wrap:
  fixes a b :: u64
  assumes "unat a + unat b \<le> u64_max"
  shows "unat (a + b) = unat a + unat b"
  using assms by (simp add: unat_word_ariths)

end
