(* ===== verification/Cpp_String.thy ===== *)
theory Cpp_String
  imports ES_Prelude
begin

text \<open>
  The part of \<open>std::string\<close>, \<open><cctype>\<close> and \<open>std::getline\<close> that the program uses.
  A \<open>std::string\<close> is a list of bytes (\<open>char list\<close>), positions are \<open>nat\<close>, and
  a search that returns \<open>npos\<close> returns \<open>None\<close>.  Where the program does arithmetic on the
  result of a search, \<open>pos_or_npos\<close> gives the \<open>std::size_t\<close> value, so that its wrap-around is
  visible.
\<close>

section \<open>Character classes of the C locale\<close>

definition isspace :: "char \<Rightarrow> bool" where
  "isspace c \<longleftrightarrow> (let n = of_char c :: nat in n = 32 \<or> (9 \<le> n \<and> n \<le> 13))"

definition isdigit :: "char \<Rightarrow> bool" where
  "isdigit c \<longleftrightarrow> (let n = of_char c :: nat in 48 \<le> n \<and> n \<le> 57)"

definition isalpha :: "char \<Rightarrow> bool" where
  "isalpha c \<longleftrightarrow> (let n = of_char c :: nat in (65 \<le> n \<and> n \<le> 90) \<or> (97 \<le> n \<and> n \<le> 122))"

definition isalnum :: "char \<Rightarrow> bool" where
  "isalnum c \<longleftrightarrow> isalpha c \<or> isdigit c"

lemma isdigit_not_space [char_class]: "isdigit c \<Longrightarrow> \<not> isspace c"
  by (auto simp: isdigit_def isspace_def Let_def)

lemma isdigit_not_sign [char_class]:
  "isdigit c \<Longrightarrow> c \<noteq> CHR ''-'' \<and> c \<noteq> CHR ''+'' \<and> c \<noteq> CHR ''.''"
  by (auto simp: isdigit_def)

lemma isspace_blank [simp]: "isspace CHR '' ''" "isspace CHR 0x0A" "isspace CHR 0x09"
  by (simp_all add: isspace_def)

section \<open>Searching\<close>

fun find_char :: "char \<Rightarrow> string \<Rightarrow> nat option" where
  "find_char c [] = None"
| "find_char c (x # xs) = (if x = c then Some 0 else map_option Suc (find_char c xs))"

definition rfind_char :: "char \<Rightarrow> string \<Rightarrow> nat option" where
  "rfind_char c s = map_option (\<lambda>i. length s - 1 - i) (find_char c (rev s))"

fun find_str :: "string \<Rightarrow> string \<Rightarrow> nat option" where
  "find_str p [] = (if p = [] then Some 0 else None)"
| "find_str p (x # xs) =
     (if prefix p (x # xs) then Some 0 else map_option Suc (find_str p xs))"

definition contains :: "string \<Rightarrow> string \<Rightarrow> bool" where
  "contains s p \<longleftrightarrow> find_str p s \<noteq> None"

definition pos_or_npos :: "nat option \<Rightarrow> u64" where
  "pos_or_npos p = (case p of None \<Rightarrow> - 1 | Some i \<Rightarrow> word_of_nat i)"

definition substr :: "string \<Rightarrow> nat \<Rightarrow> nat \<Rightarrow> string" where
  "substr s pos n = take n (drop pos s)"

lemma find_char_None: "find_char c s = None \<longleftrightarrow> c \<notin> set s"
  by (induction s) auto

lemma find_char_Some:
  "find_char c s = Some i \<longleftrightarrow> i < length s \<and> s ! i = c \<and> c \<notin> set (take i s)"
proof (induction s arbitrary: i)
  case Nil
  show ?case by simp
next
  case (Cons x xs)
  then show ?case by (cases i) auto
qed

lemma find_char_append: "c \<notin> set xs \<Longrightarrow> find_char c (xs @ c # ys) = Some (length xs)"
  by (induction xs) auto

lemma rfind_char_append: "c \<notin> set ys \<Longrightarrow> rfind_char c (xs @ c # ys) = Some (length xs)"
  by (simp add: rfind_char_def find_char_append)

lemma rfind_char_None: "rfind_char c s = None \<longleftrightarrow> c \<notin> set s"
  by (simp add: rfind_char_def find_char_None)

lemma rfind_char_Some_split:
  assumes "rfind_char c s = Some i"
  shows "s = take i s @ c # drop (Suc i) s \<and> c \<notin> set (drop (Suc i) s) \<and> i < length s"
proof -
  have "c \<in> set s"
    using assms rfind_char_None [of c s] by auto
  then obtain xs ys where s: "s = xs @ c # ys" and ys: "c \<notin> set ys"
    by (blast dest: split_list_last)
  then have "i = length xs"
    using assms by (simp add: rfind_char_append)
  with s ys show ?thesis by simp
qed

lemma find_str_Some_split:
  "find_str p s = Some i \<Longrightarrow> \<exists>r. s = take i s @ p @ r"
proof (induction p s arbitrary: i rule: find_str.induct)
  case (1 p)
  then show ?case by (auto split: if_splits)
next
  case (2 p x xs)
  then show ?case
    by (fastforce split: if_splits elim: prefixE)
qed

lemma find_str_bound:
  assumes "find_str p s = Some i"
  shows "i + length p \<le> length s"
proof -
  have i: "i \<le> length s"
    using assms by (induction p s arbitrary: i rule: find_str.induct) (auto split: if_splits)
  obtain r where "s = take i s @ p @ r"
    using find_str_Some_split [OF assms] by blast
  then have "length s = length (take i s @ p @ r)"
    by (rule arg_cong)
  then have "length s = min (length s) i + (length p + length r)"
    unfolding length_append length_take .
  with i show ?thesis by linarith
qed

lemma find_str_here:
  assumes "prefix p s"
  shows "find_str p s = Some 0"
proof (cases s)
  case Nil
  then show ?thesis using assms by (simp add: prefix_def)
next
  case (Cons x xs)
  then show ?thesis using assms by (simp only: find_str.simps if_True)
qed

lemma find_str_append:
  "\<exists>j \<le> length xs. find_str p (xs @ p @ ys) = Some j"
proof (induction xs)
  case Nil
  then show ?case by (simp add: find_str_here)
next
  case (Cons x xs)
  then obtain j where "j \<le> length xs" and "find_str p (xs @ p @ ys) = Some j" by blast
  then show ?case
    by (cases "prefix p (x # xs @ p @ ys)") (simp_all del: prefix_Cons)
qed

lemma contains_iff: "contains s p \<longleftrightarrow> (\<exists>xs ys. s = xs @ p @ ys)"
proof
  assume "contains s p"
  then obtain i where "find_str p s = Some i"
    by (auto simp: contains_def)
  then show "\<exists>xs ys. s = xs @ p @ ys"
    using find_str_Some_split by blast
next
  assume "\<exists>xs ys. s = xs @ p @ ys"
  then obtain xs ys where "s = xs @ p @ ys" by blast
  then show "contains s p"
    using find_str_append [of xs p ys] by (auto simp: contains_def)
qed

section \<open>Reading loops\<close>

text \<open>
  An extraction from a stream (\<open>stream >> x\<close>, \<open>std::getline\<close>) is a function from the
  remaining text to the value and the text after it, or \<open>None\<close> where the stream fails.  A
  stream that has failed stays failed, so a loop \<open>while (extraction)\<close> ends at the first
  \<open>None\<close>.  \<open>read_loop\<close> is that loop: the values its body runs on.  Its recursion is
  guarded by the length of the rest; \<open>loop_unfold\<close> below shows that the guard never ends
  the loop of a reader that consumes input.
\<close>

function read_loop :: "(string \<Rightarrow> ('a \<times> string) option) \<Rightarrow> string \<Rightarrow> 'a list" where
  "read_loop rd s =
     (case rd s of None \<Rightarrow> []
      | Some (v, r) \<Rightarrow> if length r < length s then v # read_loop rd r else [v])"
  by pat_completeness auto
termination
  by (relation "measure (\<lambda>(rd, s). length s)") auto

declare read_loop.simps [simp del]

locale stream_reader =
  fixes rd :: "string \<Rightarrow> ('a \<times> string) option"
  assumes rd_consumes: "rd s = Some (v, r) \<Longrightarrow> length r < length s"
begin

lemma rd_Nil: "rd [] = None"
  using rd_consumes [of "[]"] by (cases "rd []") auto

lemma loop_unfold:
  "read_loop rd s = (case rd s of None \<Rightarrow> [] | Some (v, r) \<Rightarrow> v # read_loop rd r)"
  by (subst read_loop.simps) (auto split: option.split dest: rd_consumes)

lemma loop_Nil: "read_loop rd [] = []"
  by (simp add: loop_unfold rd_Nil)

lemma loop_step: "rd s = Some (v, r) \<Longrightarrow> read_loop rd s = v # read_loop rd r"
  by (simp add: loop_unfold)

lemma loop_stop: "rd s = None \<Longrightarrow> read_loop rd s = []"
  by (simp add: loop_unfold)

lemma loop_length: "length (read_loop rd s) \<le> length s"
proof (induction s rule: length_induct)
  case (1 s)
  then show ?case
    by (subst loop_unfold) (fastforce split: option.split dest: rd_consumes)
qed

end

section \<open>Lines: \<open>std::getline\<close>\<close>

text \<open>
  \<open>getline d s\<close> is \<open>std::getline(stream, line, d)\<close>: the line and the rest of the stream, or
  \<open>None\<close> where it fails because the stream is at its end.  The delimiter is consumed and
  not stored.
\<close>

definition getline :: "char \<Rightarrow> string \<Rightarrow> (string \<times> string) option" where
  "getline d s =
     (if s = [] then None
      else Some (takeWhile (\<lambda>c. c \<noteq> d) s, drop 1 (dropWhile (\<lambda>c. c \<noteq> d) s)))"

lemma getline_consumes [consumes]: "getline d s = Some (l, r) \<Longrightarrow> length r < length s"
proof -
  assume a: "getline d s = Some (l, r)"
  then have "s \<noteq> []" and r: "r = drop 1 (dropWhile (\<lambda>c. c \<noteq> d) s)"
    by (auto simp: getline_def split: if_splits)
  then show ?thesis
    using length_dropWhile_le [of "\<lambda>c. c \<noteq> d" s] by (cases s) (auto simp: diff_le_self le_imp_less_Suc)
qed

interpretation lines: stream_reader "getline d" for d
  by unfold_locales (rule getline_consumes)

text \<open>The loop \<open>while (std::getline(stream, line, d))\<close>: the lines it runs its body on.\<close>

definition getlines :: "char \<Rightarrow> string \<Rightarrow> string list" where
  "getlines d s = read_loop (getline d) s"

lemma getlines_Nil [simp]: "getlines d [] = []"
  by (simp add: getlines_def lines.loop_Nil)

lemma getline_line: "d \<notin> set l \<Longrightarrow> getline d (l @ d # r) = Some (l, r)"
  by (subst getline_def, subst takeWhile_append_stop, auto, subst dropWhile_append_stop, auto)

lemma getline_last: "d \<notin> set l \<Longrightarrow> l \<noteq> [] \<Longrightarrow> getline d l = Some (l, [])"
  by (subst getline_def, subst takeWhile_all, auto, subst dropWhile_all, auto)

lemma getlines_line [stream_simps]:
  "d \<notin> set l \<Longrightarrow> getlines d (l @ d # r) = l # getlines d r"
  by (simp add: getlines_def lines.loop_step [OF getline_line])

lemma getlines_last: "d \<notin> set l \<Longrightarrow> l \<noteq> [] \<Longrightarrow> getlines d l = [l]"
  by (simp add: getlines_def lines.loop_step [OF getline_last] lines.loop_Nil)

text \<open>Text is either without delimiter or a line, a delimiter and more text.\<close>

lemma lines_cases [case_names last line]:
  fixes s :: "'a list"
  obtains "d \<notin> set s" | l r where "s = l @ d # r" "d \<notin> set l"
  using split_list_first [of d s] by blast

lemma getlines_no_delim: "l \<in> set (getlines d s) \<Longrightarrow> d \<notin> set l"
proof (induction s rule: length_induct)
  case (1 s)
  show ?case
  proof (cases d s rule: lines_cases)
    case last
    then show ?thesis using 1(2) by (cases "s = []") (auto simp: getlines_last)
  next
    case (line l' r)
    then have "l = l' \<or> l \<in> set (getlines d r)" and "length r < length s"
      using 1(2) by (auto simp: getlines_line)
    then show ?thesis using 1(1) line by blast
  qed
qed

text \<open>The lines of text whose last line is complete, put back together, are the text.\<close>

lemma getlines_concat:
  "s = [] \<or> last s = d \<Longrightarrow> concat (map (\<lambda>l. l @ [d]) (getlines d s)) = s"
proof (induction s rule: length_induct)
  case (1 s)
  show ?case
  proof (cases d s rule: lines_cases)
    case last
    then show ?thesis using 1(2) by (cases s rule: rev_cases) auto
  next
    case (line l r)
    then have "r = [] \<or> last r = d" and "length r < length s"
      using 1(2) by (auto split: if_splits)
    then have "concat (map (\<lambda>l. l @ [d]) (getlines d r)) = r"
      using 1(1) by blast
    with line show ?thesis by (simp add: getlines_line)
  qed
qed

lemma getlines_complete:
  "\<forall>l \<in> set ls. d \<notin> set l \<Longrightarrow> getlines d (concat (map (\<lambda>l. l @ [d]) ls) @ t) = ls @ getlines d t"
  by (induction ls) (auto simp: getlines_line)

text \<open>A text file: every line ends in a newline.\<close>

definition file_of_lines :: "string list \<Rightarrow> string" where
  "file_of_lines ls = concat (map (\<lambda>l. l @ [CHR 0x0A]) ls)"

lemma getlines_file: "\<forall>l \<in> set ls. CHR 0x0A \<notin> set l \<Longrightarrow> getlines CHR 0x0A (file_of_lines ls) = ls"
  using getlines_complete [of ls "CHR 0x0A" "[]"] by (simp add: file_of_lines_def)

section \<open>Joining\<close>

fun join :: "string \<Rightarrow> string list \<Rightarrow> string" where
  "join sep [] = []"
| "join sep [v] = v"
| "join sep (v # w # vs) = v @ sep @ join sep (w # vs)"

lemma getlines_join:
  "\<forall>v \<in> set vs. v \<noteq> [] \<and> d \<notin> set v \<Longrightarrow> getlines d (join [d] vs) = vs"
  by (induction "[d]" vs rule: join.induct) (simp_all add: getlines_line getlines_last)

lemma set_join: "set (join sep vs) \<subseteq> (\<Union>v \<in> set vs. set v) \<union> set sep"
  by (induction sep vs rule: join.induct) auto

end
