(* ===== verification/Cpp_Number.thy ===== *)
theory Cpp_Number
  imports Cpp_String
begin

text \<open>
  The number conversions of the C++ library that the program uses: \<open>std::to_string\<close>,
  \<open>std::stoul\<close>, \<open>std::stoll\<close>, \<open>std::from_chars\<close>, and the formatted extractions
  \<open>stream >> std::string\<close>, \<open>>> char\<close>, \<open>>> std::uint64_t\<close> and \<open>>> std::int64_t\<close>.

  Extraction of an unsigned number accepts a sign, as the C++ standard says (the conversion is
  that of \<open>strtoull\<close>), and a negative sign negates modulo \<open>2^64\<close>; a magnitude that does not
  fit fails.  \<open>std::from_chars\<close> accepts neither a sign nor white space.
\<close>

section \<open>Digits\<close>

definition digit_value :: "char \<Rightarrow> nat" where
  "digit_value c =
     (let n = of_char c in
      if 48 \<le> n \<and> n \<le> 57 then n - 48
      else if 65 \<le> n \<and> n \<le> 90 then n - 55
      else if 97 \<le> n \<and> n \<le> 122 then n - 87
      else 255)"

definition digit_char :: "nat \<Rightarrow> char" where
  "digit_char n = char_of (if n < 10 then 48 + n else 55 + n)"

definition digit_of :: "nat \<Rightarrow> char \<Rightarrow> bool" where
  "digit_of b c \<longleftrightarrow> digit_value c < b"

definition value_of :: "nat \<Rightarrow> string \<Rightarrow> nat" where
  "value_of b ds = foldl (\<lambda>a c. a * b + digit_value c) 0 ds"

lemma digit_of_10: "digit_of 10 c \<longleftrightarrow> isdigit c"
  by (auto simp: digit_of_def digit_value_def isdigit_def Let_def)

lemma digit_value_char [simp]: "n < 16 \<Longrightarrow> digit_value (digit_char n) = n"
  by (auto simp: digit_value_def digit_char_def Let_def)

lemma digit_of_char [simp]: "n < b \<Longrightarrow> b \<le> 16 \<Longrightarrow> digit_of b (digit_char n)"
  by (simp add: digit_of_def)

lemma isdigit_char [simp]: "n < 10 \<Longrightarrow> isdigit (digit_char n)"
  using digit_of_char [of n 10] by (simp add: digit_of_10)

lemma value_of_Nil [simp]: "value_of b [] = 0"
  by (simp add: value_of_def)

lemma value_of_snoc [simp]: "value_of b (ds @ [c]) = value_of b ds * b + digit_value c"
  by (simp add: value_of_def)

lemma value_of_bound: "\<forall>c \<in> set ds. digit_of b c \<Longrightarrow> value_of b ds < b ^ length ds"
proof (induction ds rule: rev_induct)
  case Nil
  show ?case by simp
next
  case (snoc c ds)
  then have v: "value_of b ds + 1 \<le> b ^ length ds" and d: "digit_value c < b"
    by (auto simp: digit_of_def)
  have "value_of b ds * b + digit_value c < (value_of b ds + 1) * b"
    using d by simp
  also have "\<dots> \<le> b ^ length ds * b"
    using v by (rule mult_le_mono1)
  finally show ?case by (simp add: mult.commute)
qed

section \<open>Printing\<close>

fun show_nat :: "nat \<Rightarrow> string" where
  "show_nat n = (if n < 10 then [digit_char n] else show_nat (n div 10) @ [digit_char (n mod 10)])"

declare show_nat.simps [simp del]

definition show_int :: "int \<Rightarrow> string" where
  "show_int i = (if i < 0 then CHR ''-'' # show_nat (nat (- i)) else show_nat (nat i))"

fun show_fixed :: "nat \<Rightarrow> nat \<Rightarrow> nat \<Rightarrow> string" where
  "show_fixed b 0 n = []"
| "show_fixed b (Suc k) n = show_fixed b k (n div b) @ [digit_char (n mod b)]"

lemma show_nat_digits: "c \<in> set (show_nat n) \<Longrightarrow> isdigit c"
proof (induction n rule: show_nat.induct)
  case (1 n)
  then show ?case
    by (cases "n < 10") (auto simp: show_nat.simps [of n])
qed

lemma show_nat_nonempty [simp]: "show_nat n \<noteq> []"
  by (subst show_nat.simps) simp

lemma value_of_show_nat [simp]: "value_of 10 (show_nat n) = n"
proof (induction n rule: show_nat.induct)
  case (1 n)
  have d: "digit_value (digit_char (n mod 10)) = n mod 10" by simp
  show ?case
  proof (cases "n < 10")
    case True
    then show ?thesis by (simp add: show_nat.simps [of n] value_of_def)
  next
    case False
    with 1 d show ?thesis by (simp add: show_nat.simps [of n] del: digit_value_char)
  qed
qed

lemma length_show_fixed [simp]: "length (show_fixed b k n) = k"
  by (induction b k n rule: show_fixed.induct) auto

lemma show_fixed_digits:
  "0 < b \<Longrightarrow> b \<le> 16 \<Longrightarrow> \<forall>c \<in> set (show_fixed b k n). digit_of b c"
  by (induction b k n rule: show_fixed.induct) auto

lemma value_of_show_fixed: "0 < b \<Longrightarrow> b \<le> 16 \<Longrightarrow> value_of b (show_fixed b k n) = n mod b ^ k"
proof (induction k arbitrary: n)
  case 0
  then show ?case by simp
next
  case (Suc k)
  have "digit_value (digit_char (n mod b)) = n mod b"
    using Suc.prems by (metis digit_value_char dual_order.strict_trans1 mod_less_divisor)
  then have "value_of b (show_fixed b (Suc k) n) = (n div b) mod b ^ k * b + n mod b"
    using Suc by simp
  also have "\<dots> = n mod (b * b ^ k)"
    by (simp add: mod_mult2_eq mult.commute add.commute)
  finally show ?case by simp
qed

section \<open>\<open>std::from_chars\<close> on a whole text\<close>

text \<open>
  The value of a non-empty text of digits of base \<open>b\<close>, or \<open>None\<close> for \<open>result.ec\<close> set or
  \<open>result.ptr != end\<close>.
\<close>

definition from_chars_u64 :: "nat \<Rightarrow> string \<Rightarrow> u64 option" where
  "from_chars_u64 b text =
     (if text \<noteq> [] \<and> list_all (digit_of b) text \<and> value_of b text \<le> u64_max
      then Some (word_of_nat (value_of b text)) else None)"

lemma from_chars_show_nat:
  "n \<le> u64_max \<Longrightarrow> from_chars_u64 10 (show_nat n) = Some (word_of_nat n)"
  by (auto simp: from_chars_u64_def list_all_iff digit_of_10 dest: show_nat_digits)

lemma from_chars_show_fixed:
  assumes "0 < k" "k \<le> 8"
  shows "from_chars_u64 16 (show_fixed 16 k n) = Some (word_of_nat (n mod 16 ^ k))"
proof -
  have "n mod 16 ^ k < (16::nat) ^ k" by simp
  also have "\<dots> \<le> 16 ^ 8"
    using assms by (intro power_increasing) auto
  finally have "n mod 16 ^ k \<le> u64_max" by simp
  moreover have "show_fixed 16 k n \<noteq> []"
    using assms length_show_fixed [of 16 k n] by (cases "show_fixed 16 k n") auto
  ultimately show ?thesis
    using show_fixed_digits [of 16 k n]
    by (simp add: from_chars_u64_def list_all_iff value_of_show_fixed)
qed

section \<open>Extraction from a stream\<close>

definition skip_ws :: "string \<Rightarrow> string" where
  "skip_ws s = dropWhile isspace s"

definition read_token :: "string \<Rightarrow> (string \<times> string) option" where
  "read_token s =
     (let t = skip_ws s in
      if t = [] then None
      else Some (takeWhile (\<lambda>c. \<not> isspace c) t, dropWhile (\<lambda>c. \<not> isspace c) t))"

definition read_char :: "string \<Rightarrow> (char \<times> string) option" where
  "read_char s = (case skip_ws s of [] \<Rightarrow> None | c # r \<Rightarrow> Some (c, r))"

fun split_sign :: "string \<Rightarrow> bool \<times> string" where
  "split_sign [] = (False, [])"
| "split_sign (c # cs) =
     (if c = CHR ''-'' then (True, cs) else if c = CHR ''+'' then (False, cs) else (False, c # cs))"

definition scan_int :: "string \<Rightarrow> (bool \<times> nat \<times> string) option" where
  "scan_int s =
     (let (neg, t) = split_sign (skip_ws s); ds = takeWhile isdigit t in
      if ds = [] then None else Some (neg, value_of 10 ds, dropWhile isdigit t))"

definition read_u64 :: "string \<Rightarrow> (u64 \<times> string) option" where
  "read_u64 s =
     (case scan_int s of None \<Rightarrow> None
      | Some (neg, v, r) \<Rightarrow>
          if v \<le> u64_max then Some (if neg then - word_of_nat v else word_of_nat v, r) else None)"

definition read_i64 :: "string \<Rightarrow> (int \<times> string) option" where
  "read_i64 s =
     (case scan_int s of None \<Rightarrow> None
      | Some (neg, v, r) \<Rightarrow>
          if v < 9223372036854775808 \<or> (neg \<and> v = 9223372036854775808)
          then Some (if neg then - int v else int v, r) else None)"

text \<open>
  \<open>std::stoul\<close> and \<open>std::stoll\<close>: the value and the number of characters processed, or
  \<open>None\<close> for \<open>std::invalid_argument\<close> and \<open>std::out_of_range\<close>.
\<close>

definition stoul :: "string \<Rightarrow> (u64 \<times> nat) option" where
  "stoul s = map_option (\<lambda>(v, r). (v, length s - length r)) (read_u64 s)"

definition stoll :: "string \<Rightarrow> (int \<times> nat) option" where
  "stoll s = map_option (\<lambda>(v, r). (v, length s - length r)) (read_i64 s)"

section \<open>What the extractions consume\<close>

definition stops :: "(char \<Rightarrow> bool) \<Rightarrow> string \<Rightarrow> bool" where
  "stops P r \<longleftrightarrow> r = [] \<or> \<not> P (hd r)"

lemma stops_simps [simp]: "stops P []" "stops P (c # r) \<longleftrightarrow> \<not> P c"
  by (simp_all add: stops_def)

lemma stops_while [simp]: "stops P r \<Longrightarrow> takeWhile P r = []" "stops P r \<Longrightarrow> dropWhile P r = r"
  by (cases r; simp)+

lemma takeWhile_stops: "\<forall>c \<in> set xs. P c \<Longrightarrow> stops P r \<Longrightarrow> takeWhile P (xs @ r) = xs"
  by (cases r) (simp_all add: takeWhile_all takeWhile_append_stop)

lemma dropWhile_stops: "\<forall>c \<in> set xs. P c \<Longrightarrow> stops P r \<Longrightarrow> dropWhile P (xs @ r) = r"
  by (cases r) (simp_all add: dropWhile_all dropWhile_append_stop)

lemma dropWhile_shorter: "takeWhile P s \<noteq> [] \<Longrightarrow> length (dropWhile P s) < length s"
  by (cases s) (auto simp: le_imp_less_Suc length_dropWhile_le split: if_splits)

lemma skip_ws_length: "length (skip_ws s) \<le> length s"
  by (simp add: skip_ws_def length_dropWhile_le)

lemma skip_ws_space [stream_simps]: "isspace c \<Longrightarrow> skip_ws (c # s) = skip_ws s"
  by (simp add: skip_ws_def)

lemma skip_ws_stop [stream_simps]: "\<not> isspace c \<Longrightarrow> skip_ws (c # s) = c # s"
  by (simp add: skip_ws_def)

lemma skip_ws_blanks: "\<forall>c \<in> set b. isspace c \<Longrightarrow> skip_ws (b @ r) = skip_ws r"
  by (induction b) (simp_all add: skip_ws_space)

lemma skip_ws_head: "skip_ws s = c # r \<Longrightarrow> \<not> isspace c"
  using hd_dropWhile [of isspace s] by (auto simp: skip_ws_def)

lemma read_token_consumes [consumes]: "read_token s = Some (w, r) \<Longrightarrow> length r < length s"
proof -
  assume a: "read_token s = Some (w, r)"
  then obtain c t where t: "skip_ws s = c # t"
    by (cases "skip_ws s") (auto simp: read_token_def Let_def)
  moreover have "\<not> isspace c"
    using t by (rule skip_ws_head)
  ultimately have "r = dropWhile (\<lambda>c. \<not> isspace c) t"
    using a by (auto simp: read_token_def Let_def)
  then have "length r \<le> length t"
    by (simp add: length_dropWhile_le)
  then show ?thesis
    using skip_ws_length [of s] t by simp
qed

lemma read_char_consumes [consumes]: "read_char s = Some (c, r) \<Longrightarrow> length r < length s"
  using skip_ws_length [of s] by (auto simp: read_char_def split: list.splits)

lemma split_sign_length: "length (snd (split_sign s)) \<le> length s"
  by (cases s) auto

lemma scan_int_consumes [consumes]: "scan_int s = Some (neg, v, r) \<Longrightarrow> length r < length s"
proof -
  assume a: "scan_int s = Some (neg, v, r)"
  obtain n t where t: "split_sign (skip_ws s) = (n, t)"
    by (cases "split_sign (skip_ws s)")
  with a have "takeWhile isdigit t \<noteq> []" and r: "r = dropWhile isdigit t"
    by (auto simp: scan_int_def Let_def split: if_splits)
  then have "length r < length t"
    by (simp add: dropWhile_shorter)
  also have "length t \<le> length s"
    using split_sign_length [of "skip_ws s"] skip_ws_length [of s] t by simp
  finally show ?thesis .
qed

lemma read_u64_consumes [consumes]: "read_u64 s = Some (v, r) \<Longrightarrow> length r < length s"
  by (auto simp: read_u64_def split: option.splits prod.splits if_splits dest: scan_int_consumes)

lemma read_i64_consumes [consumes]: "read_i64 s = Some (v, r) \<Longrightarrow> length r < length s"
  by (auto simp: read_i64_def split: option.splits prod.splits if_splits dest: scan_int_consumes)

lemma read_i64_range:
  "read_i64 s = Some (v, r) \<Longrightarrow> - 9223372036854775808 \<le> v \<and> v < 9223372036854775808"
  by (auto simp: read_i64_def split: option.splits prod.splits if_splits)

section \<open>Reading back what was printed\<close>

fun skip_fields :: "(string \<Rightarrow> ('a \<times> string) option) \<Rightarrow> nat \<Rightarrow> string \<Rightarrow> string option" where
  "skip_fields rd 0 s = Some s"
| "skip_fields rd (Suc n) s =
     (case rd s of None \<Rightarrow> None | Some (_, r) \<Rightarrow> skip_fields rd n r)"

text \<open>Text made of the printed fields, each after a blank.\<close>

definition fields_text :: "('a \<Rightarrow> string) \<Rightarrow> 'a list \<Rightarrow> string" where
  "fields_text pr vs = concat (map (\<lambda>v. CHR '' '' # pr v) vs)"

lemma fields_text_simps [simp]:
  "fields_text pr [] = []"
  "fields_text pr (v # vs) = CHR '' '' # pr v @ fields_text pr vs"
  by (simp_all add: fields_text_def)

abbreviation ends_field :: "string \<Rightarrow> bool" where
  "ends_field r \<equiv> stops (\<lambda>c. \<not> isspace c) r"

lemma ends_field_fields_text: "ends_field r \<Longrightarrow> ends_field (fields_text pr vs @ r)"
  by (cases vs) simp_all

locale printed_reader = stream_reader rd
  for rd :: "string \<Rightarrow> ('a \<times> string) option" +
  fixes pr :: "'b \<Rightarrow> string"
    and ok :: "'b \<Rightarrow> bool"
    and val :: "'b \<Rightarrow> 'a"
  assumes rd_pr: "ok v \<Longrightarrow> ends_field r \<Longrightarrow> rd (pr v @ r) = Some (val v, r)"
    and rd_blank: "rd (CHR '' '' # s) = rd s"
begin

lemma rd_field: "ok v \<Longrightarrow> ends_field r \<Longrightarrow> rd (CHR '' '' # pr v @ r) = Some (val v, r)"
  by (simp add: rd_blank rd_pr)

lemma skip_printed:
  "\<forall>v \<in> set vs. ok v \<Longrightarrow> ends_field r \<Longrightarrow>
   skip_fields rd (length vs) (fields_text pr vs @ r) = Some r"
  by (induction vs) (simp_all add: rd_field ends_field_fields_text)

lemma loop_printed:
  "\<forall>v \<in> set vs. ok v \<Longrightarrow> read_loop rd (fields_text pr vs) = map val vs"
proof (induction vs)
  case Nil
  then show ?case by (simp add: loop_Nil)
next
  case (Cons v vs)
  have "ends_field (fields_text pr vs)"
    using ends_field_fields_text [of "[]" pr vs] by simp
  with Cons show ?case
    by (simp add: loop_step [OF rd_field])
qed

end

lemma ends_field_digit: "ends_field r \<Longrightarrow> stops isdigit r"
  by (auto simp: stops_def dest: isdigit_not_space)

lemma split_sign_digits:
  "ds \<noteq> [] \<Longrightarrow> \<forall>c \<in> set ds. isdigit c \<Longrightarrow> split_sign (ds @ r) = (False, ds @ r)"
  using isdigit_not_sign [of "hd ds"] by (cases ds) auto

lemma scan_int_blank: "isspace c \<Longrightarrow> scan_int (c # s) = scan_int s"
  by (simp add: scan_int_def skip_ws_space)

lemma scan_int_digits:
  assumes "ds \<noteq> []" "\<forall>c \<in> set ds. isdigit c" "stops isdigit r"
  shows "scan_int (ds @ r) = Some (False, value_of 10 ds, r)"
proof -
  have "skip_ws (ds @ r) = ds @ r"
    using assms(1,2) by (cases ds) (auto simp: skip_ws_stop isdigit_not_space)
  then show ?thesis
    using assms by (simp add: scan_int_def split_sign_digits takeWhile_stops dropWhile_stops)
qed

lemma scan_int_minus:
  assumes "ds \<noteq> []" "\<forall>c \<in> set ds. isdigit c" "stops isdigit r"
  shows "scan_int (CHR ''-'' # ds @ r) = Some (True, value_of 10 ds, r)"
proof -
  have "skip_ws (CHR ''-'' # ds @ r) = CHR ''-'' # ds @ r"
    by (simp add: skip_ws_def isspace_def)
  then show ?thesis
    using assms by (simp add: scan_int_def takeWhile_stops dropWhile_stops)
qed

lemma scan_int_show_nat:
  "stops isdigit r \<Longrightarrow> scan_int (show_nat n @ r) = Some (False, n, r)"
  by (simp add: scan_int_digits show_nat_digits)

lemma scan_int_show_int:
  "stops isdigit r \<Longrightarrow> scan_int (show_int i @ r) = Some (i < 0, nat \<bar>i\<bar>, r)"
  using scan_int_minus [of "show_nat (nat (- i))" r]
  by (auto simp: show_int_def scan_int_show_nat show_nat_digits)

lemma read_u64_show_nat [stream_simps]:
  "n \<le> u64_max \<Longrightarrow> stops isdigit r \<Longrightarrow> read_u64 (show_nat n @ r) = Some (word_of_nat n, r)"
  by (simp add: read_u64_def scan_int_show_nat)

lemma read_u64_show_int:
  "- int u64_max \<le> i \<Longrightarrow> i \<le> int u64_max \<Longrightarrow> stops isdigit r \<Longrightarrow>
   read_u64 (show_int i @ r) = Some (word_of_int i, r)"
  by (cases "i < 0") (simp_all add: read_u64_def scan_int_show_int)

lemma read_i64_show_int [stream_simps]:
  "- 9223372036854775808 \<le> i \<Longrightarrow> i < 9223372036854775808 \<Longrightarrow> stops isdigit r \<Longrightarrow>
   read_i64 (show_int i @ r) = Some (i, r)"
  by (auto simp: read_i64_def scan_int_show_int)

lemma read_token_word:
  assumes "w \<noteq> []" "\<forall>c \<in> set w. \<not> isspace c" "ends_field r"
  shows "read_token (w @ r) = Some (w, r)"
proof -
  have "skip_ws (w @ r) = w @ r"
    using assms(1,2) by (cases w) (auto simp: skip_ws_stop)
  then show ?thesis
    using assms by (simp add: read_token_def takeWhile_stops dropWhile_stops)
qed

interpretation tokens: printed_reader read_token "\<lambda>w. w"
  "\<lambda>w. w \<noteq> [] \<and> (\<forall>c \<in> set w. \<not> isspace c)" "\<lambda>w. w"
  by unfold_locales
     (simp_all add: read_token_consumes read_token_word,
      simp add: read_token_def skip_ws_space)

interpretation u64s: printed_reader read_u64 show_int
  "\<lambda>i. - int u64_max \<le> i \<and> i \<le> int u64_max" word_of_int
  by unfold_locales
     (simp_all add: read_u64_consumes read_u64_show_int ends_field_digit,
      simp add: read_u64_def scan_int_blank)

interpretation i64s: printed_reader read_i64 show_int
  "\<lambda>i. - 9223372036854775808 \<le> i \<and> i < 9223372036854775808" "\<lambda>i. i"
  by unfold_locales
     (simp_all add: read_i64_consumes read_i64_show_int ends_field_digit,
      simp add: read_i64_def scan_int_blank)

section \<open>\<open>std::stoul\<close> on a whole text\<close>

lemma scan_int_rest_suffix: "scan_int s = Some (neg, v, r) \<Longrightarrow> stops isdigit r"
  using hd_dropWhile [of isdigit "snd (split_sign (skip_ws s))"]
  by (auto simp: scan_int_def Let_def stops_def split: prod.splits if_splits)

lemma stoul_show_nat:
  "n \<le> u64_max \<Longrightarrow> stoul (show_nat n) = Some (word_of_nat n, length (show_nat n))"
  using read_u64_show_nat [of n "[]"] by (simp add: stoul_def)

lemma stoul_whole:
  "stoul s = Some (v, length s) \<longleftrightarrow> read_u64 s = Some (v, [])"
proof
  assume "stoul s = Some (v, length s)"
  then obtain r where r: "read_u64 s = Some (v, r)" and l: "length s - length r = length s"
    by (auto simp: stoul_def)
  then have "length r = 0"
    using read_u64_consumes [OF r] by linarith
  with r show "read_u64 s = Some (v, [])" by simp
qed (simp add: stoul_def)

end
