(* ===== verification/Cpp_Double.thy ===== *)
theory Cpp_Double
  imports Complex_Main Cpp_Number
begin

text \<open>
  The \<open>double\<close> arithmetic of the program: IEEE 754 binary64 with round to nearest, ties to
  even, on values without a signed zero (no operation of the program can tell \<open>-0.0\<close> from
  \<open>0.0\<close>).  A finite value is the rational number it stands for; every operation computes
  the exact result and rounds it.  Below come the extraction \<open>stream >> double\<close>, the cast to
  \<open>std::uint64_t\<close> and the two output formats that the diagnostic files use.
\<close>

section \<open>Rounding\<close>

definition round_half_even :: "rat \<Rightarrow> int" where
  "round_half_even x =
     (let f = \<lfloor>x\<rfloor>; d = x - of_int f in
      if d < 1 / 2 then f else if d > 1 / 2 then f + 1 else if even f then f else f + 1)"

fun nat_log2 :: "nat \<Rightarrow> nat" where
  "nat_log2 n = (if n < 2 then 0 else Suc (nat_log2 (n div 2)))"

declare nat_log2.simps [simp del]

definition pow2 :: "int \<Rightarrow> rat" where
  "pow2 e = (if 0 \<le> e then of_int (2 ^ nat e) else Fract 1 (2 ^ nat (- e)))"

text \<open>The binary exponent of a positive number.\<close>

definition ilog2 :: "rat \<Rightarrow> int" where
  "ilog2 x =
     (let (p, q) = quotient_of x; k = int (nat_log2 (nat p)) - int (nat_log2 (nat q)) in
      if pow2 k \<le> x then k else k - 1)"

text \<open>The exponent of the last place of the 53-bit significand, or of the least subnormal.\<close>

definition ulp_exp :: "rat \<Rightarrow> int" where
  "ulp_exp x = max (ilog2 x - 52) (- 1074)"

definition round_pos :: "rat \<Rightarrow> rat" where
  "round_pos x = (let u = pow2 (ulp_exp x) in of_int (round_half_even (x / u)) * u)"

definition round_rat :: "rat \<Rightarrow> rat" where
  "round_rat x = (if x = 0 then 0 else if x < 0 then - round_pos (- x) else round_pos x)"

section \<open>Values and operations\<close>

datatype double = Fin rat | PosInf | NegInf | NaN

text \<open>A rounded value of \<open>2^1024\<close> or more overflows.\<close>

definition dbl :: "rat \<Rightarrow> double" where
  "dbl x =
     (let y = round_rat x in
      if y = 0 \<or> ilog2 \<bar>y\<bar> < 1024 then Fin y else if 0 < y then PosInf else NegInf)"

definition double_of_u64 :: "u64 \<Rightarrow> double" where
  "double_of_u64 w = dbl (of_nat (unat w))"

definition isfinite :: "double \<Rightarrow> bool" where
  "isfinite d \<longleftrightarrow> (case d of Fin _ \<Rightarrow> True | _ \<Rightarrow> False)"

fun dless :: "double \<Rightarrow> double \<Rightarrow> bool" where
  "dless (Fin a) (Fin b) = (a < b)"
| "dless NaN _ = False"
| "dless _ NaN = False"
| "dless NegInf b = (b \<noteq> NegInf)"
| "dless _ NegInf = False"
| "dless PosInf _ = False"
| "dless _ PosInf = True"

definition dle :: "double \<Rightarrow> double \<Rightarrow> bool" where
  "dle a b \<longleftrightarrow> a \<noteq> NaN \<and> b \<noteq> NaN \<and> \<not> dless b a"

definition signed_inf :: "rat \<Rightarrow> double" where
  "signed_inf x = (if x = 0 then NaN else if 0 < x then PosInf else NegInf)"

fun dsub :: "double \<Rightarrow> double \<Rightarrow> double" where
  "dsub (Fin a) (Fin b) = dbl (a - b)"
| "dsub NaN _ = NaN"
| "dsub _ NaN = NaN"
| "dsub PosInf PosInf = NaN"
| "dsub NegInf NegInf = NaN"
| "dsub PosInf _ = PosInf"
| "dsub NegInf _ = NegInf"
| "dsub _ PosInf = NegInf"
| "dsub _ NegInf = PosInf"

fun dmul :: "double \<Rightarrow> double \<Rightarrow> double" where
  "dmul (Fin a) (Fin b) = dbl (a * b)"
| "dmul NaN _ = NaN"
| "dmul _ NaN = NaN"
| "dmul (Fin a) PosInf = signed_inf a"
| "dmul (Fin a) NegInf = signed_inf (- a)"
| "dmul PosInf (Fin b) = signed_inf b"
| "dmul NegInf (Fin b) = signed_inf (- b)"
| "dmul a b = (if a = b then PosInf else NegInf)"

fun ddiv :: "double \<Rightarrow> double \<Rightarrow> double" where
  "ddiv (Fin a) (Fin b) = (if b = 0 then signed_inf a else dbl (a / b))"
| "ddiv NaN _ = NaN"
| "ddiv _ NaN = NaN"
| "ddiv (Fin a) _ = Fin 0"
| "ddiv PosInf (Fin b) = (if b < 0 then NegInf else PosInf)"
| "ddiv NegInf (Fin b) = (if b < 0 then PosInf else NegInf)"
| "ddiv _ _ = NaN"

text \<open>
  \<open>static_cast<std::uint64_t>(d)\<close> truncates; \<open>None\<close> where the truncated value is not
  representable, which is undefined behaviour in C++.
\<close>

definition trunc_u64 :: "double \<Rightarrow> u64 option" where
  "trunc_u64 d =
     (case d of
        Fin x \<Rightarrow> if - 1 < x \<and> x < 2 ^ 64 then Some (word_of_nat (nat \<lfloor>x\<rfloor>)) else None
      | _ \<Rightarrow> None)"

section \<open>Extraction\<close>

definition scan_exponent :: "string \<Rightarrow> (int \<times> string) option" where
  "scan_exponent s =
     (case s of
        [] \<Rightarrow> Some (0, [])
      | c # r \<Rightarrow>
          if c = CHR ''e'' \<or> c = CHR ''E'' then
            (let (neg, t) = split_sign r; ds = takeWhile isdigit t in
             if ds = [] then None
             else Some (if neg then - int (value_of 10 ds) else int (value_of 10 ds),
                        dropWhile isdigit t))
          else Some (0, s))"

definition scan_fraction :: "string \<Rightarrow> string \<times> string" where
  "scan_fraction s =
     (case s of
        [] \<Rightarrow> ([], [])
      | c # r \<Rightarrow>
          if c = CHR ''.'' then (takeWhile isdigit r, dropWhile isdigit r) else ([], s))"

definition read_double :: "string \<Rightarrow> (double \<times> string) option" where
  "read_double s =
     (let (neg, t) = split_sign (skip_ws s);
          ip = takeWhile isdigit t;
          (fp, t') = scan_fraction (dropWhile isdigit t)
      in if ip @ fp = [] then None
         else (case scan_exponent t' of
                 None \<Rightarrow> None
               | Some (e, r) \<Rightarrow>
                   (let m = of_nat (value_of 10 (ip @ fp)) * 10 powi (e - int (length fp));
                        d = dbl (if neg then - m else m)
                    in if isfinite d then Some (d, r) else None)))"

section \<open>Output\<close>

text \<open>\<open>std::fixed << std::setprecision(k)\<close>.\<close>

definition show_rat_fixed :: "nat \<Rightarrow> rat \<Rightarrow> string" where
  "show_rat_fixed k x =
     (let n = nat (round_half_even (\<bar>x\<bar> * 10 ^ k)) in
      (if x < 0 then ''-'' else []) @ show_nat (n div 10 ^ k) @
      (if k = 0 then [] else CHR ''.'' # show_fixed 10 k (n mod 10 ^ k)))"

fun show_double_fixed :: "nat \<Rightarrow> double \<Rightarrow> string" where
  "show_double_fixed k (Fin x) = show_rat_fixed k x"
| "show_double_fixed k PosInf = ''inf''"
| "show_double_fixed k NegInf = ''-inf''"
| "show_double_fixed k NaN = ''nan''"

text \<open>The default format, \<open>%g\<close> with six significant digits.\<close>

definition ilog10 :: "rat \<Rightarrow> int" where
  "ilog10 x =
     (let (p, q) = quotient_of x;
          k = int (length (show_nat (nat p))) - int (length (show_nat (nat q)))
      in if 10 powi k \<le> x then k else k - 1)"

definition six_digits :: "rat \<Rightarrow> int \<times> nat" where
  "six_digits x =
     (let k = ilog10 x; m = nat (round_half_even (x / 10 powi (k - 5))) in
      if m = 1000000 then (k + 1, 100000) else (k, m))"

definition strip_zeros :: "string \<Rightarrow> string" where
  "strip_zeros s =
     (let t = rev (dropWhile (\<lambda>c. c = CHR ''0'') (rev s)) in
      if t \<noteq> [] \<and> last t = CHR ''.'' then butlast t else t)"

definition show_exponent :: "int \<Rightarrow> string" where
  "show_exponent e =
     (if e < 0 then ''e-'' else ''e+'') @
     (if \<bar>e\<bar> < 10 then CHR ''0'' # show_nat (nat \<bar>e\<bar>) else show_nat (nat \<bar>e\<bar>))"

definition show_rat_general :: "rat \<Rightarrow> string" where
  "show_rat_general x =
     (if x = 0 then ''0''
      else (let (e, m) = six_digits \<bar>x\<bar>; sign = (if x < 0 then ''-'' else []) in
        if - 4 \<le> e \<and> e < 6 then
          (let k = nat (5 - e);
               n = m
           in sign @ strip_zeros (show_nat (n div 10 ^ k) @ CHR ''.'' # show_fixed 10 k (n mod 10 ^ k)))
        else sign @ strip_zeros (show_nat (m div 100000) @ CHR ''.'' # show_fixed 10 5 (m mod 100000))
             @ show_exponent e))"

fun show_double :: "double \<Rightarrow> string" where
  "show_double (Fin x) = show_rat_general x"
| "show_double PosInf = ''inf''"
| "show_double NegInf = ''-inf''"
| "show_double NaN = ''nan''"

section \<open>Rounding is monotone\<close>

lemma pow2_powi: "pow2 e = 2 powi e"
proof (cases "0 \<le> e")
  case True
  then show ?thesis by (simp add: pow2_def power_int_def)
next
  case False
  then show ?thesis
    by (simp add: pow2_def power_int_def Fract_of_int_quotient power_inverse inverse_eq_divide
        power_divide)
qed

lemma pow2_pos [simp]: "0 < pow2 e"
  by (simp add: pow2_powi)

lemma pow2_mono: "a \<le> b \<Longrightarrow> pow2 a \<le> pow2 b"
  by (simp add: pow2_powi power_int_increasing)

lemma pow2_less_iff: "pow2 a < pow2 b \<longleftrightarrow> a < b"
  using pow2_mono [of b a] power_int_strict_increasing [of a b "2 :: rat"]
  by (auto simp: pow2_powi not_le [symmetric] simp del: not_le)

lemma pow2_add: "pow2 (a + b) = pow2 a * pow2 b"
  by (simp add: pow2_powi power_int_add)

lemma pow2_nat: "0 \<le> e \<Longrightarrow> pow2 e = of_int (2 ^ nat e)"
  by (simp add: pow2_def)

lemma nat_log2_bounds: "0 < n \<Longrightarrow> 2 ^ nat_log2 n \<le> n \<and> n < 2 ^ Suc (nat_log2 n)"
proof (induction n rule: nat_log2.induct)
  case (1 n)
  show ?case
  proof (cases "n < 2")
    case True
    with 1(2) have "n = 1" by simp
    then show ?thesis by (simp add: nat_log2.simps)
  next
    case False
    then have "2 ^ nat_log2 (n div 2) \<le> n div 2 \<and> n div 2 < 2 ^ Suc (nat_log2 (n div 2))"
      using 1 by auto
    then have "2 * 2 ^ nat_log2 (n div 2) \<le> n \<and> n < 2 * 2 ^ Suc (nat_log2 (n div 2))"
      by linarith
    then show ?thesis
      using False by (simp add: nat_log2.simps [of n])
  qed
qed

lemma ilog2_bounds:
  assumes "0 < x"
  shows "pow2 (ilog2 x) \<le> x" and "x < pow2 (ilog2 x + 1)"
proof -
  obtain p q where pq: "quotient_of x = (p, q)" by (cases "quotient_of x")
  have q: "0 < q" and x: "x = of_int p / of_int q"
    using pq by (simp_all add: quotient_of_denom_pos quotient_of_div)
  with assms have p: "0 < p"
    by (simp add: zero_less_divide_iff)
  define a b where "a = int (nat_log2 (nat p))" and "b = int (nat_log2 (nat q))"
  have bounds: "pow2 (int (nat_log2 (nat n))) \<le> of_int n \<and> of_int n < pow2 (int (nat_log2 (nat n)) + 1)"
    if "0 < n" for n :: int
  proof -
    have "(2::nat) ^ nat_log2 (nat n) \<le> nat n" and "nat n < 2 ^ Suc (nat_log2 (nat n))"
      using that nat_log2_bounds [of "nat n"] by simp_all
    then have "(2::int) ^ nat_log2 (nat n) \<le> n" and "n < 2 ^ Suc (nat_log2 (nat n))"
      using that by (simp_all add: le_nat_iff nat_less_iff del: power_Suc)
    then have "(of_int (2 ^ nat_log2 (nat n)) :: rat) \<le> of_int n"
      and "of_int n < (of_int (2 ^ Suc (nat_log2 (nat n))) :: rat)"
      by (simp_all only: of_int_le_iff of_int_less_iff)
    then show ?thesis
      by (simp add: pow2_nat nat_add_distrib)
  qed
  have pa: "pow2 a \<le> of_int p" "of_int p < pow2 (a + 1)" and qb: "pow2 b \<le> of_int q" "of_int q < pow2 (b + 1)"
    using bounds [OF p] bounds [OF q] by (simp_all add: a_def b_def)
  have up: "x < pow2 (a - b + 1)"
  proof -
    have "of_int p < pow2 (a - b + 1) * pow2 b"
      using pa(2) by (simp flip: pow2_add)
    also have "\<dots> \<le> pow2 (a - b + 1) * of_int q"
      using qb(1) by (simp add: less_imp_le)
    finally show ?thesis
      using q by (simp add: x pos_divide_less_eq)
  qed
  have low: "pow2 (a - b - 1) \<le> x"
  proof -
    have "pow2 (a - b - 1) * of_int q \<le> pow2 (a - b - 1) * pow2 (b + 1)"
      using qb(2) by (simp add: less_imp_le)
    also have "\<dots> = pow2 a"
      by (simp flip: pow2_add)
    finally show ?thesis
      using q pa(1) by (simp add: x pos_le_divide_eq)
  qed
  have "ilog2 x = (if pow2 (a - b) \<le> x then a - b else a - b - 1)"
    by (simp add: ilog2_def pq a_def b_def)
  then show "pow2 (ilog2 x) \<le> x" and "x < pow2 (ilog2 x + 1)"
    using up low by (auto split: if_splits)
qed

lemma ilog2_eq:
  assumes "pow2 k \<le> x" "x < pow2 (k + 1)"
  shows "ilog2 x = k"
proof -
  have "0 < x"
    using assms(1) pow2_pos [of k] by linarith
  then have "pow2 k < pow2 (ilog2 x + 1)" and "pow2 (ilog2 x) < pow2 (k + 1)"
    using assms ilog2_bounds [of x] by linarith+
  then show ?thesis by (simp add: pow2_less_iff)
qed

lemma ilog2_mono: "0 < x \<Longrightarrow> x \<le> y \<Longrightarrow> ilog2 x \<le> ilog2 y"
  using ilog2_bounds [of x] ilog2_bounds [of y] pow2_less_iff [of "ilog2 x" "ilog2 y + 1"]
  by linarith

lemma round_half_even_of_int [simp]: "round_half_even (of_int n) = n"
  by (simp add: round_half_even_def)

lemma round_half_even_near: "\<lfloor>x\<rfloor> \<le> round_half_even x" "round_half_even x \<le> \<lfloor>x\<rfloor> + 1"
  by (simp_all add: round_half_even_def Let_def)

lemma round_half_even_mono: "x \<le> y \<Longrightarrow> round_half_even x \<le> round_half_even y"
proof (cases "\<lfloor>x\<rfloor> = \<lfloor>y\<rfloor>")
  case True
  assume "x \<le> y"
  with True show ?thesis by (auto simp: round_half_even_def Let_def)
next
  case False
  assume "x \<le> y"
  then have "\<lfloor>x\<rfloor> + 1 \<le> \<lfloor>y\<rfloor>"
    using False floor_mono [of x y] by linarith
  then show ?thesis
    using round_half_even_near [of x] round_half_even_near [of y] by linarith
qed

text \<open>A power of two that is a multiple of the last place bounds the rounded value.\<close>

lemma round_pos_at_most:
  assumes "0 < x" "x \<le> pow2 e" "ulp_exp x \<le> e"
  shows "round_pos x \<le> pow2 e"
proof -
  define u where "u = pow2 (ulp_exp x)"
  have u: "0 < u" by (simp add: u_def)
  have e: "pow2 e = of_int (2 ^ nat (e - ulp_exp x)) * u"
    using assms(3) pow2_add [of "e - ulp_exp x" "ulp_exp x"] by (simp add: u_def pow2_nat)
  with assms(2) u have "x / u \<le> of_int (2 ^ nat (e - ulp_exp x))"
    by (simp add: pos_divide_le_eq)
  then have "round_half_even (x / u) \<le> 2 ^ nat (e - ulp_exp x)"
    using round_half_even_mono round_half_even_of_int by metis
  then have "of_int (round_half_even (x / u)) * u \<le> of_int (2 ^ nat (e - ulp_exp x)) * u"
    using u by (intro mult_right_mono) (simp_all only: of_int_le_iff less_imp_le)
  then show ?thesis
    using e by (simp add: round_pos_def u_def Let_def)
qed

lemma round_pos_at_least:
  assumes "pow2 e \<le> x" "ulp_exp x \<le> e"
  shows "pow2 e \<le> round_pos x"
proof -
  define u where "u = pow2 (ulp_exp x)"
  have u: "0 < u" by (simp add: u_def)
  have e: "pow2 e = of_int (2 ^ nat (e - ulp_exp x)) * u"
    using assms(2) pow2_add [of "e - ulp_exp x" "ulp_exp x"] by (simp add: u_def pow2_nat)
  with assms(1) u have "of_int (2 ^ nat (e - ulp_exp x)) \<le> x / u"
    by (simp add: pos_le_divide_eq)
  then have "2 ^ nat (e - ulp_exp x) \<le> round_half_even (x / u)"
    using round_half_even_mono round_half_even_of_int by metis
  then have "of_int (2 ^ nat (e - ulp_exp x)) * u \<le> of_int (round_half_even (x / u)) * u"
    using u by (intro mult_right_mono) (simp_all only: of_int_le_iff less_imp_le)
  then show ?thesis
    using e by (simp add: round_pos_def u_def Let_def)
qed

lemma round_pos_mono:
  assumes "0 < x" "x \<le> y"
  shows "round_pos x \<le> round_pos y"
proof (cases "ulp_exp x = ulp_exp y")
  case True
  have "round_half_even (x / pow2 (ulp_exp y)) \<le> round_half_even (y / pow2 (ulp_exp y))"
    using assms(2) by (intro round_half_even_mono divide_right_mono) (simp_all add: less_imp_le)
  then show ?thesis
    using True by (simp add: round_pos_def Let_def mult_right_mono less_imp_le)
next
  case False
  have "ilog2 x \<le> ilog2 y"
    using assms by (rule ilog2_mono)
  with False have e: "ilog2 x + 1 \<le> ilog2 y" and u: "ulp_exp x \<le> ilog2 y" "ulp_exp y \<le> ilog2 y"
    by (auto simp: ulp_exp_def max_def split: if_splits)
  have "x < pow2 (ilog2 x + 1)"
    using assms ilog2_bounds by blast
  also have "\<dots> \<le> pow2 (ilog2 y)"
    using e by (rule pow2_mono)
  finally have "round_pos x \<le> pow2 (ilog2 y)"
    using assms u by (intro round_pos_at_most) simp_all
  also have "\<dots> \<le> round_pos y"
    using assms u ilog2_bounds [of y] by (intro round_pos_at_least) simp_all
  finally show ?thesis .
qed

lemma round_pos_nonneg:
  assumes "0 < x"
  shows "0 \<le> round_pos x"
proof -
  have "0 \<le> x / pow2 (ulp_exp x)"
    using assms by (simp add: less_imp_le)
  then have "0 \<le> \<lfloor>x / pow2 (ulp_exp x)\<rfloor>"
    by (simp only: zero_le_floor)
  then have "0 \<le> round_half_even (x / pow2 (ulp_exp x))"
    using round_half_even_near(1) order_trans by blast
  then show ?thesis
    by (simp add: round_pos_def Let_def less_imp_le)
qed

lemma round_rat_nonneg: "0 \<le> x \<Longrightarrow> 0 \<le> round_rat x"
  using round_pos_nonneg [of x] by (auto simp: round_rat_def)

lemma round_rat_mono_pos: "0 \<le> x \<Longrightarrow> x \<le> y \<Longrightarrow> round_rat x \<le> round_rat y"
  using round_pos_mono [of x y] round_pos_nonneg [of y] by (auto simp: round_rat_def)

lemma round_rat_simps [simp]: "round_rat 0 = 0" "round_rat 1 = 1" "round_rat 100 = 100"
  by (simp add: round_rat_def, code_simp, code_simp)

lemma dbl_in_range:
  assumes "0 \<le> x" "x \<le> 18446744073709551616"
  shows "dbl x = Fin (round_rat x)"
proof (cases "round_rat x = 0")
  case False
  have "x \<noteq> 0"
    using False by (auto simp: round_rat_def)
  then have x: "0 < x" "x \<le> pow2 64"
    using assms by (simp_all add: pow2_def)
  have small: "ilog2 y < 65" if "0 < y" "y \<le> pow2 64" for y
  proof -
    have "pow2 (ilog2 y) \<le> pow2 64"
      using that ilog2_bounds(1) order_trans by blast
    also have "\<dots> < pow2 65"
      by (simp add: pow2_less_iff)
    finally show ?thesis by (simp only: pow2_less_iff)
  qed
  have "round_rat x \<le> pow2 64"
    using x small [OF x] round_pos_at_most [of x 64] by (simp add: round_rat_def ulp_exp_def)
  moreover have "0 < round_rat x"
    using False round_rat_nonneg [OF assms(1)] by linarith
  ultimately show ?thesis
    using small [of "round_rat x"] by (simp add: dbl_def)
qed (simp add: dbl_def)

lemma double_of_u64_Fin: "double_of_u64 w = Fin (round_rat (of_nat (unat w)))"
proof -
  have "(of_nat (unat w) :: rat) \<le> of_nat u64_max"
    using unat_u64_le [of w] by (simp only: of_nat_le_iff)
  then have "(of_nat (unat w) :: rat) \<le> 18446744073709551616"
    by (rule order_trans) simp
  then show ?thesis
    unfolding double_of_u64_def by (intro dbl_in_range) (simp_all only: of_nat_0_le_iff)
qed

text \<open>The ratio of two counters as a percentage stays between 0 and 100 after rounding.\<close>

lemma percentage_bounds:
  fixes part total :: u64
  assumes "part \<le> total" "total \<noteq> 0"
  shows "\<exists>p. dmul (ddiv (double_of_u64 part) (double_of_u64 total)) (Fin 100) = Fin p \<and> 0 \<le> p \<and> p \<le> 100"
proof -
  define a b :: rat where "a = round_rat (of_nat (unat part))" and "b = round_rat (of_nat (unat total))"
  have "unat part \<le> unat total" and "1 \<le> unat total"
    using assms unat_gt_0 [of total] by (simp_all add: word_le_nat_alt Suc_le_eq)
  then have "(of_nat (unat part) :: rat) \<le> of_nat (unat total)" and "(of_nat 1 :: rat) \<le> of_nat (unat total)"
    by (simp_all only: of_nat_le_iff)
  then have ab: "a \<le> b" and one: "round_rat (of_nat 1) \<le> b"
    unfolding a_def b_def by (simp_all only: round_rat_mono_pos of_nat_0_le_iff)
  moreover have "0 \<le> a"
    unfolding a_def by (rule round_rat_nonneg) (rule of_nat_0_le_iff)
  ultimately have ab: "0 \<le> a" "a \<le> b" and "round_rat 1 \<le> b"
    by simp_all
  then have b: "0 < b" by simp
  have q: "0 \<le> a / b" "a / b \<le> 1"
    using ab b by simp_all
  define c where "c = round_rat (a / b)"
  have c: "0 \<le> c" "c \<le> 1"
    using q round_rat_mono_pos [of "a / b" 1] round_rat_nonneg [of "a / b"] by (simp_all add: c_def)
  have r: "0 \<le> round_rat (c * 100)" "round_rat (c * 100) \<le> 100"
    using c round_rat_mono_pos [of "c * 100" 100] round_rat_nonneg [of "c * 100"] by simp_all
  have "ddiv (double_of_u64 part) (double_of_u64 total) = Fin c"
  proof -
    have "double_of_u64 part = Fin a" and "double_of_u64 total = Fin b"
      unfolding a_def b_def by (rule double_of_u64_Fin)+
    moreover have "dbl (a / b) = Fin c"
      unfolding c_def using q by (intro dbl_in_range) linarith+
    ultimately show ?thesis
      using b by simp
  qed
  moreover have "dmul (Fin c) (Fin 100) = Fin (round_rat (c * 100))"
    using c by (simp add: dbl_in_range)
  ultimately show ?thesis using r by auto
qed

section \<open>Signs\<close>

text \<open>A value that is neither negative nor \<open>NaN\<close>.\<close>

definition dnonneg :: "double \<Rightarrow> bool" where
  "dnonneg d \<longleftrightarrow> (case d of Fin x \<Rightarrow> 0 \<le> x | PosInf \<Rightarrow> True | _ \<Rightarrow> False)"

lemma dnonneg_simps [simp]:
  "dnonneg (Fin x) \<longleftrightarrow> 0 \<le> x" "dnonneg PosInf" "\<not> dnonneg NegInf" "\<not> dnonneg NaN"
  by (simp_all add: dnonneg_def)

lemma dbl_nonneg: "0 \<le> x \<Longrightarrow> dnonneg (dbl x)"
  using round_rat_nonneg [of x] by (simp add: dbl_def Let_def)

lemma dmul_nonneg: "dnonneg a \<Longrightarrow> 0 < b \<Longrightarrow> dnonneg (dmul a (Fin b))"
  by (cases a) (simp_all add: dbl_nonneg signed_inf_def)

lemma ddiv_Fin_nonneg: "0 \<le> a \<Longrightarrow> \<not> dle b (Fin 0) \<Longrightarrow> b \<noteq> NaN \<Longrightarrow> dnonneg (ddiv (Fin a) b)"
  by (cases b) (simp_all add: dle_def dbl_nonneg)

lemma dbl_not_NaN [simp]: "dbl x \<noteq> NaN"
  by (simp add: dbl_def Let_def)

lemma double_of_u64_range:
  "\<exists>a. double_of_u64 w = Fin a \<and> 0 \<le> a \<and> a \<le> 18446744073709551616"
proof -
  have "(of_nat (unat w) :: rat) \<le> of_nat u64_max"
    using unat_u64_le [of w] by (simp only: of_nat_le_iff)
  then have "(of_nat (unat w) :: rat) \<le> 18446744073709551616"
    by (rule order_trans) simp
  then have "round_rat (of_nat (unat w)) \<le> round_rat 18446744073709551616"
    by (rule round_rat_mono_pos [OF of_nat_0_le_iff])
  also have "round_rat 18446744073709551616 \<le> pow2 64"
  proof -
    have "ilog2 18446744073709551616 < 65"
    proof -
      have "pow2 (ilog2 18446744073709551616) \<le> 18446744073709551616"
        by (rule ilog2_bounds) simp
      also have "\<dots> < pow2 65"
        by (simp add: pow2_def)
      finally show ?thesis by (simp only: pow2_less_iff)
    qed
    then show ?thesis
      using round_pos_at_most [of 18446744073709551616 64]
      by (simp add: round_rat_def ulp_exp_def) (simp add: pow2_def)
  qed
  finally have "round_rat (of_nat (unat w)) \<le> 18446744073709551616"
    by (simp add: pow2_def)
  moreover have "0 \<le> round_rat (of_nat (unat w))"
    by (rule round_rat_nonneg [OF of_nat_0_le_iff])
  ultimately show ?thesis
    unfolding double_of_u64_Fin by blast
qed

lemma ddiv_u64_by_positive:
  assumes "1 \<le> b"
  shows "\<exists>c. ddiv (double_of_u64 w) (Fin b) = Fin c \<and> 0 \<le> c"
proof -
  obtain a where a: "double_of_u64 w = Fin a" "0 \<le> a" "a \<le> 18446744073709551616"
    using double_of_u64_range by blast
  have "a / b \<le> a / 1"
    using a assms by (intro divide_left_mono) simp_all
  then have "a / b \<le> 18446744073709551616" and "0 \<le> a / b"
    using a assms by simp_all
  then have "dbl (a / b) = Fin (round_rat (a / b))" and "0 \<le> round_rat (a / b)"
    by (simp_all only: dbl_in_range round_rat_nonneg)
  then show ?thesis
    using a assms by simp
qed

lemma dbl_positive_int:
  assumes "0 < n"
  shows "dbl (of_int n) = PosInf \<or> (\<exists>b. dbl (of_int n) = Fin b \<and> 1 \<le> b)"
proof -
  have "(of_int 1 :: rat) \<le> of_int n"
    using assms by (simp only: of_int_le_iff)
  then have "round_rat 1 \<le> round_rat (of_int n)"
    by (intro round_rat_mono_pos) simp_all
  then show ?thesis
    by (simp add: dbl_def Let_def)
qed

text \<open>The greatest 64-bit counter is rounded up to \<open>2^64\<close>.\<close>

lemma double_of_u64_max: "double_of_u64 (- 1) = Fin 18446744073709551616"
proof -
  have e: "ilog2 18446744073709551615 = 63"
    by (rule ilog2_eq) (simp_all add: pow2_def)
  have f: "\<lfloor>(18446744073709551615 :: rat) / 2048\<rfloor> = 9007199254740991"
    by (simp add: floor_eq_iff)
  have "round_half_even (18446744073709551615 / 2048) = 9007199254740992"
    unfolding round_half_even_def f by (simp add: Let_def)
  then have "round_rat 18446744073709551615 = 18446744073709551616"
    by (simp add: round_rat_def round_pos_def ulp_exp_def e pow2_def)
  moreover have "unat (- 1 :: u64) = 18446744073709551615"
    by (simp add: unsigned_minus_1_eq_mask mask_eq_exp_minus_1)
  ultimately show ?thesis
    by (simp only: double_of_u64_Fin of_nat_numeral)
qed

end
