(* ===== verification/Process_Collector.thy ===== *)
theory Process_Collector
  imports Cpp_Double
begin

text \<open>
  \<open>agent/src/ProcessCollector.cpp\<close>: the parsers of \<open>/proc/[pid]/stat\<close>, \<open>status\<close> and
  \<open>io\<close>, the details of one process and the list of all processes.  The files of \<open>/proc\<close> are a
  \<open>file_reader\<close>: what reading each path gives, an error number or the contents.  A process can
  vanish while the list is built, so the list takes one reader per directory entry, the state of
  \<open>/proc\<close> at the moment that entry is looked at.
\<close>

section \<open>Data\<close>

record process_info =
  p_pid :: i32
  p_ppid :: i32
  p_name :: string
  p_state :: string
  p_command_line :: string
  p_cpu_usage_percent :: double
  p_resident_memory_bytes :: u64
  p_virtual_memory_bytes :: u64
  p_thread_count :: u32
  p_read_bytes :: u64
  p_write_bytes :: u64
  p_start_time_ticks :: u64

definition empty_process_info :: process_info where
  "empty_process_info =
     \<lparr> p_pid = 0, p_ppid = 0, p_name = [], p_state = [], p_command_line = [],
       p_cpu_usage_percent = Fin 0, p_resident_memory_bytes = 0, p_virtual_memory_bytes = 0,
       p_thread_count = 0, p_read_bytes = 0, p_write_bytes = 0, p_start_time_ticks = 0 \<rparr>"

datatype process_collector_error =
    PcNone | PcInvalidArgument | PcNotFound | PcPermissionDenied | PcParseError | PcIoError

section \<open>Helpers\<close>

definition is_numeric :: "string \<Rightarrow> bool" where
  "is_numeric value \<longleftrightarrow> value \<noteq> [] \<and> list_all isdigit value"

definition error_from_errno :: "errno \<Rightarrow> process_collector_error" where
  "error_from_errno error_number =
     (if error_number = ENOENT \<or> error_number = ESRCH then PcNotFound
      else if error_number = EACCES \<or> error_number = EPERM then PcPermissionDenied
      else PcIoError)"

definition parse_kilobyte_field :: "string \<Rightarrow> string \<Rightarrow> u64 option" where
  "parse_kilobyte_field line expected_key =
     do {
       (key, rest) \<leftarrow> read_token line;
       (value, rest) \<leftarrow> read_u64 rest;
       (unit_text, rest) \<leftarrow> read_token rest;
       if key \<noteq> expected_key \<or> unit_text \<noteq> ''kB'' \<or> unat value > u64_max div 1024 then None
       else Some (value * 1024)
     }"

definition read_command_line :: "errno + string \<Rightarrow> string \<Rightarrow> string" where
  "read_command_line file process_name =
     (case file of
        Inl _ \<Rightarrow> ''['' @ process_name @ '']''
      | Inr contents \<Rightarrow>
          (let spaced = map (\<lambda>c. if c = CHR 0x00 then CHR '' '' else c) contents;
               command_line = rev (dropWhile (\<lambda>c. c = CHR '' '') (rev spaced))
           in if contents = [] \<or> command_line = [] then ''['' @ process_name @ '']''
              else command_line))"

text \<open>\<open>uptime_file\<close> is what reading \<open>/proc/uptime\<close> gives, \<open>ticks_per_second\<close> is
  \<open>sysconf(_SC_CLK_TCK)\<close>.\<close>

definition calculate_cpu_usage :: "errno + string \<Rightarrow> int \<Rightarrow> u64 \<Rightarrow> u64 \<Rightarrow> double" where
  "calculate_cpu_usage uptime_file ticks_per_second process_cpu_ticks start_time_ticks =
     (case uptime_file of
        Inl _ \<Rightarrow> Fin 0
      | Inr contents \<Rightarrow>
          (case read_double contents of
             None \<Rightarrow> Fin 0
           | Some (uptime_seconds, _) \<Rightarrow>
               if \<not> isfinite uptime_seconds \<or> dle uptime_seconds (Fin 0) then Fin 0
               else if ticks_per_second \<le> 0 then Fin 0
               else
                 (let ticks = dbl (of_int ticks_per_second);
                      process_seconds = ddiv (double_of_u64 process_cpu_ticks) ticks;
                      start_seconds = ddiv (double_of_u64 start_time_ticks) ticks;
                      elapsed_seconds = dsub uptime_seconds start_seconds
                  in if dle elapsed_seconds (Fin 0) then Fin 0
                     else dmul (ddiv process_seconds elapsed_seconds) (Fin 100))))"

section \<open>The \<open>stat\<close> line\<close>

text \<open>Fields 3 to 22, after the closing parenthesis of the name.\<close>

definition parse_stat_fields :: "string \<Rightarrow> process_info \<Rightarrow> string + (process_info \<times> u64)" where
  "parse_stat_fields stat_rest process =
     (case do { (state, f) \<leftarrow> read_char stat_rest; (parsed_ppid, f) \<leftarrow> read_i64 f;
                Some (state, parsed_ppid, f) } of
        None \<Rightarrow> Inl ''invalid state or ppid in /proc/[pid]/stat''
      | Some (state, parsed_ppid, f) \<Rightarrow>
        if parsed_ppid < 0 \<or> parsed_ppid > int i32_max
        then Inl ''invalid state or ppid in /proc/[pid]/stat''
        else
     (case skip_fields read_u64 9 f of
        None \<Rightarrow> Inl ''missing fields in /proc/[pid]/stat''
      | Some f \<Rightarrow>
     (case do { (user_ticks, f) \<leftarrow> read_u64 f; (system_ticks, f) \<leftarrow> read_u64 f;
                Some (user_ticks, system_ticks, f) } of
        None \<Rightarrow> Inl ''invalid cpu fields in /proc/[pid]/stat''
      | Some (user_ticks, system_ticks, f) \<Rightarrow>
        if unat user_ticks > u64_max - unat system_ticks
        then Inl ''cpu fields overflow in /proc/[pid]/stat''
        else
     (case skip_fields read_i64 4 f of
        None \<Rightarrow> Inl ''missing scheduler fields in /proc/[pid]/stat''
      | Some f \<Rightarrow>
     (case do { (parsed_threads, f) \<leftarrow> read_u64 f; (interval_timer, f) \<leftarrow> read_i64 f;
                (start_time_ticks, f) \<leftarrow> read_u64 f; Some (parsed_threads, start_time_ticks) } of
        None \<Rightarrow> Inl ''invalid thread or start fields in /proc/[pid]/stat''
      | Some (parsed_threads, start_time_ticks) \<Rightarrow>
        if unat parsed_threads > u32_max
        then Inl ''invalid thread or start fields in /proc/[pid]/stat''
        else Inr (process \<lparr> p_state := [state], p_ppid := word_of_int parsed_ppid,
                            p_start_time_ticks := start_time_ticks,
                            p_thread_count := ucast parsed_threads \<rparr>,
                  user_ticks + system_ticks))))))"

definition parse_stat_line :: "string \<Rightarrow> process_info \<Rightarrow> string + (process_info \<times> u64)" where
  "parse_stat_line line process =
     (case (find_char CHR ''('' line, rfind_char CHR '')'' line) of
        (Some open_parenthesis, Some close_parenthesis) \<Rightarrow>
          if close_parenthesis \<le> open_parenthesis \<or> close_parenthesis + 2 > length line
          then Inl ''invalid /proc/[pid]/stat process name''
          else
            (case read_i64 (take open_parenthesis line) of
               None \<Rightarrow> Inl ''invalid pid in /proc/[pid]/stat''
             | Some (parsed_pid, _) \<Rightarrow>
                 if parsed_pid \<le> 0 \<or> parsed_pid > int i32_max
                 then Inl ''invalid pid in /proc/[pid]/stat''
                 else parse_stat_fields (drop (close_parenthesis + 1) line)
                        (process \<lparr> p_pid := word_of_int parsed_pid,
                                   p_name := substr line (open_parenthesis + 1)
                                     (close_parenthesis - open_parenthesis - 1) \<rparr>))
      | _ \<Rightarrow> Inl ''invalid /proc/[pid]/stat process name'')"

section \<open>The \<open>status\<close> file\<close>

definition parse_threads_field :: "string \<Rightarrow> u32 option" where
  "parse_threads_field line =
     do {
       (key, rest) \<leftarrow> read_token line;
       (threads, rest) \<leftarrow> read_u64 rest;
       if key \<noteq> ''Threads:'' \<or> unat threads > u32_max then None else Some (ucast threads)
     }"

fun parse_status_lines ::
  "string list \<Rightarrow> bool \<Rightarrow> bool \<Rightarrow> process_info \<Rightarrow> string + (bool \<times> bool \<times> process_info)" where
  "parse_status_lines [] found_rss found_virtual_memory process =
     Inr (found_rss, found_virtual_memory, process)"
| "parse_status_lines (line # rest) found_rss found_virtual_memory process =
     (if prefix ''VmRSS:'' line then
        (case parse_kilobyte_field line ''VmRSS:'' of
           None \<Rightarrow> Inl ''invalid VmRSS in /proc/[pid]/status''
         | Some bytes \<Rightarrow>
             parse_status_lines rest True found_virtual_memory
               (process \<lparr> p_resident_memory_bytes := bytes \<rparr>))
      else if prefix ''VmSize:'' line then
        (case parse_kilobyte_field line ''VmSize:'' of
           None \<Rightarrow> Inl ''invalid VmSize in /proc/[pid]/status''
         | Some bytes \<Rightarrow>
             parse_status_lines rest found_rss True
               (process \<lparr> p_virtual_memory_bytes := bytes \<rparr>))
      else if prefix ''Threads:'' line then
        (case parse_threads_field line of
           None \<Rightarrow> Inl ''invalid Threads in /proc/[pid]/status''
         | Some threads \<Rightarrow>
             parse_status_lines rest found_rss found_virtual_memory
               (process \<lparr> p_thread_count := threads \<rparr>))
      else parse_status_lines rest found_rss found_virtual_memory process)"

definition parse_status :: "string \<Rightarrow> process_info \<Rightarrow> string + process_info" where
  "parse_status contents process =
     (case parse_status_lines (getlines CHR 0x0A contents) False False process of
        Inl e \<Rightarrow> Inl e
      | Inr (found_rss, found_virtual_memory, process) \<Rightarrow>
          (let process = (if found_rss then process
                          else process \<lparr> p_resident_memory_bytes := 0 \<rparr>)
           in Inr (if found_virtual_memory then process
                   else process \<lparr> p_virtual_memory_bytes := 0 \<rparr>)))"

section \<open>The \<open>io\<close> file\<close>

definition read_key_value :: "string \<Rightarrow> ((string \<times> u64) \<times> string) option" where
  "read_key_value s =
     do { (key, r) \<leftarrow> read_token s; (value, r) \<leftarrow> read_u64 r; Some ((key, value), r) }"

definition apply_io_field :: "process_info \<Rightarrow> string \<times> u64 \<Rightarrow> process_info" where
  "apply_io_field process field =
     (if fst field = ''read_bytes:'' then process \<lparr> p_read_bytes := snd field \<rparr>
      else if fst field = ''write_bytes:'' then process \<lparr> p_write_bytes := snd field \<rparr>
      else process)"

text \<open>A string stream is never \<open>bad()\<close>, so \<open>ParseIo\<close> always returns \<open>true\<close>.\<close>

definition parse_io :: "string \<Rightarrow> process_info \<Rightarrow> process_info" where
  "parse_io contents process = foldl apply_io_field process (read_loop read_key_value contents)"

section \<open>One process and all processes\<close>

definition process_file :: "i32 \<Rightarrow> string \<Rightarrow> path" where
  "process_file pid file = ''/proc/'' @ show_int (sint pid) @ ''/'' @ file"

definition get_process ::
  "file_reader \<Rightarrow> int \<Rightarrow> i32 \<Rightarrow> (process_collector_error \<times> string) + process_info" where
  "get_process read_file ticks_per_second pid =
     (if sint pid \<le> 0 then Inl (PcInvalidArgument, ''pid must be positive'')
      else
     (case read_file (process_file pid ''stat'') of
        Inl saved_errno \<Rightarrow>
          Inl (error_from_errno saved_errno,
               ''failed to read process stat for pid '' @ show_int (sint pid))
      | Inr stat_contents \<Rightarrow>
     (case parse_stat_line stat_contents empty_process_info of
        Inl error \<Rightarrow> Inl (PcParseError, error)
      | Inr (process, process_cpu_ticks) \<Rightarrow>
     (case read_file (process_file pid ''status'') of
        Inl saved_errno \<Rightarrow>
          Inl (error_from_errno saved_errno,
               ''failed to read process status for pid '' @ show_int (sint pid))
      | Inr status_contents \<Rightarrow>
     (case parse_status status_contents process of
        Inl error \<Rightarrow> Inl (PcParseError, error)
      | Inr process \<Rightarrow>
          (let process = process \<lparr> p_command_line :=
                 read_command_line (read_file (process_file pid ''cmdline'')) (p_name process) \<rparr>;
               process = (case read_file (process_file pid ''io'') of
                            Inl _ \<Rightarrow> process
                          | Inr io_contents \<Rightarrow> parse_io io_contents process)
           in Inr (process \<lparr> p_cpu_usage_percent :=
                 calculate_cpu_usage (read_file ''/proc/uptime'') ticks_per_second
                   process_cpu_ticks (p_start_time_ticks process) \<rparr>)))))))"

text \<open>The body of the directory loop: what one entry adds to the list.\<close>

definition list_entry :: "int \<Rightarrow> string \<times> file_reader \<Rightarrow> process_info list" where
  "list_entry ticks_per_second entry =
     (if \<not> is_numeric (fst entry) then []
      else (case stoll (fst entry) of
              None \<Rightarrow> []
            | Some (parsed_pid, _) \<Rightarrow>
                if 0 < parsed_pid \<and> parsed_pid \<le> int i32_max then
                  (case get_process (snd entry) ticks_per_second (word_of_int parsed_pid) of
                     Inl _ \<Rightarrow> []
                   | Inr process \<Rightarrow> [process])
                else []))"

text \<open>
  \<open>std::sort\<close> by pid.  The standard leaves the order of elements with equal pids open; the model
  keeps it, and no property below depends on it.
\<close>

definition list_processes ::
  "string + (string \<times> file_reader) list \<Rightarrow> int \<Rightarrow> string + process_info list" where
  "list_processes directory ticks_per_second =
     (case directory of
        Inl message \<Rightarrow> Inl (''failed to scan /proc: '' @ message)
      | Inr entries \<Rightarrow>
          Inr (sort_key (\<lambda>p. sint (p_pid p)) (concat (map (list_entry ticks_per_second) entries))))"

section \<open>The invariant of a process description\<close>

definition process_ok :: "process_info \<Rightarrow> bool" where
  "process_ok p \<longleftrightarrow>
     0 < sint (p_pid p) \<and> 0 \<le> sint (p_ppid p) \<and> length (p_state p) = 1 \<and>
     p_command_line p \<noteq> [] \<and> dnonneg (p_cpu_usage_percent p)"

lemma sint_of_int_i32: "0 \<le> i \<Longrightarrow> i \<le> int i32_max \<Longrightarrow> sint (word_of_int i :: i32) = i"
  by (simp add: sint_sbintrunc' signed_take_bit_int_eq_self)

lemma parse_stat_fields_ok:
  assumes "parse_stat_fields s p = Inr (q, t)"
  shows "p_pid q = p_pid p \<and> p_name q = p_name p \<and> 0 \<le> sint (p_ppid q) \<and> length (p_state q) = 1"
  using assms
  by (auto simp: parse_stat_fields_def sint_of_int_i32 not_less split: option.splits if_splits)

lemma parse_stat_line_ok:
  "parse_stat_line line p = Inr (q, t) \<Longrightarrow>
   0 < sint (p_pid q) \<and> 0 \<le> sint (p_ppid q) \<and> length (p_state q) = 1"
  by (auto simp: parse_stat_line_def sint_of_int_i32 not_less not_le split: option.splits if_splits
      dest!: parse_stat_fields_ok)

lemma parse_status_lines_keeps:
  "parse_status_lines ls r v p = Inr (r', v', q) \<Longrightarrow>
   p_pid q = p_pid p \<and> p_ppid q = p_ppid p \<and> p_state q = p_state p"
  by (induction ls r v p rule: parse_status_lines.induct) (auto split: if_splits option.splits)

lemma parse_status_keeps:
  "parse_status c p = Inr q \<Longrightarrow> p_pid q = p_pid p \<and> p_ppid q = p_ppid p \<and> p_state q = p_state p"
  by (auto simp: parse_status_def Let_def dest!: parse_status_lines_keeps split: sum.splits prod.splits)

lemma parse_io_keeps:
  "p_pid (parse_io c p) = p_pid p \<and> p_ppid (parse_io c p) = p_ppid p \<and>
   p_state (parse_io c p) = p_state p \<and> p_command_line (parse_io c p) = p_command_line p"
proof -
  have "p_pid (foldl apply_io_field p fs) = p_pid p \<and> p_ppid (foldl apply_io_field p fs) = p_ppid p \<and>
    p_state (foldl apply_io_field p fs) = p_state p \<and>
    p_command_line (foldl apply_io_field p fs) = p_command_line p" for fs
    by (induction fs arbitrary: p) (auto simp: apply_io_field_def)
  then show ?thesis by (simp add: parse_io_def)
qed

lemma read_command_line_nonempty: "read_command_line file process_name \<noteq> []"
  by (simp add: read_command_line_def Let_def split: sum.split)

lemma ticks_to_seconds:
  assumes "0 < hz"
  shows "\<exists>a. ddiv (double_of_u64 ticks) (dbl (of_int hz)) = Fin a \<and> 0 \<le> a"
proof -
  obtain c where c: "double_of_u64 ticks = Fin c"
    using double_of_u64_range by blast
  consider "dbl (of_int hz) = PosInf" | b where "dbl (of_int hz) = Fin b" "1 \<le> b"
    using dbl_positive_int [OF assms] by blast
  then show ?thesis
    by cases (use c ddiv_u64_by_positive in \<open>simp, metis\<close>)
qed

lemma calculate_cpu_usage_nonneg: "dnonneg (calculate_cpu_usage uptime_file hz cpu_ticks start_ticks)"
proof (cases "\<exists>contents uptime r. uptime_file = Inr contents \<and> read_double contents = Some (Fin uptime, r)
    \<and> \<not> hz \<le> 0")
  case False
  then show ?thesis
    by (auto simp: calculate_cpu_usage_def Let_def isfinite_def split: sum.splits option.splits double.splits)
next
  case True
  then obtain contents uptime r
    where u: "uptime_file = Inr contents" "read_double contents = Some (Fin uptime, r)" "0 < hz"
    by auto
  define e where "e = dsub (Fin uptime) (ddiv (double_of_u64 start_ticks) (dbl (of_int hz)))"
  obtain a where a: "ddiv (double_of_u64 cpu_ticks) (dbl (of_int hz)) = Fin a" "0 \<le> a"
    using ticks_to_seconds [OF u(3)] by blast
  obtain b where "ddiv (double_of_u64 start_ticks) (dbl (of_int hz)) = Fin b"
    using ticks_to_seconds [OF u(3)] by blast
  then have "e \<noteq> NaN"
    by (simp add: e_def)
  then have "dnonneg (dmul (ddiv (Fin a) e) (Fin 100))" if "\<not> dle e (Fin 0)"
    using a that by (intro dmul_nonneg ddiv_Fin_nonneg) simp_all
  then show ?thesis
    using u a by (simp add: calculate_cpu_usage_def Let_def e_def)
qed

lemma get_process_wf:
  assumes "get_process read_file hz pid = Inr process"
  shows "process_ok process"
proof -
  from assms obtain q t q' where
    "parse_stat_line (projr (read_file (process_file pid ''stat''))) empty_process_info = Inr (q, t)"
    "parse_status (projr (read_file (process_file pid ''status''))) q = Inr q'"
    and process: "\<exists>cl cpu f. process = f \<lparr> p_cpu_usage_percent := cpu \<rparr> \<and> dnonneg cpu \<and> cl \<noteq> [] \<and>
      (f = q' \<lparr> p_command_line := cl \<rparr> \<or> (\<exists>c. f = parse_io c (q' \<lparr> p_command_line := cl \<rparr>)))"
    using read_command_line_nonempty calculate_cpu_usage_nonneg
    by (auto simp: get_process_def Let_def split: if_splits sum.splits) blast+
  then have "0 < sint (p_pid q') \<and> 0 \<le> sint (p_ppid q') \<and> length (p_state q') = 1"
    using parse_stat_line_ok parse_status_keeps by metis
  with process show ?thesis
    by (auto simp: process_ok_def parse_io_keeps)
qed

text \<open>
  C26.  A process that the collector returns is well formed, whatever the files of \<open>/proc\<close>
  held: its pid is positive, its parent's pid is not negative (both fit an \<open>int32_t\<close>, no value
  is changed by the narrowing), the state is one character, the command line is not empty and the
  CPU usage is neither negative nor \<open>NaN\<close>.
\<close>

theorem get_process_ok:
  assumes "get_process read_file hz pid = Inr process"
  shows "process_ok process"
  using assms by (rule get_process_wf)

theorem get_process_ok_witness:
  "\<exists>p. get_process (\<lambda>f. if f = ''/proc/7/stat''
             then Inr ''7 (a b) S 1 7 7 0 -1 4194560 5 0 0 0 3 4 0 0 20 0 1 0 99 1''
             else if f = ''/proc/7/status'' then Inr ''Threads: 1'' else Inl EACCES) 100 7 = Inr p \<and>
     process_ok p"
proof -
  let ?files = "\<lambda>f. if f = ''/proc/7/stat''
             then Inr ''7 (a b) S 1 7 7 0 -1 4194560 5 0 0 0 3 4 0 0 20 0 1 0 99 1''
             else if f = ''/proc/7/status'' then Inr ''Threads: 1'' else Inl EACCES"
  have "is_ok (get_process ?files 100 7)"
    by code_simp
  then obtain p where "get_process ?files 100 7 = Inr p"
    by (auto simp: is_ok_iff)
  with get_process_ok [OF this] show ?thesis by blast
qed

section \<open>Errors of the collector\<close>

lemma parse_stat_fields_error: "parse_stat_fields s p = Inl e \<Longrightarrow> e \<noteq> []"
  by (auto simp: parse_stat_fields_def split: option.splits if_splits)

lemma parse_stat_line_error: "parse_stat_line s p = Inl e \<Longrightarrow> e \<noteq> []"
  by (auto simp: parse_stat_line_def split: option.splits if_splits dest: parse_stat_fields_error)

lemma parse_status_error: "parse_status c p = Inl e \<Longrightarrow> e \<noteq> []"
proof -
  have "parse_status_lines ls r v p = Inl e \<Longrightarrow> e \<noteq> []" for ls r v p
    by (induction ls r v p rule: parse_status_lines.induct) (auto split: if_splits option.splits)
  then show "parse_status c p = Inl e \<Longrightarrow> e \<noteq> []"
    by (auto simp: parse_status_def Let_def split: sum.splits prod.splits)
qed

lemma error_from_errno_cases:
  "error_from_errno n \<noteq> PcNone" "error_from_errno n \<noteq> PcInvalidArgument"
  "error_from_errno n \<noteq> PcParseError"
  "error_from_errno n = PcNotFound \<longleftrightarrow> n = ENOENT \<or> n = ESRCH"
  by (simp_all add: error_from_errno_def)

text \<open>
  C27.  A failure of the collector is never reported as \<open>kNone\<close> and always has a message.
  \<open>kInvalidArgument\<close> is the code of exactly the pids that are not positive; \<open>kNotFound\<close>
  means that the process was gone when \<open>stat\<close> or \<open>status\<close> was read; \<open>kParseError\<close>
  means that one of these two files was read and not understood.
\<close>

theorem get_process_error:
  assumes "get_process read_file hz pid = Inl (code, message)"
  defines "stat_file \<equiv> read_file (process_file pid ''stat'')"
    and "status_file \<equiv> read_file (process_file pid ''status'')"
  shows "code \<noteq> PcNone \<and> message \<noteq> [] \<and> (code = PcInvalidArgument \<longleftrightarrow> sint pid \<le> 0) \<and>
    (code = PcNotFound \<longrightarrow> (\<exists>n. (n = ENOENT \<or> n = ESRCH) \<and> (stat_file = Inl n \<or> status_file = Inl n))) \<and>
    (code = PcParseError \<longrightarrow> is_ok stat_file)"
  using assms(1) unfolding stat_file_def status_file_def
  by (auto simp: get_process_def Let_def error_from_errno_cases split: if_splits sum.splits
      dest: parse_stat_line_error parse_status_error)

theorem get_process_error_witness:
  "get_process (\<lambda>_. Inl ESRCH) 100 5 = Inl (PcNotFound, ''failed to read process stat for pid 5'') \<and>
   PcNotFound \<noteq> PcNone"
proof -
  have e: "get_process (\<lambda>_. Inl ESRCH) 100 5 = Inl (PcNotFound, ''failed to read process stat for pid 5'')"
    by code_simp
  show ?thesis using e get_process_error [OF e] by simp
qed

section \<open>The list of processes\<close>

lemma isdigit_digits: "is_numeric value \<Longrightarrow> value \<noteq> [] \<and> (\<forall>c \<in> set value. isdigit c)"
  by (simp add: is_numeric_def list_all_iff)

lemma stoll_numeric:
  assumes "is_numeric value"
  shows "stoll value =
    (if value_of 10 value < 9223372036854775808 then Some (int (value_of 10 value), length value) else None)"
proof -
  have "scan_int (value @ []) = Some (False, value_of 10 value, [])"
    using isdigit_digits [OF assms] by (intro scan_int_digits) simp_all
  then show ?thesis
    by (simp add: stoll_def read_i64_def)
qed

lemma in_optional:
  "x \<in> set (if b then (case r of Inl _ \<Rightarrow> [] | Inr y \<Rightarrow> [y]) else []) \<longleftrightarrow> b \<and> r = Inr x"
  by (cases b; cases r) auto

lemma list_entry_iff:
  "process \<in> set (list_entry hz (name, files)) \<longleftrightarrow>
     is_numeric name \<and> 0 < value_of 10 name \<and> value_of 10 name \<le> i32_max \<and>
     get_process files hz (word_of_nat (value_of 10 name)) = Inr process"
proof (cases "is_numeric name \<and> value_of 10 name < 9223372036854775808")
  case True
  define n where "n = value_of 10 name"
  from True have "stoll name = Some (int n, length name)"
    by (simp add: stoll_numeric n_def)
  then have "list_entry hz (name, files) =
    (if 0 < n \<and> n \<le> i32_max
     then (case get_process files hz (word_of_nat n) of Inl _ \<Rightarrow> [] | Inr process \<Rightarrow> [process]) else [])"
    using True by (simp add: list_entry_def)
  with True show ?thesis
    by (simp only: in_optional n_def [symmetric]) blast
next
  case False
  then have "list_entry hz (name, files) = []"
    by (auto simp: list_entry_def stoll_numeric)
  moreover have "\<not> is_numeric name \<or> \<not> value_of 10 name \<le> i32_max"
    using False by linarith
  ultimately show ?thesis
    by fastforce
qed

lemma list_entry_length: "length (list_entry hz entry) \<le> 1"
  by (auto simp: list_entry_def split: option.splits sum.splits if_splits)

text \<open>
  C25.  The list of processes is ordered by pid, all its members are well formed, and it
  holds exactly the processes found under the directory entries whose names are numbers in the
  range of a pid; the entries whose process has vanished or cannot be read, and the entries whose
  name does not fit a \<open>long long\<close>, are skipped without ending the scan.
\<close>

theorem list_processes_correct:
  assumes "list_processes (Inr entries) hz = Inr processes"
  shows "sorted (map (\<lambda>p. sint (p_pid p)) processes) \<and> list_all process_ok processes \<and>
    length processes \<le> length entries \<and>
    (\<forall>process. process \<in> set processes \<longleftrightarrow>
       (\<exists>(name, files) \<in> set entries.
          is_numeric name \<and> 0 < value_of 10 name \<and> value_of 10 name \<le> i32_max \<and>
          get_process files hz (word_of_nat (value_of 10 name)) = Inr process))"
proof -
  have p: "processes = sort_key (\<lambda>p. sint (p_pid p)) (concat (map (list_entry hz) entries))"
    using assms by (simp add: list_processes_def)
  have members: "process \<in> set processes \<longleftrightarrow>
      (\<exists>(name, files) \<in> set entries.
          is_numeric name \<and> 0 < value_of 10 name \<and> value_of 10 name \<le> i32_max \<and>
          get_process files hz (word_of_nat (value_of 10 name)) = Inr process)" for process
  proof -
    have "process \<in> set processes \<longleftrightarrow> (\<exists>entry \<in> set entries. process \<in> set (list_entry hz entry))"
      by (simp add: p)
    also have "\<dots> \<longleftrightarrow> (\<exists>(name, files) \<in> set entries. process \<in> set (list_entry hz (name, files)))"
      by (rule bex_cong [OF refl]) (simp split: prod.split)
    finally show ?thesis by (simp only: list_entry_iff)
  qed
  have "length (concat (map (list_entry hz) entries)) \<le> length entries"
  proof (induction entries)
    case (Cons entry entries)
    then show ?case using list_entry_length [of hz entry] by simp
  qed simp
  then have "length processes \<le> length entries"
    by (simp add: p)
  moreover have "sorted (map (\<lambda>p. sint (p_pid p)) processes)"
    by (simp add: p)
  moreover have "process_ok process" if "process \<in> set processes" for process
    using that members get_process_wf by fast
  ultimately show ?thesis
    using members by (simp only: list_all_iff) blast
qed

theorem list_processes_correct_witness:
  "list_processes (Inr [(''self'', \<lambda>_. Inl ENOENT), (''12'', \<lambda>_. Inl ENOENT)]) 100 = Inr [] \<and>
   sorted (map (\<lambda>p. sint (p_pid p)) ([] :: process_info list))"
proof -
  have l: "list_processes (Inr [(''self'', \<lambda>_. Inl ENOENT), (''12'', \<lambda>_. Inl ENOENT)]) 100 = Inr []"
    by code_simp
  show ?thesis using l list_processes_correct [OF l] by simp
qed

section \<open>The text the kernel writes to \<open>stat\<close>\<close>

text \<open>
  The fields of \<open>/proc/[pid]/stat\<close> in the kernel's order (proc(5)), and the line they make.
  The command name stands between parentheses and is not escaped.
\<close>

record stat_fields =
  st_pid :: int
  st_comm :: string
  st_state :: char
  st_ppid :: int
  st_ids :: "int list" \<comment> \<open>pgrp, session, tty, tpgid, flags and the four fault counters\<close>
  st_utime :: nat
  st_stime :: nat
  st_sched :: "int list" \<comment> \<open>cutime, cstime, priority and nice\<close>
  st_threads :: nat
  st_itrealvalue :: int
  st_starttime :: nat

definition stat_numbers :: "stat_fields \<Rightarrow> int list" where
  "stat_numbers st = [int (st_utime st), int (st_stime st)] @ st_sched st @
     [int (st_threads st), st_itrealvalue st, int (st_starttime st)]"

definition stat_text :: "stat_fields \<Rightarrow> string" where
  "stat_text st = show_int (st_pid st) @ '' ('' @ st_comm st @ '') '' @ [st_state st] @
     fields_text show_int (st_ppid st # st_ids st @ stat_numbers st)"

definition stat_fields_ok :: "stat_fields \<Rightarrow> bool" where
  "stat_fields_ok st \<longleftrightarrow>
     1 \<le> st_pid st \<and> st_pid st \<le> int i32_max \<and> 0 \<le> st_ppid st \<and> st_ppid st \<le> int i32_max \<and>
     isalpha (st_state st) \<and>
     length (st_ids st) = 9 \<and> list_all (\<lambda>i. - int u64_max \<le> i \<and> i \<le> int u64_max) (st_ids st) \<and>
     st_utime st + st_stime st \<le> u64_max \<and>
     length (st_sched st) = 4 \<and>
     list_all (\<lambda>i. - 9223372036854775808 \<le> i \<and> i < 9223372036854775808)
       (st_itrealvalue st # st_sched st) \<and>
     st_threads st \<le> u32_max \<and> st_starttime st \<le> u64_max"

lemma show_int_chars: "c \<in> set (show_int i) \<Longrightarrow> isdigit c \<or> c = CHR ''-''"
  by (auto simp: show_int_def dest: show_nat_digits split: if_splits)

lemma show_int_plain:
  "CHR '')'' \<notin> set (show_int i)" "CHR ''('' \<notin> set (show_int i)"
  by (auto dest!: show_int_chars simp: isdigit_def)

lemma fields_text_plain: "CHR '')'' \<notin> set (fields_text show_int is)"
  using show_int_plain by (auto simp: fields_text_def)

lemma fields_text_append: "fields_text pr (vs @ ws) = fields_text pr vs @ fields_text pr ws"
  by (simp add: fields_text_def)

lemma read_char_field: "\<not> isspace c \<Longrightarrow> read_char (CHR '' '' # c # r) = Some (c, r)"
  by (simp add: read_char_def skip_ws_def)

lemma word_int_of_nat: "word_of_int (int n) = word_of_nat n"
  by simp

lemma read_u64_nat_field:
  "n \<le> u64_max \<Longrightarrow> ends_field r \<Longrightarrow> read_u64 (CHR '' '' # show_int (int n) @ r) = Some (word_of_nat n, r)"
  using u64s.rd_field [of "int n" r] by simp

lemma parse_stat_fields_text:
  assumes ok: "stat_fields_ok st" and rest: "ends_field rest"
  shows "parse_stat_fields (CHR '' '' # st_state st # fields_text show_int (st_ppid st # st_ids st @ stat_numbers st) @ rest) p
    = Inr (p \<lparr> p_state := [st_state st], p_ppid := word_of_int (st_ppid st),
               p_start_time_ticks := word_of_nat (st_starttime st),
               p_thread_count := word_of_nat (st_threads st) \<rparr>,
           word_of_nat (st_utime st) + word_of_nat (st_stime st))"
proof -
  let ?tail = "CHR '' '' # show_int (int (st_threads st)) @ CHR '' '' # show_int (st_itrealvalue st)
                 @ CHR '' '' # show_int (int (st_starttime st)) @ rest"
  have state: "\<not> isspace (st_state st)"
    using ok by (auto simp: stat_fields_ok_def isalpha_def isspace_def Let_def)
  have ef: "ends_field (CHR '' '' # t)" for t by simp
  have ends: "ends_field ?tail" "ends_field (fields_text show_int (stat_numbers st) @ rest)"
    using rest by (simp_all add: ends_field_fields_text)
  have ids: "skip_fields read_u64 9 (fields_text show_int (st_ids st) @ fields_text show_int (stat_numbers st) @ rest)
      = Some (fields_text show_int (stat_numbers st) @ rest)"
    using ok u64s.skip_printed [of "st_ids st" "fields_text show_int (stat_numbers st) @ rest"] ends
    by (simp add: stat_fields_ok_def list_all_iff)
  have sched: "skip_fields read_i64 4 (fields_text show_int (st_sched st) @ ?tail) = Some ?tail"
    using ok i64s.skip_printed [of "st_sched st" ?tail] ends
    by (simp add: stat_fields_ok_def list_all_iff)
  have ppid: "read_i64 (CHR '' '' # show_int (st_ppid st) @ fields_text show_int (st_ids st) @ r)
      = Some (st_ppid st, fields_text show_int (st_ids st) @ r)" if "ends_field r" for r
    using ok that by (intro i64s.rd_field ends_field_fields_text) (auto simp: stat_fields_ok_def)
  have timer: "read_i64 (CHR '' '' # show_int (st_itrealvalue st) @ CHR '' '' # r)
      = Some (st_itrealvalue st, CHR '' '' # r)" for r
    using ok by (intro i64s.rd_field) (auto simp: stat_fields_ok_def)
  have bounds: "st_utime st \<le> u64_max" "st_stime st \<le> u64_max" "st_threads st \<le> u64_max"
      "st_starttime st \<le> u64_max"
    using ok by (auto simp: stat_fields_ok_def)
  have numbers: "fields_text show_int (stat_numbers st) @ rest =
      CHR '' '' # show_int (int (st_utime st)) @ CHR '' '' # show_int (int (st_stime st)) @
      fields_text show_int (st_sched st) @ ?tail"
    by (simp add: stat_numbers_def fields_text_append)
  have stime: "read_u64 (CHR '' '' # show_int (int (st_stime st)) @ fields_text show_int (st_sched st) @ ?tail)
      = Some (word_of_nat (st_stime st), fields_text show_int (st_sched st) @ ?tail)"
    using bounds ends by (intro read_u64_nat_field ends_field_fields_text)
  have no_overflow: "\<not> unat (word_of_nat (st_utime st) :: u64) > u64_max - unat (word_of_nat (st_stime st) :: u64)"
  proof -
    have "st_utime st + st_stime st \<le> u64_max"
      using ok by (simp add: stat_fields_ok_def)
    then have "\<not> st_utime st > u64_max - st_stime st"
      by linarith
    with bounds show ?thesis
      by (simp only: unat_of_nat_u64 simp_thms)
  qed
  have threads: "unat (word_of_nat (st_threads st) :: u64) = st_threads st" "st_threads st \<le> u32_max"
    using bounds ok by (simp_all only: unat_of_nat_u64 stat_fields_ok_def)
  have narrow: "ucast (word_of_nat (st_threads st) :: u64) = (word_of_nat (st_threads st) :: u32)"
    using of_nat_unat [of "word_of_nat (st_threads st) :: u64", where 'a = u32] threads(1) by metis
  have range: "\<not> (st_ppid st < 0 \<or> st_ppid st > int i32_max)"
    using ok by (auto simp: stat_fields_ok_def)
  have utime: "read_u64 (fields_text show_int (stat_numbers st) @ rest) = Some (word_of_nat (st_utime st),
      CHR '' '' # show_int (int (st_stime st)) @ fields_text show_int (st_sched st) @ ?tail)"
    unfolding numbers using bounds by (intro read_u64_nat_field ef)
  have count: "read_u64 ?tail = Some (word_of_nat (st_threads st), CHR '' '' # show_int (st_itrealvalue st) @
      CHR '' '' # show_int (int (st_starttime st)) @ rest)"
    using bounds by (intro read_u64_nat_field ef)
  have start: "read_u64 (CHR '' '' # show_int (int (st_starttime st)) @ rest) = Some (word_of_nat (st_starttime st), rest)"
    using bounds rest by (intro read_u64_nat_field)
  show ?thesis
    using no_overflow range threads(2)
    by (simp add: parse_stat_fields_def read_char_field state ppid [OF ends(2)] fields_text_append ids
        utime stime sched count timer start threads(1) narrow)
qed

text \<open>A line whose name is between the first opening and the last closing parenthesis.\<close>

lemma parse_stat_line_split:
  assumes "CHR ''('' \<notin> set head" "CHR '')'' \<notin> set tail" "tail \<noteq> []"
    and "read_i64 head = Some (pid, r)" "0 < pid" "pid \<le> int i32_max"
  shows "parse_stat_line (head @ CHR ''('' # comm @ CHR '')'' # tail) p =
    parse_stat_fields tail (p \<lparr> p_pid := word_of_int pid, p_name := comm \<rparr>)"
proof -
  let ?line = "head @ CHR ''('' # comm @ CHR '')'' # tail"
  have "find_char CHR ''('' ?line = Some (length head)"
    using assms(1) by (rule find_char_append)
  moreover have "rfind_char CHR '')'' ?line = Some (length head + 1 + length comm)"
    using rfind_char_append [OF assms(2), of "head @ CHR ''('' # comm"] by simp
  moreover have "drop (length head + 1 + length comm + 1) ?line = tail"
    using append_eq_conv_conj [of "head @ CHR ''('' # comm @ [CHR '')'']" tail ?line] by simp
  moreover have "length head + 1 + length comm + 2 \<le> length ?line"
    using assms(3) by (cases tail) simp_all
  moreover have "substr ?line (length head + 1) (length comm) = comm"
    by (simp add: substr_def)
  ultimately show ?thesis
    using assms(3-6) by (simp add: parse_stat_line_def)
qed

text \<open>
  C28.  The line that the kernel writes is read back exactly, for every command name, also one that
  holds parentheses, blanks or text that looks like more fields, and whatever follows the
  start time, as long as it holds no closing parenthesis.  In particular the terminal's process group
  \<open>-1\<close> of a process without a terminal is accepted although the field is read as an unsigned
  number, and the CPU ticks are the sum of the user and system ticks without wrap-around.
\<close>

theorem parse_stat_line_text:
  assumes ok: "stat_fields_ok st" and rest: "ends_field rest" "CHR '')'' \<notin> set rest"
  shows "parse_stat_line (stat_text st @ rest) p =
    Inr (p \<lparr> p_pid := word_of_int (st_pid st), p_name := st_comm st, p_state := [st_state st],
             p_ppid := word_of_int (st_ppid st), p_start_time_ticks := word_of_nat (st_starttime st),
             p_thread_count := word_of_nat (st_threads st) \<rparr>,
         word_of_nat (st_utime st + st_stime st))"
proof -
  let ?fields = "fields_text show_int (st_ppid st # st_ids st @ stat_numbers st)"
  let ?head = "show_int (st_pid st) @ '' ''" and ?tail = "CHR '' '' # st_state st # ?fields @ rest"
  have "st_state st \<noteq> CHR '')''"
    using ok by (auto simp: stat_fields_ok_def isalpha_def)
  then have tail: "CHR '')'' \<notin> set ?tail"
    using rest(2) fields_text_plain [of "st_ppid st # st_ids st @ stat_numbers st"]
    by (simp del: fields_text_simps)
  have head: "CHR ''('' \<notin> set ?head"
    using show_int_plain by simp
  have pid: "read_i64 ?head = Some (st_pid st, '' '')" "0 < st_pid st" "st_pid st \<le> int i32_max"
    using ok read_i64_show_int [of "st_pid st" "'' ''"] by (simp_all add: stat_fields_ok_def isdigit_def)
  have "stat_text st @ rest = ?head @ CHR ''('' # st_comm st @ CHR '')'' # ?tail"
    by (simp add: stat_text_def)
  then have "parse_stat_line (stat_text st @ rest) p =
      parse_stat_fields ?tail (p \<lparr> p_pid := word_of_int (st_pid st), p_name := st_comm st \<rparr>)"
    using parse_stat_line_split [OF head tail _ pid] by (simp only: list.distinct simp_thms)
  also have "\<dots> = Inr (p \<lparr> p_pid := word_of_int (st_pid st), p_name := st_comm st, p_state := [st_state st],
             p_ppid := word_of_int (st_ppid st), p_start_time_ticks := word_of_nat (st_starttime st),
             p_thread_count := word_of_nat (st_threads st) \<rparr>,
         word_of_nat (st_utime st + st_stime st))"
    unfolding parse_stat_fields_text [OF ok rest(1)] by simp
  finally show ?thesis .
qed

definition sample_stat_fields :: stat_fields where
  "sample_stat_fields =
     \<lparr> st_pid = 42, st_comm = ''a) (b'', st_state = CHR ''S'', st_ppid = 1,
       st_ids = [42, 42, 0, - 1, 4194560, 5, 0, 0, 0], st_utime = 3, st_stime = 4,
       st_sched = [0, 0, 20, - 5], st_threads = 2, st_itrealvalue = 0, st_starttime = 99 \<rparr>"

theorem parse_stat_line_text_witness:
  "stat_text sample_stat_fields = ''42 (a) (b) S 1 42 42 0 -1 4194560 5 0 0 0 3 4 0 0 20 -5 2 0 99'' \<and>
   p_name (fst (projr (parse_stat_line (stat_text sample_stat_fields @ [CHR 0x0A]) empty_process_info)))
     = ''a) (b''"
proof -
  have "stat_text sample_stat_fields = ''42 (a) (b) S 1 42 42 0 -1 4194560 5 0 0 0 3 4 0 0 20 -5 2 0 99''"
    by code_simp
  moreover have ok: "stat_fields_ok sample_stat_fields"
    by (simp add: stat_fields_ok_def sample_stat_fields_def isalpha_def)
  have rest: "ends_field [CHR 0x0A]" "CHR '')'' \<notin> set [CHR 0x0A]"
    by simp_all
  have "p_name (fst (projr (parse_stat_line (stat_text sample_stat_fields @ [CHR 0x0A]) empty_process_info)))
      = st_comm sample_stat_fields"
    unfolding parse_stat_line_text [OF ok rest] by simp
  moreover have "st_comm sample_stat_fields = ''a) (b''"
    by (simp add: sample_stat_fields_def)
  ultimately show ?thesis by simp
qed

section \<open>The text the kernel writes to \<open>status\<close> and \<open>io\<close>\<close>

definition memory_line :: "string \<Rightarrow> string \<Rightarrow> nat \<Rightarrow> string" where
  "memory_line key blanks kilobytes = key @ blanks @ show_nat kilobytes @ '' kB''"

definition threads_line :: "string \<Rightarrow> nat \<Rightarrow> string" where
  "threads_line blanks threads = ''Threads:'' @ blanks @ show_nat threads"

definition unused_line :: "string \<Rightarrow> bool" where
  "unused_line l \<longleftrightarrow> \<not> prefix ''VmRSS:'' l \<and> \<not> prefix ''VmSize:'' l \<and> \<not> prefix ''Threads:'' l"

definition blanks_ok :: "string \<Rightarrow> bool" where
  "blanks_ok b \<longleftrightarrow> b \<noteq> [] \<and> list_all (\<lambda>c. c = CHR '' '' \<or> c = CHR 0x09) b"

lemma blanks_space: "blanks_ok b \<Longrightarrow> b \<noteq> [] \<and> (\<forall>c \<in> set b. isspace c)"
  unfolding blanks_ok_def list_all_iff using isspace_blank by metis

lemma read_u64_blanks:
  assumes "blanks_ok b" "n \<le> u64_max" "stops isdigit r"
  shows "read_u64 (b @ show_nat n @ r) = Some (word_of_nat n, r)"
proof -
  have "read_u64 (b @ s) = read_u64 s" for s
    using blanks_space [OF assms(1)] by (simp add: read_u64_def scan_int_def skip_ws_blanks)
  then show ?thesis
    using assms by (simp add: read_u64_show_nat)
qed

lemma read_token_key:
  assumes "blanks_ok b" "key \<noteq> []" "\<forall>c \<in> set key. \<not> isspace c"
  shows "read_token (key @ b @ r) = Some (key, b @ r)"
  using assms blanks_space [OF assms(1)] by (intro read_token_word) (auto simp: neq_Nil_conv)

lemma parse_memory_line:
  assumes "blanks_ok b" "n \<le> u64_max div 1024" "key \<noteq> []" "\<forall>c \<in> set key. \<not> isspace c"
  shows "parse_kilobyte_field (memory_line key b n) key = Some (word_of_nat n * 1024)"
proof -
  have n: "n \<le> u64_max"
    using assms(2) by simp
  have "read_u64 (b @ show_nat n @ '' kB'') = Some (word_of_nat n, '' kB'')"
    using assms n by (intro read_u64_blanks) (simp_all add: isdigit_def)
  moreover have "read_token '' kB'' = Some (''kB'', [])"
    by code_simp
  moreover have "\<not> unat (word_of_nat n :: u64) > u64_max div 1024"
    using assms(2) by (simp only: unat_of_nat_u64 [OF n] not_less)
  ultimately show ?thesis
    using assms by (simp add: parse_kilobyte_field_def memory_line_def read_token_key)
qed

lemma parse_threads_line:
  assumes "blanks_ok b" "n \<le> u32_max"
  shows "parse_threads_field (threads_line b n) = Some (word_of_nat n)"
proof -
  have n: "n \<le> u64_max"
    using assms(2) by simp
  have "read_u64 (b @ show_nat n @ []) = Some (word_of_nat n, [])"
    using assms n by (intro read_u64_blanks) simp_all
  moreover have u: "unat (word_of_nat n :: u64) = n"
    using n by (rule unat_of_nat_u64)
  moreover have "ucast (word_of_nat n :: u64) = (word_of_nat n :: u32)"
    using of_nat_unat [of "word_of_nat n :: u64", where 'a = u32] u by metis
  ultimately show ?thesis
    using assms
    by (simp add: parse_threads_field_def threads_line_def read_token_key [where key = "''Threads:''", simplified] isspace_def)
qed

lemma parse_status_lines_unused:
  "list_all unused_line pre \<Longrightarrow> parse_status_lines (pre @ ls) r v p = parse_status_lines ls r v p"
  by (induction pre) (simp_all add: unused_line_def)

lemma parse_status_lines_memory:
  assumes "blanks_ok b" "n \<le> u64_max div 1024"
  shows "parse_status_lines (memory_line ''VmSize:'' b n # ls) r v p =
      parse_status_lines ls r True (p \<lparr> p_virtual_memory_bytes := word_of_nat n * 1024 \<rparr>)"
    and "parse_status_lines (memory_line ''VmRSS:'' b n # ls) r v p =
      parse_status_lines ls True v (p \<lparr> p_resident_memory_bytes := word_of_nat n * 1024 \<rparr>)"
  using assms parse_memory_line [OF assms, of "''VmSize:''"] parse_memory_line [OF assms, of "''VmRSS:''"]
  by (simp_all add: memory_line_def isspace_def)

lemma parse_status_lines_threads:
  assumes "blanks_ok b" "n \<le> u32_max"
  shows "parse_status_lines (threads_line b n # ls) r v p =
      parse_status_lines ls r v (p \<lparr> p_thread_count := word_of_nat n \<rparr>)"
  using parse_threads_line [OF assms] by (simp add: threads_line_def)

text \<open>
  The lines of the file: the two memory lines, which a kernel thread has not, and the line of the
  threads, each with its own padding, with any other lines before, between and after them.
\<close>

type_synonym memory_lines = "(string \<times> nat) \<times> string list \<times> (string \<times> nat)"

definition status_lines ::
  "string list \<Rightarrow> memory_lines option \<Rightarrow> string list \<Rightarrow> string \<times> nat \<Rightarrow> string list \<Rightarrow> string list" where
  "status_lines before memory between threads after =
     before @
     (case memory of None \<Rightarrow> []
      | Some ((b1, vm), middle, (b2, rss)) \<Rightarrow>
          [memory_line ''VmSize:'' b1 vm] @ middle @ [memory_line ''VmRSS:'' b2 rss]) @
     between @ [threads_line (fst threads) (snd threads)] @ after"

definition other_lines :: "string list \<Rightarrow> bool" where
  "other_lines ls \<longleftrightarrow> list_all (\<lambda>l. unused_line l \<and> CHR 0x0A \<notin> set l) ls"

definition memory_lines_ok :: "memory_lines option \<Rightarrow> bool" where
  "memory_lines_ok memory \<longleftrightarrow>
     (case memory of None \<Rightarrow> True
      | Some ((b1, vm), middle, (b2, rss)) \<Rightarrow>
          blanks_ok b1 \<and> vm * 1024 \<le> u64_max \<and> other_lines middle \<and> blanks_ok b2 \<and> rss * 1024 \<le> u64_max)"

lemma show_nat_no_newline: "CHR 0x0A \<notin> set (show_nat n)"
  by (auto dest!: show_nat_digits simp: isdigit_def)

lemma blanks_no_newline: "blanks_ok b \<Longrightarrow> CHR 0x0A \<notin> set b"
proof -
  have "CHR 0x0A \<noteq> CHR '' ''" and "CHR 0x0A \<noteq> CHR 0x09"
    by simp_all
  then show "blanks_ok b \<Longrightarrow> CHR 0x0A \<notin> set b"
    unfolding blanks_ok_def list_all_iff by metis
qed

lemma status_lines_no_newline:
  assumes "other_lines before" "memory_lines_ok memory" "other_lines between" "blanks_ok b" "other_lines after"
  shows "\<forall>l \<in> set (status_lines before memory between (b, threads) after). CHR 0x0A \<notin> set l"
  using assms
  by (auto simp: status_lines_def memory_line_def threads_line_def show_nat_no_newline other_lines_def
      memory_lines_ok_def list_all_iff blanks_no_newline split: option.splits)

lemma parse_status_lines_other: "other_lines pre \<Longrightarrow> parse_status_lines (pre @ ls) r v p = parse_status_lines ls r v p"
  by (rule parse_status_lines_unused) (simp add: other_lines_def list_all_iff)

text \<open>
  C29.  The \<open>status\<close> file of a process, whatever other lines it has and however its numbers are
  padded: the memory sizes in kilobytes become bytes without wrap-around, the number of threads is
  read, and all other lines are ignored.  The file of a kernel thread, which has no memory lines,
  gives zero for both sizes.
\<close>

theorem parse_status_text:
  assumes lines: "other_lines before" "memory_lines_ok memory" "other_lines between" "blanks_ok b" "other_lines after"
    and threads: "threads \<le> u32_max"
  shows "parse_status (file_of_lines (status_lines before memory between (b, threads) after)) p =
    Inr (p \<lparr> p_virtual_memory_bytes := word_of_nat (case memory of None \<Rightarrow> 0 | Some ((_, vm), _, _) \<Rightarrow> vm * 1024),
             p_resident_memory_bytes := word_of_nat (case memory of None \<Rightarrow> 0 | Some (_, _, (_, rss)) \<Rightarrow> rss * 1024),
             p_thread_count := word_of_nat threads \<rparr>)"
proof -
  have skip: "parse_status_lines after r v q = Inr (r, v, q)" for r v q
    using parse_status_lines_other [OF lines(5), of "[]"] by simp
  have kb: "n \<le> u64_max div 1024" if "n * 1024 \<le> u64_max" for n
    using that by linarith
  note step = skip parse_status_lines_other [OF lines(1)] parse_status_lines_other [OF lines(3)]
    parse_status_lines_threads [OF lines(4) threads]
  note read = parse_status_def getlines_file [OF status_lines_no_newline [OF lines]]
  show ?thesis
  proof (cases memory)
    case None
    then show ?thesis
      unfolding read by (simp add: status_lines_def step del: parse_status_lines.simps(2))
  next
    case (Some m)
    obtain b1 vm middle b2 rss where m: "m = ((b1, vm), middle, (b2, rss))"
      by (metis prod.collapse)
    then have ok: "blanks_ok b1" "vm \<le> u64_max div 1024" "other_lines middle" "blanks_ok b2" "rss \<le> u64_max div 1024"
      using lines(2) Some kb by (simp_all add: memory_lines_ok_def)
    note memory_step = parse_status_lines_memory(1) [OF ok(1,2)] parse_status_lines_memory(2) [OF ok(4,5)]
      parse_status_lines_other [OF ok(3)]
    show ?thesis
      unfolding read
      by (simp add: status_lines_def step Some m memory_step del: parse_status_lines.simps(2))
  qed
qed

theorem parse_status_text_witness:
  "parse_status (file_of_lines
       [''Name: x'', ''VmPeak:     9200 kB'', ''VmSize:     9128 kB'', ''VmLck:        0 kB'', ''VmRSS:      772 kB'',
        ''VmData:      360 kB'', ''Threads:'' @ [CHR 0x09] @ ''7'', ''SigQ: 0/1'']) empty_process_info =
     Inr (empty_process_info \<lparr> p_virtual_memory_bytes := 9347072, p_resident_memory_bytes := 790528,
       p_thread_count := 7 \<rparr>)"
proof -
  let ?before = "[''Name: x'', ''VmPeak:     9200 kB'']" and ?middle = "[''VmLck:        0 kB'']"
  let ?memory = "Some ((''     '', 9128), ?middle, (''      '', 772))"
  have ok: "other_lines ?before" "memory_lines_ok ?memory" "other_lines [''VmData:      360 kB'']" "blanks_ok [CHR 0x09]"
      "other_lines [''SigQ: 0/1'']" "(7::nat) \<le> u32_max"
    by (simp_all add: other_lines_def memory_lines_ok_def unused_line_def blanks_ok_def)
  have text_lines: "status_lines ?before ?memory [''VmData:      360 kB''] ([CHR 0x09], 7) [''SigQ: 0/1''] =
      [''Name: x'', ''VmPeak:     9200 kB'', ''VmSize:     9128 kB'', ''VmLck:        0 kB'', ''VmRSS:      772 kB'',
       ''VmData:      360 kB'', ''Threads:'' @ [CHR 0x09] @ ''7'', ''SigQ: 0/1'']"
    by code_simp
  show ?thesis
    using parse_status_text [OF ok, of empty_process_info] unfolding text_lines by simp
qed

text \<open>The \<open>io\<close> file: keys and values separated by white space.\<close>

definition io_text :: "(string \<times> nat) list \<Rightarrow> string" where
  "io_text kvs = concat (map (\<lambda>(k, v). k @ CHR '' '' # show_nat v @ [CHR 0x0A]) kvs)"

lemma read_key_value_consumes:
  assumes "read_key_value s = Some (v, r)"
  shows "length r < length s"
proof -
  obtain k t n where "read_token s = Some (k, t)" "read_u64 t = Some (n, r)"
    using assms by (auto simp: read_key_value_def bind_eq_Some_conv)
  then have "length t < length s" and "length r < length t"
    by (simp_all only: read_token_consumes read_u64_consumes)
  then show ?thesis by linarith
qed

interpretation key_values: stream_reader read_key_value
  by unfold_locales (rule read_key_value_consumes)

lemma read_key_value_line:
  assumes "k \<noteq> []" "\<forall>c \<in> set k. \<not> isspace c" "n \<le> u64_max"
  shows "read_key_value (k @ CHR '' '' # show_nat n @ CHR 0x0A # r) = Some ((k, word_of_nat n), CHR 0x0A # r)"
proof -
  have "read_u64 (CHR '' '' # show_int (int n) @ CHR 0x0A # r) = Some (word_of_nat n, CHR 0x0A # r)"
    using assms(3) by (intro read_u64_nat_field) simp_all
  then show ?thesis
    using assms by (simp add: read_key_value_def read_token_word show_int_def)
qed

lemma read_key_value_newline: "read_key_value (CHR 0x0A # r) = read_key_value r"
  by (simp add: read_key_value_def read_token_def skip_ws_space)

lemma io_fields:
  assumes "list_all (\<lambda>(k, v). k \<noteq> [] \<and> (\<forall>c \<in> set k. \<not> isspace c) \<and> v \<le> u64_max) kvs"
  shows "read_loop read_key_value (io_text kvs) = map (\<lambda>(k, v). (k, word_of_nat v)) kvs"
proof -
  have "read_loop read_key_value (CHR 0x0A # io_text kvs) = map (\<lambda>(k, v). (k, word_of_nat v)) kvs \<and>
    read_loop read_key_value (io_text kvs) = map (\<lambda>(k, v). (k, word_of_nat v)) kvs"
    using assms
  proof (induction kvs)
    case Nil
    have "read_key_value [CHR 0x0A] = None" by code_simp
    then show ?case
      by (simp add: io_text_def key_values.loop_Nil key_values.loop_stop)
  next
    case (Cons kv kvs)
    obtain k v where kv: "kv = (k, v)" by (cases kv)
    have split: "io_text (kv # kvs) = k @ CHR '' '' # show_nat v @ CHR 0x0A # io_text kvs"
      by (simp add: io_text_def kv)
    have "read_key_value (io_text (kv # kvs)) = Some ((k, word_of_nat v), CHR 0x0A # io_text kvs)"
      unfolding split using Cons.prems by (intro read_key_value_line) (simp_all add: kv)
    moreover have "read_loop read_key_value (CHR 0x0A # io_text kvs) = map (\<lambda>(k, v). (k, word_of_nat v)) kvs"
      using Cons.IH Cons.prems unfolding list.pred_inject by blast
    ultimately show ?case
      by (simp add: key_values.loop_step kv read_key_value_newline)
  qed
  then show ?thesis ..
qed

text \<open>The value under a key that occurs several times is the last one.\<close>

lemma foldl_io_fields:
  "foldl apply_io_field p (map (\<lambda>(k, v). (k, word_of_nat v)) kvs) =
     p \<lparr> p_read_bytes := (case map_of (rev kvs) ''read_bytes:'' of
                            None \<Rightarrow> p_read_bytes p | Some v \<Rightarrow> word_of_nat v),
         p_write_bytes := (case map_of (rev kvs) ''write_bytes:'' of
                            None \<Rightarrow> p_write_bytes p | Some v \<Rightarrow> word_of_nat v) \<rparr>"
proof (induction kvs rule: rev_induct)
  case Nil
  show ?case by simp
next
  case (snoc kv kvs)
  obtain k v where kv: "kv = (k, v)" by (cases kv)
  define q :: process_info where "q =
     p \<lparr> p_read_bytes := (case map_of (rev kvs) ''read_bytes:'' of
                            None \<Rightarrow> p_read_bytes p | Some v \<Rightarrow> word_of_nat v),
         p_write_bytes := (case map_of (rev kvs) ''write_bytes:'' of
                            None \<Rightarrow> p_write_bytes p | Some v \<Rightarrow> word_of_nat v) \<rparr>"
  have fold: "foldl apply_io_field p (map (\<lambda>(k, v). (k, word_of_nat v)) (kvs @ [kv])) =
      apply_io_field q (k, word_of_nat v)"
    unfolding q_def snoc.IH [symmetric] by (simp add: kv)
  consider "k = ''read_bytes:''" "k \<noteq> ''write_bytes:''" | "k = ''write_bytes:''" "k \<noteq> ''read_bytes:''"
    | "k \<noteq> ''read_bytes:''" "k \<noteq> ''write_bytes:''"
    by fastforce
  then show ?case
    unfolding fold by cases (simp_all add: kv apply_io_field_def q_def)
qed

text \<open>
  The \<open>io\<close> file: the two counters are found wherever they stand among the others, a
  counter that is missing keeps the value it had, and nothing else of the process changes.
\<close>

theorem parse_io_text:
  assumes "list_all (\<lambda>(k, v). k \<noteq> [] \<and> (\<forall>c \<in> set k. \<not> isspace c) \<and> v \<le> u64_max) kvs"
  shows "parse_io (io_text kvs) p =
     p \<lparr> p_read_bytes := (case map_of (rev kvs) ''read_bytes:'' of
                            None \<Rightarrow> p_read_bytes p | Some v \<Rightarrow> word_of_nat v),
         p_write_bytes := (case map_of (rev kvs) ''write_bytes:'' of
                            None \<Rightarrow> p_write_bytes p | Some v \<Rightarrow> word_of_nat v) \<rparr>"
  unfolding parse_io_def io_fields [OF assms] by (rule foldl_io_fields)

theorem parse_io_text_witness:
  "p_write_bytes (parse_io (io_text [(''rchar:'', 9), (''write_bytes:'', 4096)]) empty_process_info) = 4096"
proof -
  have "list_all (\<lambda>(k, v). k \<noteq> [] \<and> (\<forall>c \<in> set k. \<not> isspace c) \<and> v \<le> u64_max)
      [(''rchar:'', 9), (''write_bytes:'', 4096)]"
    by code_simp
  from parse_io_text [OF this, of empty_process_info] show ?thesis by simp
qed

end
