(* ===== verification/Process_Controller.thy ===== *)
theory Process_Controller
  imports ES_Prelude
begin

text \<open>
  \<open>agent/src/ProcessController.cpp\<close>: sending a signal to a process.  \<open>getpid()\<close> is the
  parameter \<open>self\<close>, and \<open>kill(2)\<close> is the parameter \<open>kill\<close>, which gives the \<open>errno\<close>
  of a call that fails and \<open>None\<close> for one that succeeds.  The model returns the calls of
  \<open>kill\<close> that were made, so that what reaches the system is part of the result.
\<close>

section \<open>Data\<close>

text \<open>An \<open>enum class\<close> can hold a value that is none of its enumerators.\<close>

datatype process_control_action = kTerminate | kKill | kStop | kContinue | OtherAction int

datatype process_control_error =
    CtlNone | CtlInvalidArgument | CtlNotFound | CtlPermissionDenied | CtlInternal

abbreviation SIGKILL :: int where "SIGKILL \<equiv> 9"
abbreviation SIGTERM :: int where "SIGTERM \<equiv> 15"
abbreviation SIGCONT :: int where "SIGCONT \<equiv> 18"
abbreviation SIGSTOP :: int where "SIGSTOP \<equiv> 19"

type_synonym signal_call = "i32 \<times> int"

section \<open>The operation\<close>

fun signal_of :: "process_control_action \<Rightarrow> int option" where
  "signal_of kTerminate = Some SIGTERM"
| "signal_of kKill = Some SIGKILL"
| "signal_of kStop = Some SIGSTOP"
| "signal_of kContinue = Some SIGCONT"
| "signal_of (OtherAction _) = None"

definition control_failure :: "errno \<Rightarrow> process_control_error \<times> string" where
  "control_failure error_number =
     (if error_number = ESRCH then (CtlNotFound, ''process does not exist'')
      else if error_number = EPERM
      then (CtlPermissionDenied, ''permission denied while controlling process'')
      else (CtlInternal, ''failed to control process''))"

definition control ::
  "i32 \<Rightarrow> (signal_call \<Rightarrow> errno option) \<Rightarrow> i32 \<Rightarrow> process_control_action \<Rightarrow>
   signal_call list \<times> ((process_control_error \<times> string) + unit)" where
  "control self kill pid action =
     (if sint pid \<le> 1
      then ([], Inl (CtlInvalidArgument, ''pid must be greater than 1''))
      else if pid = self
      then ([], Inl (CtlInvalidArgument, ''the agent cannot control itself''))
      else
        (case signal_of action of
           None \<Rightarrow> ([], Inl (CtlInvalidArgument, ''unsupported process control action''))
         | Some signal_number \<Rightarrow>
             ([(pid, signal_number)],
              (case kill (pid, signal_number) of
                 None \<Rightarrow> Inr ()
               | Some error_number \<Rightarrow> Inl (control_failure error_number)))))"

section \<open>Properties\<close>

definition permitted_call :: "i32 \<Rightarrow> signal_call \<Rightarrow> bool" where
  "permitted_call self call \<longleftrightarrow>
     1 < sint (fst call) \<and> fst call \<noteq> self \<and> snd call \<in> {SIGTERM, SIGKILL, SIGSTOP, SIGCONT}"

lemma signal_of_range: "signal_of action = Some s \<Longrightarrow> s \<in> {SIGTERM, SIGKILL, SIGSTOP, SIGCONT}"
  by (cases action) auto

text \<open>
  Whatever pid and action a request carries, the Agent signals no process but the one
  named, never a process group or all processes (\<open>kill\<close> with a pid of 0 or less), never
  \<open>init\<close>, never itself, and with none but the four signals of the interface.
\<close>

theorem control_calls_permitted:
  "\<forall>call \<in> set (fst (control self kill pid action)). fst call = pid \<and> permitted_call self call"
  using signal_of_range [of action]
  by (auto simp: control_def permitted_call_def split: option.splits)

theorem control_calls_permitted_witness:
  "fst (control 77 (\<lambda>_. None) 300 kStop) = [(300, SIGSTOP)] \<and> permitted_call 77 (300, SIGSTOP)"
  using control_calls_permitted [of 77 "\<lambda>_. None" 300 kStop] by (simp add: control_def)

text \<open>
  The answer tells what happened: it is a success exactly when one signal was sent and
  \<open>kill\<close> accepted it; \<open>kInvalidArgument\<close> exactly when no signal was sent; \<open>kNotFound\<close> and
  \<open>kPermissionDenied\<close> stand for \<open>ESRCH\<close> and \<open>EPERM\<close>, and \<open>kNone\<close> never comes with a failure.
\<close>

theorem control_result:
  "case control self kill pid action of
     (calls, Inr _) \<Rightarrow> \<exists>s. signal_of action = Some s \<and> calls = [(pid, s)] \<and> kill (pid, s) = None
   | (calls, Inl (code, message)) \<Rightarrow>
       code \<noteq> CtlNone \<and> message \<noteq> [] \<and> (code = CtlInvalidArgument \<longleftrightarrow> calls = []) \<and>
       (code = CtlNotFound \<longleftrightarrow> (\<exists>call. calls = [call] \<and> kill call = Some ESRCH)) \<and>
       (code = CtlPermissionDenied \<longleftrightarrow> (\<exists>call. calls = [call] \<and> kill call = Some EPERM))"
  by (auto simp: control_def control_failure_def split: option.splits prod.splits)

end
