(* ===== verification/Network_Collector.thy ===== *)
theory Network_Collector
  imports Cpp_Number
begin

text \<open>
  \<open>agent/src/NetworkCollector.cpp\<close>: the network interfaces and the TCP connections.  The
  files under \<open>/proc\<close> and \<open>/sys\<close> are a \<open>file_reader\<close>; the list that \<open>getifaddrs\<close> gives,
  the links under \<open>/proc/[pid]/fd\<close> and the conversion of an address to text
  (\<open>inet_ntop\<close>, with \<open>True\<close> for \<open>AF_INET6\<close>) are parameters.
\<close>

section \<open>Data\<close>

record network_interface_info =
  if_name :: string
  ipv4_addresses :: "string list"
  ipv6_addresses :: "string list"
  rx_bytes :: u64
  tx_bytes :: u64
  if_state :: string

record tcp_connection_info =
  protocol :: string
  local_address :: string
  local_port :: u32
  remote_address :: string
  remote_port :: u32
  tcp_state :: string
  inode :: u64
  tcp_pid :: i32

type_synonym ntop = "bool \<Rightarrow> u8 list \<Rightarrow> string option"

section \<open>One line of \<open>/proc/net/tcp\<close>\<close>

text \<open>The bytes of an address: each word of eight hexadecimal digits is in reverse byte order.\<close>

definition parse_address_bytes :: "string \<Rightarrow> nat \<Rightarrow> u8 list option" where
  "parse_address_bytes address_hex word_count =
     those (concat (map (\<lambda>w. map (\<lambda>byte.
       map_option ucast (from_chars_u64 16 (substr address_hex (w * 8 + (3 - byte) * 2) 2)))
       [0..<4]) [0..<word_count]))"

definition parse_endpoint :: "ntop \<Rightarrow> string \<Rightarrow> bool \<Rightarrow> (string \<times> u32) option" where
  "parse_endpoint inet_ntop txt ipv6 =
     do {
       separator \<leftarrow> find_char CHR '':'' txt;
       let address_hex = take separator txt;
       parsed_port \<leftarrow> from_chars_u64 16 (drop (separator + 1) txt);
       if unat parsed_port > 65535 \<or> length address_hex \<noteq> (if ipv6 then 32 else 8) then None
       else do {
         bytes \<leftarrow> parse_address_bytes address_hex (if ipv6 then 4 else 1);
         address \<leftarrow> inet_ntop ipv6 bytes;
         Some (address, ucast parsed_port)
       }
     }"

definition tcp_state_names :: "(string \<times> string) list" where
  "tcp_state_names =
     [(''01'', ''ESTABLISHED''), (''02'', ''SYN_SENT''), (''03'', ''SYN_RECV''),
      (''04'', ''FIN_WAIT1''), (''05'', ''FIN_WAIT2''), (''06'', ''TIME_WAIT''),
      (''07'', ''CLOSE''), (''08'', ''CLOSE_WAIT''), (''09'', ''LAST_ACK''),
      (''0A'', ''LISTEN''), (''0B'', ''CLOSING''), (''0C'', ''NEW_SYN_RECV'')]"

definition tcp_state_name :: "string \<Rightarrow> string" where
  "tcp_state_name state =
     (case map_of tcp_state_names state of
        None \<Rightarrow> ''UNKNOWN('' @ state @ '')''
      | Some name \<Rightarrow> name)"

definition parse_tcp_line :: "ntop \<Rightarrow> string \<Rightarrow> bool \<Rightarrow> string + tcp_connection_info" where
  "parse_tcp_line inet_ntop line ipv6 =
     (let fs = read_loop read_token line in
      if length fs < 10 then Inl ''not enough fields in /proc/net/tcp line''
      else
     (case (parse_endpoint inet_ntop (fs ! 1) ipv6, parse_endpoint inet_ntop (fs ! 2) ipv6) of
        (Some (laddr, lport), Some (raddr, rport)) \<Rightarrow>
          (case from_chars_u64 10 (fs ! 9) of
             None \<Rightarrow> Inl ''invalid inode in /proc/net/tcp line''
           | Some ino \<Rightarrow>
               Inr \<lparr> protocol = (if ipv6 then ''tcp6'' else ''tcp4''),
                     local_address = laddr, local_port = lport,
                     remote_address = raddr, remote_port = rport,
                     tcp_state = tcp_state_name (fs ! 3), inode = ino, tcp_pid = 0 \<rparr>)
      | _ \<Rightarrow> Inl ''invalid endpoint in /proc/net/tcp line''))"

section \<open>The connections\<close>

text \<open>The first line is the header; a line that does not parse is skipped.\<close>

definition read_tcp_file ::
  "ntop \<Rightarrow> file_reader \<Rightarrow> path \<Rightarrow> bool \<Rightarrow> tcp_connection_info list \<Rightarrow>
   string + tcp_connection_info list" where
  "read_tcp_file inet_ntop read_file path ipv6 connections =
     (case read_file path of
        Inl _ \<Rightarrow> Inl (''failed to open '' @ path)
      | Inr contents \<Rightarrow>
          Inr (foldl (\<lambda>cs line. case parse_tcp_line inet_ntop line ipv6 of
                                   Inl _ \<Rightarrow> cs | Inr connection \<Rightarrow> cs @ [connection])
                 connections (drop 1 (getlines CHR 0x0A contents))))"

text \<open>What one symbolic link adds to the map from socket inodes to processes.\<close>

definition socket_inode :: "string \<Rightarrow> u64 option" where
  "socket_inode target =
     (if prefix ''socket:['' target \<and> last target = CHR '']''
      then from_chars_u64 10 (substr target 8 (length target - 9)) else None)"

definition add_link :: "u64 \<Rightarrow> (u64 \<rightharpoonup> i32) \<Rightarrow> string option \<Rightarrow> (u64 \<rightharpoonup> i32)" where
  "add_link pid_value result link =
     (case Option.bind link socket_inode of
        None \<Rightarrow> result
      | Some ino \<Rightarrow> (if result ino = None then result(ino \<mapsto> ucast pid_value) else result))"

definition add_process :: "(u64 \<rightharpoonup> i32) \<Rightarrow> string \<times> string option list \<Rightarrow> (u64 \<rightharpoonup> i32)" where
  "add_process result entry =
     (case from_chars_u64 10 (fst entry) of
        None \<Rightarrow> result
      | Some pid_value \<Rightarrow>
          if 0 < unat pid_value \<and> unat pid_value \<le> i32_max
          then foldl (add_link pid_value) result (snd entry) else result)"

definition build_socket_pid_map :: "(string \<times> string option list) list \<Rightarrow> (u64 \<rightharpoonup> i32)" where
  "build_socket_pid_map proc_entries = foldl add_process (\<lambda>_. None) proc_entries"

definition set_pid :: "(u64 \<rightharpoonup> i32) \<Rightarrow> tcp_connection_info \<Rightarrow> tcp_connection_info" where
  "set_pid socket_pids connection =
     (case socket_pids (inode connection) of
        None \<Rightarrow> connection
      | Some pid \<Rightarrow> connection \<lparr> tcp_pid := pid \<rparr>)"

definition list_tcp_connections ::
  "ntop \<Rightarrow> file_reader \<Rightarrow> (string \<times> string option list) list \<Rightarrow>
   string + tcp_connection_info list" where
  "list_tcp_connections inet_ntop read_file proc_entries =
     (case read_tcp_file inet_ntop read_file ''/proc/net/tcp'' False [] of
        Inl error \<Rightarrow> Inl error
      | Inr connections \<Rightarrow>
          (let connections =
                 (case read_tcp_file inet_ntop read_file ''/proc/net/tcp6'' True connections of
                    Inl _ \<Rightarrow> connections | Inr connections \<Rightarrow> connections)
           in Inr (map (set_pid (build_socket_pid_map proc_entries)) connections)))"

section \<open>The interfaces\<close>

datatype if_address = Inet "u8 list" | Inet6 "u8 list" | OtherFamily

type_synonym ifaddrs = "string option \<times> if_address option"

definition empty_interface :: network_interface_info where
  "empty_interface =
     \<lparr> if_name = [], ipv4_addresses = [], ipv6_addresses = [], rx_bytes = 0, tx_bytes = 0, if_state = [] \<rparr>"

text \<open>\<open>map[name]\<close> on a map kept in key order: the entry is created where it is missing.\<close>

fun upsert :: "string \<Rightarrow> ('v \<Rightarrow> 'v) \<Rightarrow> 'v \<Rightarrow> (string \<times> 'v) list \<Rightarrow> (string \<times> 'v) list" where
  "upsert k f d [] = [(k, f d)]"
| "upsert k f d ((k', v) # m) =
     (if k < k' then (k, f d) # (k', v) # m
      else if k = k' then (k, f v) # m
      else (k', v) # upsert k f d m)"

definition add_address ::
  "ntop \<Rightarrow> if_address option \<Rightarrow> network_interface_info \<Rightarrow> network_interface_info" where
  "add_address inet_ntop address interface =
     (case address of
        Some (Inet bytes) \<Rightarrow>
          (case inet_ntop False bytes of None \<Rightarrow> interface
           | Some buffer \<Rightarrow> interface \<lparr> ipv4_addresses := ipv4_addresses interface @ [buffer] \<rparr>)
      | Some (Inet6 bytes) \<Rightarrow>
          (case inet_ntop True bytes of None \<Rightarrow> interface
           | Some buffer \<Rightarrow> interface \<lparr> ipv6_addresses := ipv6_addresses interface @ [buffer] \<rparr>)
      | _ \<Rightarrow> interface)"

definition add_entry ::
  "ntop \<Rightarrow> (string \<times> network_interface_info) list \<Rightarrow> ifaddrs \<Rightarrow>
   (string \<times> network_interface_info) list" where
  "add_entry inet_ntop by_name entry =
     (case fst entry of
        None \<Rightarrow> by_name
      | Some name \<Rightarrow>
          upsert name (\<lambda>interface. add_address inet_ntop (snd entry) (interface \<lparr> if_name := name \<rparr>))
            empty_interface by_name)"

definition read_text_file :: "file_reader \<Rightarrow> path \<Rightarrow> string" where
  "read_text_file read_file path =
     (case read_file path of
        Inl _ \<Rightarrow> []
      | Inr contents \<Rightarrow> (case getline CHR 0x0A contents of None \<Rightarrow> [] | Some (value, _) \<Rightarrow> value))"

definition read_counter :: "file_reader \<Rightarrow> path \<Rightarrow> u64" where
  "read_counter read_file path =
     (case read_file path of
        Inl _ \<Rightarrow> 0
      | Inr contents \<Rightarrow> (case read_u64 contents of None \<Rightarrow> 0 | Some (value, _) \<Rightarrow> value))"

definition complete_interface :: "file_reader \<Rightarrow> network_interface_info \<Rightarrow> network_interface_info" where
  "complete_interface read_file interface =
     (let base = ''/sys/class/net/'' @ if_name interface;
          state = read_text_file read_file (base @ ''/operstate'')
      in interface \<lparr> rx_bytes := read_counter read_file (base @ ''/statistics/rx_bytes''),
                     tx_bytes := read_counter read_file (base @ ''/statistics/tx_bytes''),
                     if_state := (if state = [] then ''unknown'' else state) \<rparr>)"

definition get_interfaces ::
  "ntop \<Rightarrow> file_reader \<Rightarrow> string + ifaddrs list \<Rightarrow> string + network_interface_info list" where
  "get_interfaces inet_ntop read_file getifaddrs =
     (case getifaddrs of
        Inl message \<Rightarrow> Inl (''getifaddrs failed: '' @ message)
      | Inr entries \<Rightarrow>
          Inr (map (\<lambda>(_, interface). complete_interface read_file interface)
                 (foldl (add_entry inet_ntop) [] entries)))"

section \<open>Reading back what the kernel prints\<close>

text \<open>
  The kernel prints an address as words of eight digits, each the value of four bytes in the
  byte order of the machine, and the port with four digits.
\<close>

definition word_bytes :: "nat \<Rightarrow> u8 list" where
  "word_bytes w = map (\<lambda>k. word_of_nat (w div 256 ^ k)) [0..<4]"

definition address_text :: "nat list \<Rightarrow> string" where
  "address_text ws = concat (map (show_fixed 16 8) ws)"

definition endpoint_text :: "nat list \<Rightarrow> nat \<Rightarrow> string" where
  "endpoint_text ws port = address_text ws @ '':'' @ show_fixed 16 4 port"

lemma show_fixed_append: "show_fixed b (j + k) n = show_fixed b j (n div b ^ k) @ show_fixed b k n"
proof (induction k arbitrary: n)
  case 0
  then show ?case by simp
next
  case (Suc k)
  have "n div b div b ^ k = n div b ^ Suc k"
    by (simp add: div_mult2_eq)
  then show ?case
    using Suc [of "n div b"] by simp
qed

lemma substr_word:
  assumes "byte < 4"
  shows "substr (show_fixed 16 8 n) ((3 - byte) * 2) 2 = show_fixed 16 2 (n div 256 ^ byte)"
proof -
  have a: "show_fixed 16 8 n = show_fixed 16 (6 - 2 * byte) (n div 16 ^ (2 * byte + 2)) @ show_fixed 16 (2 * byte + 2) n"
    using assms show_fixed_append [of 16 "6 - 2 * byte" "2 * byte + 2" n] by simp
  have b: "show_fixed 16 (2 * byte + 2) n = show_fixed 16 2 (n div 16 ^ (2 * byte)) @ show_fixed 16 (2 * byte) n"
    using show_fixed_append [of 16 2 "2 * byte" n] by (simp only: add.commute)
  have "(3 - byte) * 2 = length (show_fixed 16 (6 - 2 * byte) (n div 16 ^ (2 * byte + 2)))"
    using assms by simp
  moreover have "(16 :: nat) ^ (2 * byte) = 256 ^ byte"
    by (simp add: power_mult)
  ultimately show ?thesis
    by (simp only: a b substr_def append_eq_conv_conj [THEN iffD1, OF refl, THEN conjunct2, symmetric]) simp
qed

lemma substr_address:
  "w < length ws \<Longrightarrow> off \<le> 6 \<Longrightarrow>
   substr (address_text ws) (w * 8 + off) 2 = substr (show_fixed 16 8 (ws ! w)) off 2"
proof (induction ws arbitrary: w)
  case (Cons x ws)
  then show ?case
    by (cases w) (auto simp: address_text_def substr_def)
qed simp

lemma parse_address_word:
  assumes "w < length ws"
  shows "map (\<lambda>byte. map_option ucast (from_chars_u64 16 (substr (address_text ws) (w * 8 + (3 - byte) * 2) 2))) [0..<4]
    = map Some (word_bytes (ws ! w))"
proof -
  have "map_option ucast (from_chars_u64 16 (substr (address_text ws) (w * 8 + (3 - byte) * 2) 2))
      = Some (word_of_nat (ws ! w div 256 ^ byte) :: u8)" if "byte < 4" for byte
  proof -
    have "substr (address_text ws) (w * 8 + (3 - byte) * 2) 2 = show_fixed 16 2 (ws ! w div 256 ^ byte)"
      using assms that by (simp add: substr_address substr_word)
    moreover have "ucast (word_of_nat (n mod 256) :: u64) = (word_of_nat n :: u8)" for n
      by (rule word_unat_eq_iff [THEN iffD2]) (simp add: unat_of_nat unsigned_ucast_eq take_bit_eq_mod mod_mod_cancel)
    ultimately show ?thesis
      by (simp add: from_chars_show_fixed)
  qed
  then show ?thesis
    unfolding word_bytes_def map_map comp_def by (intro map_cong refl) (simp only: set_upt atLeastLessThan_iff)
qed

lemma those_map_Some: "those (map Some xs) = Some xs"
  by (induction xs) simp_all

lemma parse_address_text: "parse_address_bytes (address_text ws) (length ws) = Some (concat (map word_bytes ws))"
proof -
  have "map (\<lambda>w. map (\<lambda>byte. map_option ucast (from_chars_u64 16
          (substr (address_text ws) (w * 8 + (3 - byte) * 2) 2))) [0..<4]) [0..<length ws]
      = map (\<lambda>w. map Some (word_bytes (ws ! w))) [0..<length ws]"
    by (rule map_cong [OF refl], rule parse_address_word) simp
  then have "parse_address_bytes (address_text ws) (length ws)
      = those (concat (map (\<lambda>w. map Some (word_bytes (ws ! w))) [0..<length ws]))"
    unfolding parse_address_bytes_def by (rule arg_cong)
  also have "concat (map (\<lambda>w. map Some (word_bytes (ws ! w))) [0..<length ws])
      = map Some (concat (map (\<lambda>w. word_bytes (ws ! w)) [0..<length ws]))"
    by (simp add: map_concat comp_def)
  also have "map (\<lambda>w. word_bytes (ws ! w)) [0..<length ws] = map word_bytes ws"
    by (rule nth_equalityI) (simp_all del: upt_Suc)
  finally show ?thesis
    by (simp add: those_map_Some)
qed

lemma length_address_text: "length (address_text ws) = 8 * length ws"
  by (induction ws) (simp_all add: address_text_def)

lemma digit_of_16_plain: "digit_of 16 c \<Longrightarrow> c \<noteq> CHR '':'' \<and> \<not> isspace c"
  by (auto simp: digit_of_def digit_value_def isspace_def Let_def split: if_splits)

lemma show_fixed_plain: "c \<in> set (show_fixed 16 k n) \<Longrightarrow> c \<noteq> CHR '':'' \<and> \<not> isspace c"
  using show_fixed_digits [of 16 k n] digit_of_16_plain by simp

lemma address_text_plain: "c \<in> set (address_text ws) \<Longrightarrow> c \<noteq> CHR '':'' \<and> \<not> isspace c"
  using show_fixed_plain by (auto simp: address_text_def)

lemma parse_endpoint_split:
  assumes "CHR '':'' \<notin> set a"
  shows "parse_endpoint inet_ntop (a @ CHR '':'' # p) ipv6 =
     do {
       parsed_port \<leftarrow> from_chars_u64 16 p;
       if unat parsed_port > 65535 \<or> length a \<noteq> (if ipv6 then 32 else 8) then None
       else do {
         bytes \<leftarrow> parse_address_bytes a (if ipv6 then 4 else 1);
         address \<leftarrow> inet_ntop ipv6 bytes;
         Some (address, ucast parsed_port)
       }
     }"
proof -
  have "find_char CHR '':'' (a @ CHR '':'' # p) = Some (length a)"
    using assms by (rule find_char_append)
  moreover have "take (length a) (a @ CHR '':'' # p) = a" "drop (length a + 1) (a @ CHR '':'' # p) = p"
    by simp_all
  ultimately show ?thesis
    by (simp only: parse_endpoint_def Let_def bind.bind_lunit)
qed

lemma parse_endpoint_text:
  assumes "length ws = (if ipv6 then 4 else 1)" "port \<le> 65535"
  shows "parse_endpoint inet_ntop (endpoint_text ws port) ipv6 =
    map_option (\<lambda>address. (address, word_of_nat port)) (inet_ntop ipv6 (concat (map word_bytes ws)))"
proof -
  have port: "port mod 16 ^ 4 = port" and small: "port \<le> u64_max"
    using assms(2) by simp_all
  have "CHR '':'' \<notin> set (address_text ws)"
    using address_text_plain by blast
  moreover have "from_chars_u64 16 (show_fixed 16 4 port) = Some (word_of_nat port)"
    using from_chars_show_fixed [of 4 port] port by simp
  moreover have u: "unat (word_of_nat port :: u64) = port"
    using small by (rule unat_of_nat_u64)
  moreover have "ucast (word_of_nat port :: u64) = (word_of_nat port :: u32)"
    using of_nat_unat [of "word_of_nat port :: u64", where 'a = u32] u by metis
  moreover have "parse_address_bytes (address_text ws) (if ipv6 then 4 else 1) = Some (concat (map word_bytes ws))"
    using parse_address_text [of ws] assms(1) by simp
  moreover have "length (address_text ws) = (if ipv6 then 32 else 8)"
    using assms(1) by (simp add: length_address_text)
  ultimately show ?thesis
    using assms(2)
    by (cases "inet_ntop ipv6 (concat (map word_bytes ws))") (simp_all add: endpoint_text_def parse_endpoint_split)
qed

lemma endpoint_text_token: "endpoint_text ws port \<noteq> [] \<and> (\<forall>c \<in> set (endpoint_text ws port). \<not> isspace c)"
  using address_text_plain show_fixed_plain by (auto simp: endpoint_text_def isspace_def)

text \<open>
  The text of a line: each field after its padding, and the padding at the end.  The first field may
  have no padding.
\<close>

definition padded_text :: "(string \<times> string) list \<Rightarrow> string \<Rightarrow> string" where
  "padded_text columns ending = concat (map (\<lambda>(padding, t). padding @ t) columns) @ ending"

definition padding_ok :: "(string \<times> string) list \<Rightarrow> string \<Rightarrow> bool" where
  "padding_ok columns ending \<longleftrightarrow>
     list_all (\<lambda>(padding, t). list_all isspace padding \<and> t \<noteq> [] \<and> list_all (\<lambda>c. \<not> isspace c) t) columns \<and>
     list_all (\<lambda>(padding, _). padding \<noteq> []) (tl columns) \<and> list_all isspace ending"

lemma read_token_padding: "list_all isspace padding \<Longrightarrow> read_token (padding @ s) = read_token s"
  by (simp add: read_token_def skip_ws_blanks list_all_iff)

lemma ends_field_padded:
  assumes "padding_ok columns ending" "list_all (\<lambda>(padding, _). padding \<noteq> []) columns"
  shows "ends_field (padded_text columns ending)"
proof (cases columns)
  case Nil
  then show ?thesis
    using assms(1) by (cases ending) (simp_all add: padded_text_def padding_ok_def)
next
  case (Cons f rest)
  then show ?thesis
    using assms by (cases "fst f") (auto simp: padded_text_def padding_ok_def)
qed

lemma padding_ok_tail: "padding_ok (f # columns) ending \<Longrightarrow> padding_ok columns ending"
  by (cases columns) (auto simp: padding_ok_def)

lemma read_padded: "padding_ok columns ending \<Longrightarrow> read_loop read_token (padded_text columns ending) = map snd columns"
proof (induction columns)
  case Nil
  then have "read_token ending = None"
    using read_token_padding [of ending "[]"] by (simp add: padding_ok_def read_token_def skip_ws_def)
  then show ?case
    by (simp add: padded_text_def tokens.loop_stop)
next
  case (Cons f columns)
  obtain padding t where f: "f = (padding, t)"
    by fastforce
  have ok: "padding_ok columns ending"
    using Cons.prems by (rule padding_ok_tail)
  have "ends_field (padded_text columns ending)"
    using Cons.prems by (intro ends_field_padded [OF ok]) (simp add: padding_ok_def)
  then have "read_token (t @ padded_text columns ending) = Some (t, padded_text columns ending)"
    using Cons.prems by (intro read_token_word) (simp_all add: padding_ok_def f list_all_iff)
  then have "read_token (padding @ t @ padded_text columns ending) = Some (t, padded_text columns ending)"
    using Cons.prems by (simp add: read_token_padding padding_ok_def f)
  moreover have "padded_text (f # columns) ending = padding @ t @ padded_text columns ending"
    by (simp add: padded_text_def f)
  ultimately show ?case
    using Cons.IH [OF ok] by (simp add: tokens.loop_step f)
qed

text \<open>
  C30.  A line of the table is read back, however its fields are padded: each address is the bytes
  that the kernel printed, in network order, the ports and the inode have their values, and the
  fields that the program does not use can be anything without white space.
\<close>

theorem parse_tcp_line_text:
  assumes "padding_ok columns ending" "10 \<le> length columns"
    and "snd (columns ! 1) = endpoint_text local_words lport" "snd (columns ! 2) = endpoint_text remote_words rport"
    and "snd (columns ! 9) = show_nat ino"
    and "length local_words = (if ipv6 then 4 else 1)" "length remote_words = (if ipv6 then 4 else 1)"
    and "lport \<le> 65535" "rport \<le> 65535" "ino \<le> u64_max"
    and "inet_ntop ipv6 (concat (map word_bytes local_words)) = Some laddr"
    and "inet_ntop ipv6 (concat (map word_bytes remote_words)) = Some raddr"
  shows "parse_tcp_line inet_ntop (padded_text columns ending) ipv6 =
    Inr \<lparr> protocol = (if ipv6 then ''tcp6'' else ''tcp4''),
          local_address = laddr, local_port = word_of_nat lport,
          remote_address = raddr, remote_port = word_of_nat rport,
          tcp_state = tcp_state_name (snd (columns ! 3)), inode = word_of_nat ino, tcp_pid = 0 \<rparr>"
proof -
  have "read_loop read_token (padded_text columns ending) = map snd columns"
    by (rule read_padded [OF assms(1)])
  then show ?thesis
    using assms by (simp add: parse_tcp_line_def parse_endpoint_text from_chars_show_nat)
qed

definition dotted_decimal :: "ntop" where
  "dotted_decimal ipv6 bytes =
     (if ipv6 then None else Some (join ''.'' (map (\<lambda>b. show_nat (unat b)) bytes)))"

theorem parse_tcp_line_text_witness:
  "map_sum id local_address (parse_tcp_line dotted_decimal
     ''   0: 0100007F:C383 0200A8C0:0016 0A 00000000:00000000 00:00000000 00000000  1000        0 4711 1 00000000 100 0 0 10 0     ''
     False) = Inr ''127.0.0.1''"
proof -
  let ?columns = "[(''   '', ''0:''), ('' '', endpoint_text [16777343] 50051), ('' '', endpoint_text [33597632] 22), ('' '', ''0A''),
    ('' '', ''00000000:00000000''), ('' '', ''00:00000000''), ('' '', ''00000000''), (''  '', ''1000''), (''        '', ''0''),
    ('' '', show_nat 4711), ('' '', ''1''), ('' '', ''00000000''), ('' '', ''100''), ('' '', ''0''), ('' '', ''0''), ('' '', ''10''),
    ('' '', ''0'')]"
  have l: "padded_text ?columns ''     '' =
      ''   0: 0100007F:C383 0200A8C0:0016 0A 00000000:00000000 00:00000000 00000000  1000        0 4711 1 00000000 100 0 0 10 0     ''"
    by code_simp
  have "padding_ok ?columns ''     ''"
    by code_simp
  moreover have "dotted_decimal False (concat (map word_bytes [16777343])) = Some ''127.0.0.1''"
    and "dotted_decimal False (concat (map word_bytes [33597632])) = Some ''192.168.0.2''"
    by code_simp+
  ultimately show ?thesis
    using parse_tcp_line_text [of ?columns "''     ''" "[16777343]" 50051 "[33597632]" 22 4711 False dotted_decimal
        "''127.0.0.1''" "''192.168.0.2''"] unfolding l by simp
qed

lemma tcp_state_name_cases:
  obtains "tcp_state_name s = ''UNKNOWN('' @ s @ '')''" | "(s, tcp_state_name s) \<in> set tcp_state_names"
proof (cases "map_of tcp_state_names s")
  case None
  then show ?thesis using that(1) unfolding tcp_state_name_def by simp
next
  case (Some name)
  then show ?thesis using that(2) unfolding tcp_state_name_def by (simp add: map_of_SomeD)
qed

lemma tcp_state_names_known: "(s, name) \<in> set tcp_state_names \<Longrightarrow> name \<noteq> ''UNKNOWN('' @ t @ '')''"
proof -
  have "list_all (\<lambda>(_, name). name = [] \<or> hd name \<noteq> CHR ''U'') tcp_state_names"
    by code_simp
  then show "(s, name) \<in> set tcp_state_names \<Longrightarrow> name \<noteq> ''UNKNOWN('' @ t @ '')''"
    by (auto simp: list_all_iff)
qed

lemma tcp_state_names_distinct:
  "(s, name) \<in> set tcp_state_names \<Longrightarrow> (t, name) \<in> set tcp_state_names \<Longrightarrow> s = t"
proof -
  have "distinct (map prod.swap tcp_state_names) \<and> distinct (map fst (map prod.swap tcp_state_names))"
    by code_simp
  then show "(s, name) \<in> set tcp_state_names \<Longrightarrow> (t, name) \<in> set tcp_state_names \<Longrightarrow> s = t"
    by (metis (no_types, lifting) eq_key_imp_eq_value image_eqI list.set_map swap_simp)
qed

text \<open>
  The name of a connection state identifies the state: no two state codes have the same
  name, and a code that the kernel may add later gives a name that is none of the known ones.
\<close>

theorem tcp_state_name_inj: "tcp_state_name s = tcp_state_name t \<longleftrightarrow> s = t"
proof
  assume eq: "tcp_state_name s = tcp_state_name t"
  show "s = t"
  proof (cases s rule: tcp_state_name_cases)
    case 1
    show ?thesis
    proof (cases t rule: tcp_state_name_cases)
      case 2
      then show ?thesis using eq 1 tcp_state_names_known by metis
    qed (use eq 1 in simp)
  next
    case 2
    show ?thesis
      using eq 2 tcp_state_names_known tcp_state_names_distinct
      by (cases t rule: tcp_state_name_cases) metis+
  qed
qed simp

section \<open>The connections and their processes\<close>

text \<open>The sockets that the scan sees, in its order.\<close>

definition process_sockets :: "string \<times> string option list \<Rightarrow> (u64 \<times> i32) list" where
  "process_sockets entry =
     (case from_chars_u64 10 (fst entry) of
        None \<Rightarrow> []
      | Some pid \<Rightarrow>
          if 0 < unat pid \<and> unat pid \<le> i32_max
          then map (\<lambda>i. (i, ucast pid)) (List.map_filter (\<lambda>l. Option.bind l socket_inode) (snd entry))
          else [])"

definition valid_lines :: "ntop \<Rightarrow> bool \<Rightarrow> string \<Rightarrow> tcp_connection_info list" where
  "valid_lines inet_ntop ipv6 contents =
     List.map_filter (\<lambda>line. case parse_tcp_line inet_ntop line ipv6 of Inl _ \<Rightarrow> None | Inr c \<Rightarrow> Some c)
       (drop 1 (getlines CHR 0x0A contents))"

lemma foldl_add_link:
  "foldl (add_link pid) m links =
     map_of (map (\<lambda>i. (i, ucast pid)) (List.map_filter (\<lambda>l. Option.bind l socket_inode) links)) ++ m"
proof (induction links arbitrary: m)
  case Nil
  then show ?case by (simp add: map_filter_simps)
next
  case (Cons l links)
  have "add_link pid m l = (case Option.bind l socket_inode of None \<Rightarrow> m | Some i \<Rightarrow> [i \<mapsto> ucast pid] ++ m)"
    by (auto simp: add_link_def map_add_def fun_eq_iff split: option.splits)
  moreover have "n ++ ([i \<mapsto> p] ++ m) = n(i \<mapsto> p) ++ m" for n :: "u64 \<rightharpoonup> i32" and i p
    by (simp add: map_add_def fun_eq_iff split: option.split)
  ultimately show ?case
    using Cons by (cases "Option.bind l socket_inode") (simp_all add: map_filter_simps fun_upd_def)
qed

lemma add_process_sockets: "add_process m entry = map_of (process_sockets entry) ++ m"
  by (auto simp: add_process_def process_sockets_def foldl_add_link split: option.splits)

lemma build_socket_pid_map_sockets:
  "build_socket_pid_map entries = map_of (concat (map process_sockets entries))"
proof -
  have "foldl add_process m entries = map_of (concat (map process_sockets entries)) ++ m" for m
    by (induction entries arbitrary: m) (simp_all add: add_process_sockets map_of_append map_add_assoc)
  then show ?thesis by (simp add: build_socket_pid_map_def)
qed

lemma read_tcp_file_lines:
  "read_tcp_file inet_ntop read_file path ipv6 cs =
     (case read_file path of Inl _ \<Rightarrow> Inl (''failed to open '' @ path)
      | Inr contents \<Rightarrow> Inr (cs @ valid_lines inet_ntop ipv6 contents))"
proof -
  have "foldl (\<lambda>cs line. case parse_tcp_line inet_ntop line ipv6 of Inl _ \<Rightarrow> cs | Inr c \<Rightarrow> cs @ [c]) cs ls =
    cs @ List.map_filter (\<lambda>line. case parse_tcp_line inet_ntop line ipv6 of Inl _ \<Rightarrow> None | Inr c \<Rightarrow> Some c) ls"
    for ls
    by (induction ls arbitrary: cs) (auto simp: map_filter_simps split: sum.split)
  then show ?thesis
    by (simp add: read_tcp_file_def valid_lines_def split: sum.split)
qed

lemma parse_tcp_line_pid: "parse_tcp_line inet_ntop line ipv6 = Inr c \<Longrightarrow> tcp_pid c = 0"
  by (auto simp: parse_tcp_line_def Let_def split: if_splits option.splits)

lemma valid_lines_pid: "c \<in> set (valid_lines inet_ntop ipv6 contents) \<Longrightarrow> tcp_pid c = 0"
  by (auto simp: valid_lines_def map_filter_def split: sum.splits dest!: parse_tcp_line_pid)

text \<open>
  C31.  The connections are the lines of \<open>/proc/net/tcp\<close> that parse, then those of
  \<open>/proc/net/tcp6\<close> if that file is there, in the order of the files; each carries the pid of
  the first process of the scan that holds its socket, and 0 where none does.  Only a missing
  \<open>/proc/net/tcp\<close> is an error.
\<close>

theorem list_tcp_connections_eq:
  "list_tcp_connections inet_ntop read_file proc_entries =
     (case read_file ''/proc/net/tcp'' of
        Inl _ \<Rightarrow> Inl ''failed to open /proc/net/tcp''
      | Inr tcp \<Rightarrow>
          Inr (map (\<lambda>c. c \<lparr> tcp_pid := (case map_of (concat (map process_sockets proc_entries)) (inode c) of
                                         None \<Rightarrow> 0 | Some pid \<Rightarrow> pid) \<rparr>)
            (valid_lines inet_ntop False tcp @
             (case read_file ''/proc/net/tcp6'' of
                Inl _ \<Rightarrow> [] | Inr tcp6 \<Rightarrow> valid_lines inet_ntop True tcp6))))"
proof -
  have "set_pid m c = c \<lparr> tcp_pid := (case m (inode c) of None \<Rightarrow> 0 | Some pid \<Rightarrow> pid) \<rparr>"
    if "tcp_pid c = 0" for m c
    using that by (cases c) (simp add: set_pid_def split: option.split)
  then show ?thesis
    by (auto simp: list_tcp_connections_def read_tcp_file_lines build_socket_pid_map_sockets
        dest: valid_lines_pid split: sum.splits)
qed

section \<open>The map of interfaces\<close>

definition sorted_keys :: "(string \<times> 'v) list \<Rightarrow> bool" where
  "sorted_keys m \<longleftrightarrow> sorted_wrt (<) (map fst m)"

lemma upsert_keys: "fst ` set (upsert k f d m) = insert k (fst ` set m)"
  by (induction k f d m rule: upsert.induct) auto

lemma upsert_sorted: "sorted_keys m \<Longrightarrow> sorted_keys (upsert k f d m)"
proof (induction k f d m rule: upsert.induct)
  case (2 k f d k' v m)
  have "fst ` set (upsert k f d m) = insert k (fst ` set m)"
    by (rule upsert_keys)
  with 2 show ?case
    by (auto simp: sorted_keys_def not_less_iff_gr_or_eq split: if_splits)
qed (simp add: sorted_keys_def)

lemma upsert_lookup:
  "sorted_keys m \<Longrightarrow> map_of (upsert k f d m) = (map_of m)(k \<mapsto> f (case map_of m k of None \<Rightarrow> d | Some v \<Rightarrow> v))"
proof (induction k f d m rule: upsert.induct)
  case (2 k f d k' v m)
  show ?case
  proof (cases "k < k'")
    case True
    then have "map_of ((k', v) # m) k = None"
      using 2 by (auto simp: sorted_keys_def map_of_eq_None_iff)
    with True show ?thesis by (auto simp: fun_eq_iff)
  next
    case False
    have "sorted_keys m"
      using 2(2) by (simp add: sorted_keys_def)
    then show ?thesis
      using False 2(1) by (cases "k = k'") (auto simp: fun_eq_iff)
  qed
qed simp

text \<open>The addresses of one family that the list has for a name, in its order.\<close>

definition addresses_of :: "ntop \<Rightarrow> bool \<Rightarrow> string \<Rightarrow> ifaddrs list \<Rightarrow> string list" where
  "addresses_of inet_ntop ipv6 name entries =
     List.map_filter (\<lambda>(n, a).
       if n \<noteq> Some name then None
       else (case a of
               Some (Inet bytes) \<Rightarrow> if ipv6 then None else inet_ntop False bytes
             | Some (Inet6 bytes) \<Rightarrow> if ipv6 then inet_ntop True bytes else None
             | _ \<Rightarrow> None)) entries"

definition interface_names :: "ifaddrs list \<Rightarrow> string set" where
  "interface_names entries = {name. Some name \<in> fst ` set entries}"

definition gathered :: "ntop \<Rightarrow> ifaddrs list \<Rightarrow> string \<Rightarrow> network_interface_info" where
  "gathered inet_ntop entries name =
     empty_interface \<lparr> if_name := name, ipv4_addresses := addresses_of inet_ntop False name entries,
       ipv6_addresses := addresses_of inet_ntop True name entries \<rparr>"

lemma addresses_of_Nil: "addresses_of inet_ntop v6 name [] = []"
  by (simp add: addresses_of_def map_filter_simps)

lemma map_filter_append: "List.map_filter f (xs @ ys) = List.map_filter f xs @ List.map_filter f ys"
  by (induction xs) (simp_all add: map_filter_simps split: option.split)

lemma addresses_of_snoc:
  "addresses_of inet_ntop v6 name (es @ [e]) = addresses_of inet_ntop v6 name es @ addresses_of inet_ntop v6 name [e]"
  by (simp add: addresses_of_def map_filter_append)

lemma addresses_of_other: "fst e \<noteq> Some name \<Longrightarrow> addresses_of inet_ntop v6 name [e] = []"
  by (cases e) (simp add: addresses_of_def map_filter_simps)

lemma addresses_of_unnamed: "Some name \<notin> fst ` set es \<Longrightarrow> addresses_of inet_ntop v6 name es = []"
proof (induction es rule: rev_induct)
  case (snoc e es)
  then have "fst e \<noteq> Some name" by auto
  with snoc show ?case by (simp add: addresses_of_snoc addresses_of_other)
qed (simp add: addresses_of_Nil)

lemma add_address_gathered:
  "add_address inet_ntop a (gathered inet_ntop es name) = gathered inet_ntop (es @ [(Some name, a)]) name"
  by (auto simp: add_address_def gathered_def addresses_of_snoc empty_interface_def
      addresses_of_def [of _ _ _ "[_]"] map_filter_simps split: option.splits if_address.splits)

lemma add_entry_simps:
  "add_entry inet_ntop m (None, a) = m"
  "add_entry inet_ntop m (Some name, a) =
     upsert name (\<lambda>interface. add_address inet_ntop a (interface \<lparr> if_name := name \<rparr>)) empty_interface m"
  by (simp_all add: add_entry_def)

lemma add_entries:
  "sorted_keys (foldl (add_entry inet_ntop) [] es) \<and>
   map_of (foldl (add_entry inet_ntop) [] es) =
     (\<lambda>name. if name \<in> interface_names es then Some (gathered inet_ntop es name) else None)"
proof (induction es rule: rev_induct)
  case Nil
  then show ?case by (simp add: sorted_keys_def interface_names_def fun_eq_iff)
next
  case (snoc e es)
  let ?m = "foldl (add_entry inet_ntop) [] es"
  have sorted: "sorted_keys ?m" and lookup: "map_of ?m =
      (\<lambda>name. if name \<in> interface_names es then Some (gathered inet_ntop es name) else None)"
    using snoc by simp_all
  obtain n a where e: "e = (n, a)" by (cases e)
  show ?case
  proof (cases n)
    case None
    then have "interface_names (es @ [e]) = interface_names es"
      and "gathered inet_ntop (es @ [e]) = gathered inet_ntop es"
      by (auto simp: interface_names_def gathered_def addresses_of_snoc addresses_of_other e fun_eq_iff)
    then show ?thesis
      using sorted lookup None by (simp add: add_entry_simps e fun_eq_iff)
  next
    case (Some name)
    have new: "gathered inet_ntop es name = empty_interface \<lparr> if_name := name \<rparr>" if "name \<notin> interface_names es"
      using that by (simp add: gathered_def addresses_of_unnamed interface_names_def empty_interface_def)
    have named: "(gathered inet_ntop es name) \<lparr> if_name := name \<rparr> = gathered inet_ntop es name"
      by (simp add: gathered_def empty_interface_def)
    let ?f = "\<lambda>interface. add_address inet_ntop a (interface \<lparr> if_name := name \<rparr>)"
    have "?f (case map_of ?m name of None \<Rightarrow> empty_interface | Some v \<Rightarrow> v) = gathered inet_ntop (es @ [e]) name"
      using new named add_address_gathered [of inet_ntop a es name]
      by (cases "name \<in> interface_names es") (simp_all add: lookup e Some)
    moreover have "gathered inet_ntop (es @ [e]) other = gathered inet_ntop es other" if "other \<noteq> name" for other
      using that by (simp add: gathered_def addresses_of_snoc addresses_of_other e Some)
    moreover have "interface_names (es @ [e]) = insert name (interface_names es)"
      by (auto simp: interface_names_def e Some)
    moreover have "foldl (add_entry inet_ntop) [] (es @ [e]) = upsert name ?f empty_interface ?m"
      by (simp add: add_entry_simps e Some)
    ultimately show ?thesis
      using upsert_sorted [OF sorted] upsert_lookup [OF sorted, of name ?f empty_interface]
      by (simp add: lookup fun_eq_iff)
  qed
qed

text \<open>
  C32.  The interfaces are listed once each, in the order of their names; an interface has the
  addresses of both families that the system lists under its name, in the system's order, and
  its counters are those of \<open>/sys/class/net\<close>.
\<close>

theorem get_interfaces_correct:
  "\<exists>names. sorted_wrt (<) names \<and> set names = interface_names entries \<and>
     get_interfaces inet_ntop read_file (Inr entries) =
       Inr (map (\<lambda>name. complete_interface read_file (gathered inet_ntop entries name)) names)"
proof -
  let ?m = "foldl (add_entry inet_ntop) [] entries"
  have sorted: "sorted_wrt (<) (map fst ?m)"
    using add_entries [of inet_ntop entries] by (simp add: sorted_keys_def)
  then have distinct: "distinct (map fst ?m)"
    by (simp add: strict_sorted_iff)
  have member: "v = gathered inet_ntop entries k \<and> k \<in> interface_names entries" if "(k, v) \<in> set ?m" for k v
  proof -
    have "map_of ?m k = Some v"
      using that distinct by (rule map_of_is_SomeI [rotated])
    then show ?thesis
      using add_entries [of inet_ntop entries] by (auto split: if_splits)
  qed
  have "k \<in> fst ` set ?m" if "k \<in> interface_names entries" for k
  proof -
    have "map_of ?m k \<noteq> None"
      using that add_entries [of inet_ntop entries] by simp
    then show ?thesis by (simp add: map_of_eq_None_iff)
  qed
  then have "set (map fst ?m) = interface_names entries"
    using member by fastforce
  moreover have "map (\<lambda>(_, i). complete_interface read_file i) ?m =
      map (\<lambda>name. complete_interface read_file (gathered inet_ntop entries name)) (map fst ?m)"
    using member by (auto simp: comp_def)
  ultimately show ?thesis
    using sorted by (intro exI [of _ "map fst ?m"]) (simp add: get_interfaces_def)
qed

end
