(* ===== verification/System_Collector.thy ===== *)
theory System_Collector
  imports Cpp_Double
begin

text \<open>
  \<open>agent/src/SystemCollector.cpp\<close>: CPU usage, memory, load averages and uptime from
  \<open>/proc\<close>.  The collector remembers the CPU counters of its last successful read.  The
  files are a \<open>file_reader\<close>.  A result is an \<open>option\<close> where a cast may be undefined
  behaviour (\<open>None\<close>).
\<close>

section \<open>Data\<close>

record system_metrics =
  cpu_usage_percent :: double
  memory_total_bytes :: u64
  memory_available_bytes :: u64
  memory_used_bytes :: u64
  load_average_1m :: double
  load_average_5m :: double
  load_average_15m :: double
  uptime_seconds :: u64

definition empty_metrics :: system_metrics where
  "empty_metrics =
     \<lparr> cpu_usage_percent = Fin 0, memory_total_bytes = 0, memory_available_bytes = 0,
       memory_used_bytes = 0, load_average_1m = Fin 0, load_average_5m = Fin 0,
       load_average_15m = Fin 0, uptime_seconds = 0 \<rparr>"

record cpu_times =
  cpu_user :: u64
  cpu_nice :: u64
  cpu_system :: u64
  cpu_idle :: u64
  cpu_iowait :: u64
  cpu_irq :: u64
  cpu_softirq :: u64
  cpu_steal :: u64

text \<open>The sums are sums of \<open>std::uint64_t\<close>, modulo \<open>2^64\<close>.\<close>

definition cpu_total :: "cpu_times \<Rightarrow> u64" where
  "cpu_total t = cpu_user t + cpu_nice t + cpu_system t + cpu_idle t + cpu_iowait t + cpu_irq t
     + cpu_softirq t + cpu_steal t"

definition cpu_idle_total :: "cpu_times \<Rightarrow> u64" where
  "cpu_idle_total t = cpu_idle t + cpu_iowait t"

record system_collector =
  previous_cpu_times :: cpu_times
  has_previous_cpu_times :: bool

section \<open>CPU usage\<close>

text \<open>\<open>stream >> f1 >> ... >> fn\<close>: all values, or \<open>None\<close> as soon as one fails.\<close>

fun read_u64s :: "nat \<Rightarrow> string \<Rightarrow> u64 list option" where
  "read_u64s 0 s = Some []"
| "read_u64s (Suc n) s =
     do { (v, r) \<leftarrow> read_u64 s; vs \<leftarrow> read_u64s n r; Some (v # vs) }"

definition cpu_times_of :: "u64 list \<Rightarrow> cpu_times" where
  "cpu_times_of vs =
     \<lparr> cpu_user = vs ! 0, cpu_nice = vs ! 1, cpu_system = vs ! 2, cpu_idle = vs ! 3,
       cpu_iowait = vs ! 4, cpu_irq = vs ! 5, cpu_softirq = vs ! 6, cpu_steal = vs ! 7 \<rparr>"

definition read_cpu_times :: "file_reader \<Rightarrow> cpu_times option" where
  "read_cpu_times read_file =
     (case read_file ''/proc/stat'' of
        Inl _ \<Rightarrow> None
      | Inr contents \<Rightarrow>
          do {
            (line, _) \<leftarrow> getline CHR 0x0A contents;
            (label, rest) \<leftarrow> read_token line;
            counters \<leftarrow> read_u64s 8 rest;
            if label = ''cpu'' then Some (cpu_times_of counters) else None
          })"

text \<open>
  The constructor.  Where the read fails the counters are never looked at, since
  \<open>has_previous_cpu_times_\<close> is false.
\<close>

definition new_system_collector :: "file_reader \<Rightarrow> system_collector" where
  "new_system_collector read_file =
     (case read_cpu_times read_file of
        None \<Rightarrow> \<lparr> previous_cpu_times = cpu_times_of (replicate 8 0), has_previous_cpu_times = False \<rparr>
      | Some current \<Rightarrow> \<lparr> previous_cpu_times = current, has_previous_cpu_times = True \<rparr>)"

definition cpu_usage :: "cpu_times \<Rightarrow> cpu_times \<Rightarrow> double" where
  "cpu_usage previous current =
     (let previous_total = cpu_total previous; current_total = cpu_total current;
          previous_idle = cpu_idle_total previous; current_idle = cpu_idle_total current;
          total_delta = current_total - previous_total;
          idle_delta = current_idle - previous_idle
      in if current_total \<ge> previous_total \<and> current_idle \<ge> previous_idle \<and>
            total_delta \<noteq> 0 \<and> idle_delta \<le> total_delta
         then dmul (ddiv (double_of_u64 (total_delta - idle_delta)) (double_of_u64 total_delta)) (Fin 100)
         else Fin 0)"

definition collect_cpu_usage ::
  "file_reader \<Rightarrow> system_collector \<Rightarrow> system_collector \<times> (string + double)" where
  "collect_cpu_usage read_file st =
     (case read_cpu_times read_file of
        None \<Rightarrow> (st, Inl ''failed to parse /proc/stat'')
      | Some current \<Rightarrow>
          (\<lparr> previous_cpu_times = current, has_previous_cpu_times = True \<rparr>,
           Inr (if has_previous_cpu_times st then cpu_usage (previous_cpu_times st) current else Fin 0)))"

section \<open>Memory\<close>

text \<open>The values found so far: total and available memory in kilobytes.\<close>

definition meminfo_line ::
  "u64 option \<times> u64 option \<Rightarrow> string \<Rightarrow> u64 option \<times> u64 option" where
  "meminfo_line found line =
     (case do { (key, r) \<leftarrow> read_token line; (value, r) \<leftarrow> read_u64 r; (unit_text, _) \<leftarrow> read_token r;
                if unit_text \<noteq> ''kB'' then None else Some (key, value) } of
        None \<Rightarrow> found
      | Some (key, value) \<Rightarrow>
          if key = ''MemTotal:'' then (Some value, snd found)
          else if key = ''MemAvailable:'' then (fst found, Some value)
          else found)"

definition read_memory_metrics :: "file_reader \<Rightarrow> system_metrics \<Rightarrow> string + system_metrics" where
  "read_memory_metrics read_file metrics =
     (case read_file ''/proc/meminfo'' of
        Inl _ \<Rightarrow> Inl ''failed to open /proc/meminfo''
      | Inr contents \<Rightarrow>
          (case foldl meminfo_line (None, None) (getlines CHR 0x0A contents) of
             (Some total_kb, Some available_kb) \<Rightarrow>
               if unat total_kb > u64_max div 1024 \<or> available_kb > total_kb
               then Inl ''invalid memory values in /proc/meminfo''
               else Inr (metrics \<lparr> memory_total_bytes := total_kb * 1024,
                                   memory_available_bytes := available_kb * 1024,
                                   memory_used_bytes := total_kb * 1024 - available_kb * 1024 \<rparr>)
           | _ \<Rightarrow> Inl ''invalid memory values in /proc/meminfo''))"

section \<open>Load average and uptime\<close>

definition valid_load :: "double \<Rightarrow> bool" where
  "valid_load d \<longleftrightarrow> isfinite d \<and> \<not> dless d (Fin 0)"

definition read_load_average :: "file_reader \<Rightarrow> system_metrics \<Rightarrow> string + system_metrics" where
  "read_load_average read_file metrics =
     (case read_file ''/proc/loadavg'' of
        Inl _ \<Rightarrow> Inl ''failed to parse /proc/loadavg''
      | Inr contents \<Rightarrow>
          (case do { (l1, r) \<leftarrow> read_double contents; (l5, r) \<leftarrow> read_double r; (l15, _) \<leftarrow> read_double r;
                     Some (l1, l5, l15) } of
             None \<Rightarrow> Inl ''failed to parse /proc/loadavg''
           | Some (l1, l5, l15) \<Rightarrow>
               if \<not> valid_load l1 \<or> \<not> valid_load l5 \<or> \<not> valid_load l15
               then Inl ''failed to parse /proc/loadavg''
               else Inr (metrics \<lparr> load_average_1m := l1, load_average_5m := l5, load_average_15m := l15 \<rparr>)))"

definition read_uptime :: "file_reader \<Rightarrow> system_metrics \<Rightarrow> (string + system_metrics) option" where
  "read_uptime read_file metrics =
     (case read_file ''/proc/uptime'' of
        Inl _ \<Rightarrow> Some (Inl ''failed to parse /proc/uptime'')
      | Inr contents \<Rightarrow>
          (case read_double contents of
             None \<Rightarrow> Some (Inl ''failed to parse /proc/uptime'')
           | Some (uptime, _) \<Rightarrow>
               if \<not> isfinite uptime \<or> dless uptime (Fin 0) \<or> dless (double_of_u64 (- 1)) uptime
               then Some (Inl ''failed to parse /proc/uptime'')
               else map_option (\<lambda>seconds. Inr (metrics \<lparr> uptime_seconds := seconds \<rparr>)) (trunc_u64 uptime)))"

section \<open>All metrics\<close>

definition collect ::
  "file_reader \<Rightarrow> system_collector \<Rightarrow> (system_collector \<times> (string + system_metrics)) option" where
  "collect read_file st =
     (case collect_cpu_usage read_file st of
        (st', Inl error) \<Rightarrow> Some (st', Inl error)
      | (st', Inr usage_percent) \<Rightarrow>
          (case read_memory_metrics read_file (empty_metrics \<lparr> cpu_usage_percent := usage_percent \<rparr>) of
             Inl error \<Rightarrow> Some (st', Inl error)
           | Inr metrics \<Rightarrow>
               (case read_load_average read_file metrics of
                  Inl error \<Rightarrow> Some (st', Inl error)
                | Inr metrics \<Rightarrow> map_option (Pair st') (read_uptime read_file metrics))))"

section \<open>Properties\<close>

definition percentage :: "double \<Rightarrow> bool" where
  "percentage d \<longleftrightarrow> (\<exists>p. d = Fin p \<and> 0 \<le> p \<and> p \<le> 100)"

definition metrics_ok :: "system_metrics \<Rightarrow> bool" where
  "metrics_ok m \<longleftrightarrow>
     percentage (cpu_usage_percent m) \<and>
     unat (memory_used_bytes m) + unat (memory_available_bytes m) = unat (memory_total_bytes m) \<and>
     valid_load (load_average_1m m) \<and> valid_load (load_average_5m m) \<and> valid_load (load_average_15m m)"

lemma cpu_usage_percentage: "percentage (cpu_usage previous current)"
proof -
  define d where "d = cpu_total current - cpu_total previous"
  define i where "i = cpu_idle_total current - cpu_idle_total previous"
  have "d - i \<le> d" if "i \<le> d"
    using that by (simp add: word_le_nat_alt unat_sub)
  moreover have "d = 0 \<longleftrightarrow> cpu_total current = cpu_total previous"
    by (simp add: d_def)
  ultimately show ?thesis
    using percentage_bounds [of "d - i" d]
    by (auto simp: cpu_usage_def Let_def percentage_def simp flip: d_def i_def)
qed

lemma collect_cpu_usage_ok: "collect_cpu_usage read_file st = (st', Inr usage) \<Longrightarrow> percentage usage"
  using cpu_usage_percentage by (auto simp: collect_cpu_usage_def percentage_def split: option.splits)

lemma kilobytes_no_wrap:
  fixes total available :: u64
  assumes "unat total \<le> u64_max div 1024" "available \<le> total"
  shows "unat (total * 1024 - available * 1024) + unat (available * 1024) = unat (total * 1024)"
proof -
  have le: "unat available \<le> unat total"
    using assms(2) by (simp add: word_le_nat_alt)
  have "unat total * 1024 \<le> u64_max"
    using assms(1) by linarith
  then have t: "unat (total * 1024) = unat total * 1024" and a: "unat (available * 1024) = unat available * 1024"
    using le by (simp_all add: unat_word_ariths)
  then have "available * 1024 \<le> total * 1024"
    using le by (simp add: word_le_nat_alt)
  then show ?thesis
    by (simp add: unat_sub word_le_nat_alt)
qed

lemma read_memory_ok:
  assumes "read_memory_metrics read_file m = Inr m'"
  shows "unat (memory_used_bytes m') + unat (memory_available_bytes m') = unat (memory_total_bytes m') \<and>
    cpu_usage_percent m' = cpu_usage_percent m"
  using assms kilobytes_no_wrap
  by (auto simp: read_memory_metrics_def not_less split: sum.splits prod.splits option.splits if_splits)

lemma read_load_ok:
  "read_load_average read_file m = Inr m' \<Longrightarrow>
   valid_load (load_average_1m m') \<and> valid_load (load_average_5m m') \<and> valid_load (load_average_15m m') \<and>
   cpu_usage_percent m' = cpu_usage_percent m \<and> memory_used_bytes m' = memory_used_bytes m \<and>
   memory_available_bytes m' = memory_available_bytes m \<and> memory_total_bytes m' = memory_total_bytes m"
  by (auto simp: read_load_average_def split: sum.splits option.splits prod.splits if_splits)

lemma read_uptime_ok: "read_uptime read_file m = Some (Inr m') \<Longrightarrow> \<exists>u. m' = m \<lparr> uptime_seconds := u \<rparr>"
  by (auto simp: read_uptime_def split: sum.splits option.splits if_splits)

lemma collect_metrics_ok:
  assumes "collect read_file st = Some (st', Inr m)"
  shows "metrics_ok m"
proof -
  obtain usage m1 m2 where "collect_cpu_usage read_file st = (st', Inr usage)"
    and m1: "read_memory_metrics read_file (empty_metrics \<lparr> cpu_usage_percent := usage \<rparr>) = Inr m1"
    and m2: "read_load_average read_file m1 = Inr m2" and m: "read_uptime read_file m2 = Some (Inr m)"
    using assms by (auto simp: collect_def split: prod.splits sum.splits)
  then have "percentage usage"
    by (simp add: collect_cpu_usage_ok)
  then show ?thesis
    using read_memory_ok [OF m1] read_load_ok [OF m2] read_uptime_ok [OF m]
    by (auto simp: metrics_ok_def)
qed

lemma collect_error_text: "collect read_file st = Some (st', Inl e) \<Longrightarrow> e \<noteq> []"
  by (auto simp: collect_def collect_cpu_usage_def read_memory_metrics_def read_load_average_def
      read_uptime_def split: prod.splits sum.splits option.splits if_splits)

text \<open>
  C33.  Metrics that the collector returns are consistent: the CPU usage is a percentage even
  when the counters wrap around or go backwards between two reads, used and available memory add
  up to the total without wrap-around, and the load averages are finite and not negative.
\<close>

theorem collect_ok:
  assumes "collect read_file st = Some (st', Inr m)"
  shows "metrics_ok m"
  using assms by (rule collect_metrics_ok)

section \<open>A concrete read\<close>

definition sample_files :: file_reader where
  "sample_files path =
     (if path = ''/proc/stat'' then Inr ''cpu  3 0 1 6 0 0 0 0''
      else if path = ''/proc/meminfo'' then Inr (''MemTotal: 8 kB'' @ [CHR 0x0A] @ ''MemAvailable: 2 kB'')
      else if path = ''/proc/loadavg'' then Inr ''0 0 0''
      else if path = ''/proc/uptime'' then Inr ''0 0''
      else Inl ENOENT)"

definition sample_collector :: system_collector where
  "sample_collector = \<lparr> previous_cpu_times = cpu_times_of (replicate 8 0), has_previous_cpu_times = False \<rparr>"

lemma sample_uptime: "read_uptime sample_files m = Some (Inr (m \<lparr> uptime_seconds := 0 \<rparr>))"
proof -
  have "read_double ''0 0'' = Some (Fin 0, '' 0'')"
    by code_simp
  then show ?thesis
    by (simp add: read_uptime_def sample_files_def double_of_u64_max isfinite_def trunc_u64_def)
qed

lemma sample_collect: "\<exists>st' m. collect sample_files sample_collector = Some (st', Inr m)"
proof -
  have "is_ok (snd (collect_cpu_usage sample_files sample_collector))"
    by code_simp
  then obtain st' usage where "collect_cpu_usage sample_files sample_collector = (st', Inr usage)"
    by (cases "collect_cpu_usage sample_files sample_collector") (auto simp: is_ok_iff)
  moreover have "is_ok (read_memory_metrics sample_files m)" for m
    by code_simp
  then obtain m1 where
    "read_memory_metrics sample_files (empty_metrics \<lparr> cpu_usage_percent := usage \<rparr>) = Inr m1"
    using is_ok_iff by metis
  moreover have "is_ok (read_load_average sample_files m)" for m
    by code_simp
  then obtain m2 where "read_load_average sample_files m1 = Inr m2"
    using is_ok_iff by metis
  ultimately show ?thesis
    by (simp add: collect_def sample_uptime)
qed

theorem collect_ok_witness:
  "\<exists>st' m. collect sample_files sample_collector = Some (st', Inr m) \<and> metrics_ok m"
  using sample_collect collect_ok by blast

lemma collect_None:
  assumes "collect read_file st = None"
  shows "\<exists>st' usage m1 m2. collect_cpu_usage read_file st = (st', Inr usage) \<and>
    read_memory_metrics read_file (empty_metrics \<lparr> cpu_usage_percent := usage \<rparr>) = Inr m1 \<and>
    read_load_average read_file m1 = Inr m2"
proof (cases "collect_cpu_usage read_file st")
  case (Pair st' r)
  show ?thesis
  proof (cases r)
    case (Inl e)
    then show ?thesis using assms Pair by (simp add: collect_def)
  next
    case (Inr usage)
    then show ?thesis
      using assms Pair by (simp add: collect_def split: sum.splits)
  qed
qed

text \<open>
  The check on the uptime lets one value through for which the cast to an integer is
  undefined: the greatest 64-bit value is \<open>2^64\<close> as a \<open>double\<close>, so an uptime of exactly
  \<open>2^64\<close> seconds is not greater.  Every other content of the files has a defined result.
\<close>

theorem collect_undefined_iff:
  "collect read_file st = None \<longleftrightarrow>
     is_ok (snd (collect_cpu_usage read_file st)) \<and>
     is_ok (read_memory_metrics read_file empty_metrics) \<and>
     is_ok (read_load_average read_file empty_metrics) \<and>
     (\<exists>contents rest. read_file ''/proc/uptime'' = Inr contents \<and>
        read_double contents = Some (Fin 18446744073709551616, rest))"
proof -
  have memory: "is_ok (read_memory_metrics read_file m) = is_ok (read_memory_metrics read_file empty_metrics)"
    and load: "is_ok (read_load_average read_file m) = is_ok (read_load_average read_file empty_metrics)" for m
    by (auto simp: read_memory_metrics_def read_load_average_def split: sum.splits option.splits prod.splits)
  have uptime: "read_uptime read_file m = None \<longleftrightarrow>
      (\<exists>contents rest. read_file ''/proc/uptime'' = Inr contents \<and>
        read_double contents = Some (Fin 18446744073709551616, rest))" for m
  proof -
    have "trunc_u64 (Fin x) = None \<longleftrightarrow> x \<le> - 1 \<or> 18446744073709551616 \<le> x" for x
      by (auto simp: trunc_u64_def)
    then show ?thesis
      by (auto simp: read_uptime_def double_of_u64_max isfinite_def split: sum.splits option.splits double.splits)
  qed
  show ?thesis
  proof (cases "is_ok (snd (collect_cpu_usage read_file st)) \<and>
      is_ok (read_memory_metrics read_file empty_metrics) \<and> is_ok (read_load_average read_file empty_metrics)")
    case True
    obtain st' usage where cpu: "collect_cpu_usage read_file st = (st', Inr usage)"
      using True by (cases "collect_cpu_usage read_file st") (auto simp: is_ok_iff)
    obtain m1 where m1: "read_memory_metrics read_file (empty_metrics \<lparr> cpu_usage_percent := usage \<rparr>) = Inr m1"
      using True memory is_ok_iff by metis
    obtain m2 where "read_load_average read_file m1 = Inr m2"
      using True load is_ok_iff by metis
    then have "collect read_file st = map_option (Pair st') (read_uptime read_file m2)"
      by (simp add: collect_def cpu m1)
    then show ?thesis
      using True uptime [of m2] by simp
  next
    case False
    have "is_ok (snd (collect_cpu_usage read_file st)) \<and>
      is_ok (read_memory_metrics read_file empty_metrics) \<and> is_ok (read_load_average read_file empty_metrics)"
      if "collect read_file st = None"
    proof -
      obtain st' usage m1 m2 where "collect_cpu_usage read_file st = (st', Inr usage)"
        and "read_memory_metrics read_file (empty_metrics \<lparr> cpu_usage_percent := usage \<rparr>) = Inr m1"
        and "read_load_average read_file m1 = Inr m2"
        using collect_None \<open>collect read_file st = None\<close> by blast
      then show ?thesis
        using memory load is_ok_iff by (metis snd_conv)
    qed
    with False show ?thesis by blast
  qed
qed

end
