(* ===== verification/Utf8.thy ===== *)
theory Utf8
  imports ES_Prelude
begin

text \<open>
  \<open>LogCollector::SanitizeUtf8\<close> (\<open>agent/src/LogCollector.cpp\<close>) and the encoding that it is
  about: UTF-8 is specified by the encoder of a Unicode scalar value, and a text is well formed
  where it is a concatenation of encodings.
\<close>

unbundle bit_operations_syntax

section \<open>The program\<close>

definition replacement :: string where
  "replacement = [CHR 0xEF, CHR 0xBF, CHR 0xBD]"

definition byte_of :: "char \<Rightarrow> nat" where
  "byte_of c = of_char c"

text \<open>Length, first bits of the code point and least code point of a sequence, by its first byte.\<close>

definition utf8_lead :: "nat \<Rightarrow> (nat \<times> nat \<times> nat) option" where
  "utf8_lead first =
     (if first AND 0xE0 = 0xC0 then Some (2, first AND 0x1F, 0x80)
      else if first AND 0xF0 = 0xE0 then Some (3, first AND 0x0F, 0x800)
      else if first AND 0xF8 = 0xF0 then Some (4, first AND 0x07, 0x10000)
      else None)"

fun continuation :: "nat \<Rightarrow> string \<Rightarrow> nat option" where
  "continuation code_point [] = Some code_point"
| "continuation code_point (c # cs) =
     (if byte_of c AND 0xC0 \<noteq> 0x80 then None
      else continuation (push_bit 6 code_point OR (byte_of c AND 0x3F)) cs)"

definition valid_code_point :: "nat \<Rightarrow> nat \<Rightarrow> bool" where
  "valid_code_point minimum code_point \<longleftrightarrow>
     minimum \<le> code_point \<and> code_point \<le> 0x10FFFF \<and> \<not> (0xD800 \<le> code_point \<and> code_point \<le> 0xDFFF)"

text \<open>The length of the sequence at the start of the rest of the input, if one is there.\<close>

definition sequence_length :: "string \<Rightarrow> nat option" where
  "sequence_length input =
     do {
       (len, code_point, minimum) \<leftarrow> utf8_lead (byte_of (hd input));
       if length input < len then None
       else do {
         code_point \<leftarrow> continuation code_point (take (len - 1) (tl input));
         if valid_code_point minimum code_point then Some len else None
       }
     }"

function sanitize_utf8 :: "string \<Rightarrow> string" where
  "sanitize_utf8 [] = []"
| "sanitize_utf8 (c # r) =
     (if byte_of c < 0x80 then c # sanitize_utf8 r
      else
        (case sequence_length (c # r) of
           None \<Rightarrow> replacement @ sanitize_utf8 r
         | Some len \<Rightarrow> take len (c # r) @ sanitize_utf8 (drop (len - 1) r)))"
  by pat_completeness auto
termination
  by (relation "measure length") auto

declare sanitize_utf8.simps(2) [simp del]

section \<open>The encoding\<close>

definition scalar :: "nat \<Rightarrow> bool" where
  "scalar n \<longleftrightarrow> n < 0xD800 \<or> (0xDFFF < n \<and> n \<le> 0x10FFFF)"

definition utf8 :: "nat \<Rightarrow> string" where
  "utf8 n = map char_of
     (if n < 0x80 then [n]
      else if n < 0x800 then [0xC0 + n div 64, 0x80 + n mod 64]
      else if n < 0x10000 then [0xE0 + n div 4096, 0x80 + n div 64 mod 64, 0x80 + n mod 64]
      else [0xF0 + n div 262144, 0x80 + n div 4096 mod 64, 0x80 + n div 64 mod 64, 0x80 + n mod 64])"

definition utf8_text :: "nat list \<Rightarrow> string" where
  "utf8_text ns = concat (map utf8 ns)"

definition well_formed :: "string \<Rightarrow> bool" where
  "well_formed s \<longleftrightarrow> (\<exists>ns. (\<forall>n \<in> set ns. scalar n) \<and> s = utf8_text ns)"

section \<open>Bits as ranges\<close>

lemma byte_less [simp]: "byte_of c < 256"
  unfolding byte_of_def by (rule nat_of_char_less_256)

lemma byte_of_char_of [simp]: "n < 256 \<Longrightarrow> byte_of (char_of n) = n"
  by (simp add: byte_of_def)

lemma bit_below: "n < 2 ^ k \<Longrightarrow> bit (n :: nat) i \<Longrightarrow> i < k"
  by (metis bit_take_bit_iff take_bit_nat_eq_self)

text \<open>Masking the high bits of a number of \<open>a + b\<close> bits rounds down to a multiple of \<open>2^a\<close>.\<close>

lemma and_high_mask:
  assumes "n < 2 ^ (a + b)"
  shows "(n :: nat) AND push_bit a (mask b) = n div 2 ^ a * 2 ^ a"
proof -
  have "n AND push_bit a (mask b) = push_bit a (drop_bit a n)"
    by (rule bit_eqI) (auto simp: bit_simps dest: bit_below [OF assms])
  then show ?thesis
    by (simp add: push_bit_eq_mult drop_bit_eq_div)
qed

lemma div_range: "k * d \<le> n \<Longrightarrow> n < (k + 1) * d \<Longrightarrow> n div d = (k :: nat)"
  by (rule div_nat_eqI) (simp_all add: mult.commute)

lemma multiple_range:
  assumes "0 < d"
  shows "n div d * d = k * d \<longleftrightarrow> k * d \<le> n \<and> n < (k + 1) * (d :: nat)"
proof
  assume "n div d * d = k * d"
  then have "n = k * d + n mod d"
    using div_mult_mod_eq [of n d] by metis
  moreover have "n mod d < d"
    using assms by simp
  ultimately show "k * d \<le> n \<and> n < (k + 1) * d"
    unfolding add_mult_distrib mult_1 by linarith
next
  assume "k * d \<le> n \<and> n < (k + 1) * d"
  then have "n div d = k"
    using div_range by blast
  then show "n div d * d = k * d" by simp
qed

lemma mod_range: "k * d \<le> n \<Longrightarrow> n < (k + 1) * d \<Longrightarrow> n = k * d + n mod (d :: nat)"
  using div_range [of k d n] div_mult_mod_eq [of n d] by metis

lemma byte_bits:
  assumes "(n :: nat) < 256"
  shows "n AND 0xE0 = 0xC0 \<longleftrightarrow> 0xC0 \<le> n \<and> n < 0xE0"
    and "n AND 0xF0 = 0xE0 \<longleftrightarrow> 0xE0 \<le> n \<and> n < 0xF0"
    and "n AND 0xF8 = 0xF0 \<longleftrightarrow> 0xF0 \<le> n \<and> n < 0xF8"
    and "n AND 0xC0 = 0x80 \<longleftrightarrow> 0x80 \<le> n \<and> n < 0xC0"
proof -
  have m: "push_bit 5 (mask 3) = (0xE0 :: nat)" "push_bit 4 (mask 4) = (0xF0 :: nat)"
    "push_bit 3 (mask 5) = (0xF8 :: nat)" "push_bit 6 (mask 2) = (0xC0 :: nat)"
    by (simp_all add: mask_eq_exp_minus_1 push_bit_eq_mult)
  have "n AND 0xE0 = n div 32 * 32" "n AND 0xF0 = n div 16 * 16" "n AND 0xF8 = n div 8 * 8"
    "n AND 0xC0 = n div 64 * 64"
    using assms and_high_mask [of n 5 3] and_high_mask [of n 4 4] and_high_mask [of n 3 5] and_high_mask [of n 6 2]
    by (simp_all add: m)
  note masks = this
  show "n AND 0xE0 = 0xC0 \<longleftrightarrow> 0xC0 \<le> n \<and> n < 0xE0"
    and "n AND 0xF0 = 0xE0 \<longleftrightarrow> 0xE0 \<le> n \<and> n < 0xF0"
    and "n AND 0xF8 = 0xF0 \<longleftrightarrow> 0xF0 \<le> n \<and> n < 0xF8"
    and "n AND 0xC0 = 0x80 \<longleftrightarrow> 0x80 \<le> n \<and> n < 0xC0"
    using multiple_range [of 32 n 6] multiple_range [of 16 n 14] multiple_range [of 8 n 30]
      multiple_range [of 64 n 2] by (simp_all add: masks)
qed

lemma low_bits:
  "(n :: nat) AND 0x1F = n mod 32" "n AND 0x0F = n mod 16" "n AND 0x07 = n mod 8" "n AND 0x3F = n mod 64"
proof -
  have m: "n AND mask k = n mod 2 ^ k" for k
    by (simp flip: take_bit_eq_mask take_bit_eq_mod)
  show "n AND 0x1F = n mod 32" "n AND 0x0F = n mod 16" "n AND 0x07 = n mod 8" "n AND 0x3F = n mod 64"
    using m [of 5] m [of 4] m [of 3] m [of 6] by (simp_all add: mask_eq_exp_minus_1)
qed

lemma shift_or: "push_bit 6 a OR (b mod 64) = a * 64 + b mod (64 :: nat)"
proof -
  have "push_bit 6 a + b mod 64 = push_bit 6 a OR (b mod 64)"
  proof (rule disjunctive_add_eq_or)
    have "b mod 64 = take_bit 6 b"
      by (simp add: take_bit_eq_mod)
    then show "push_bit 6 a AND (b mod 64) = 0"
      by (auto simp: bit_eq_iff bit_simps)
  qed
  then show ?thesis by (simp add: push_bit_eq_mult)
qed

declare continuation.simps(2) [simp del]

lemma continuation_byte:
  "continuation cp (c # cs) =
     (if 0x80 \<le> byte_of c \<and> byte_of c < 0xC0 then continuation (cp * 64 + byte_of c mod 64) cs else None)"
  by (simp add: continuation.simps(2) byte_bits low_bits shift_or)

lemma utf8_lead_ranges:
  assumes "n < 256"
  shows "utf8_lead n =
     (if 0xC0 \<le> n \<and> n < 0xE0 then Some (2, n mod 32, 0x80)
      else if 0xE0 \<le> n \<and> n < 0xF0 then Some (3, n mod 16, 0x800)
      else if 0xF0 \<le> n \<and> n < 0xF8 then Some (4, n mod 8, 0x10000)
      else None)"
  using assms by (simp only: utf8_lead_def byte_bits low_bits)

section \<open>What a sequence is\<close>

lemma char_eq_iff: "c = char_of n \<longleftrightarrow> byte_of c = n mod 256"
  by (metis byte_of_def char_of_char of_char_of)

text \<open>Six-bit digits.\<close>

lemma digit64 [simp]: "r < 64 \<Longrightarrow> (q * 64 + r) div 64 = q" "r < 64 \<Longrightarrow> (q * 64 + r) mod 64 = (r :: nat)"
  by simp_all

lemma div64: "n div 4096 = n div 64 div 64" "n div 262144 = n div 64 div 64 div (64 :: nat)"
  by (simp_all flip: div_mult2_eq)

lemma lead_range:
  "0x80 \<le> b \<Longrightarrow> b < 0xC0 \<Longrightarrow> b = 0x80 + b mod (64 :: nat)"
  "0xC0 \<le> b \<Longrightarrow> b < 0xE0 \<Longrightarrow> b = 0xC0 + b mod (32 :: nat)"
  "0xE0 \<le> b \<Longrightarrow> b < 0xF0 \<Longrightarrow> b = 0xE0 + b mod (16 :: nat)"
  "0xF0 \<le> b \<Longrightarrow> b < 0xF8 \<Longrightarrow> b = 0xF0 + b mod (8 :: nat)"
  using mod_range [of 2 64 b] mod_range [of 6 32 b] mod_range [of 14 16 b] mod_range [of 30 8 b] by simp_all

lemma tail_byte: "(0x80 + n mod 64) mod 256 = 0x80 + n mod (64 :: nat)"
proof -
  have "n mod 64 < 64" by simp
  then show ?thesis by simp
qed

lemma two_elements: "2 \<le> length r \<Longrightarrow> \<exists>a b t. r = a # b # t"
  by (cases r; cases "tl r") auto

lemma three_elements: "3 \<le> length r \<Longrightarrow> \<exists>a b c t. r = a # b # c # t"
  by (cases r; cases "tl r"; cases "tl (tl r)") auto

text \<open>A sequence that the program accepts is the encoding of a scalar value.\<close>

lemma sequence_encodes:
  assumes "sequence_length input = Some len" "input \<noteq> []"
  shows "\<exists>n. scalar n \<and> take len input = utf8 n \<and> 2 \<le> len \<and> len \<le> length input"
proof -
  obtain c r where input: "input = c # r"
    using assms(2) by (cases input) auto
  obtain cp0 minimum n where lead: "utf8_lead (byte_of c) = Some (len, cp0, minimum)"
    and len: "len \<le> length input" and n: "continuation cp0 (take (len - 1) r) = Some n"
    and ok: "valid_code_point minimum n"
    using assms(1) by (auto simp: sequence_length_def input bind_eq_Some_conv split: if_splits)
  consider (two) "len = 2" "cp0 = byte_of c mod 32" "minimum = 0x80" "0xC0 \<le> byte_of c" "byte_of c < 0xE0"
    | (three) "len = 3" "cp0 = byte_of c mod 16" "minimum = 0x800" "0xE0 \<le> byte_of c" "byte_of c < 0xF0"
    | (four) "len = 4" "cp0 = byte_of c mod 8" "minimum = 0x10000" "0xF0 \<le> byte_of c" "byte_of c < 0xF8"
    using lead by (auto simp: utf8_lead_ranges split: if_splits)
  then show ?thesis
  proof cases
    case two
    then obtain c1 r1 where r: "r = c1 # r1"
      using len by (cases r) (auto simp: input)
    have b: "0x80 \<le> byte_of c1" "byte_of c1 < 0xC0" and nn: "n = byte_of c mod 32 * 64 + byte_of c1 mod 64"
      using n two by (auto simp: r continuation_byte split: if_splits)
    have d: "n div 64 = byte_of c mod 32" "n mod 64 = byte_of c1 mod 64"
      unfolding nn by simp_all
    then have "byte_of c = 0xC0 + n div 64" "byte_of c1 = 0x80 + n mod 64"
      using two b lead_range by metis+
    moreover have "0x80 \<le> n" "n < 0x800"
      using two ok by (simp_all add: valid_code_point_def nn)
    ultimately show ?thesis
      using two len by (intro exI [of _ n]) (simp add: utf8_def input r char_eq_iff scalar_def)
  next
    case three
    then obtain c1 c2 r1 where r: "r = c1 # c2 # r1"
      using len two_elements [of r] by (auto simp: input)
    have b: "0x80 \<le> byte_of c1" "byte_of c1 < 0xC0" "0x80 \<le> byte_of c2" "byte_of c2 < 0xC0"
      and nn: "n = (byte_of c mod 16 * 64 + byte_of c1 mod 64) * 64 + byte_of c2 mod 64"
      using n three by (auto simp: r continuation_byte take_Cons' split: if_splits)
    have d: "n div 4096 = byte_of c mod 16" "n div 64 mod 64 = byte_of c1 mod 64" "n mod 64 = byte_of c2 mod 64"
      unfolding nn div64 by (simp_all only: digit64 mod_less_divisor zero_less_numeral)
    then have "byte_of c = 0xE0 + n div 4096" "byte_of c1 = 0x80 + n div 64 mod 64" "byte_of c2 = 0x80 + n mod 64"
      using three b lead_range by metis+
    moreover have "n div 4096 < 16"
      by (simp add: d(1))
    then have "0x800 \<le> n" "n < 0x10000"
      using three ok by (simp_all add: valid_code_point_def div_less_iff_less_mult)
    ultimately show ?thesis
      using three len ok
      by (intro exI [of _ n]) (auto simp: utf8_def input r char_eq_iff scalar_def valid_code_point_def)
  next
    case four
    then obtain c1 c2 c3 r1 where r: "r = c1 # c2 # c3 # r1"
      using len three_elements [of r] by (auto simp: input)
    have b: "0x80 \<le> byte_of c1" "byte_of c1 < 0xC0" "0x80 \<le> byte_of c2" "byte_of c2 < 0xC0"
        "0x80 \<le> byte_of c3" "byte_of c3 < 0xC0"
      and nn: "n = ((byte_of c mod 8 * 64 + byte_of c1 mod 64) * 64 + byte_of c2 mod 64) * 64 + byte_of c3 mod 64"
      using n four by (auto simp: r continuation_byte take_Cons' split: if_splits)
    have d: "n div 262144 = byte_of c mod 8" "n div 4096 mod 64 = byte_of c1 mod 64"
        "n div 64 mod 64 = byte_of c2 mod 64" "n mod 64 = byte_of c3 mod 64"
      unfolding nn div64 by (simp_all only: digit64 mod_less_divisor zero_less_numeral)
    then have "byte_of c = 0xF0 + n div 262144" "byte_of c1 = 0x80 + n div 4096 mod 64"
      "byte_of c2 = 0x80 + n div 64 mod 64" "byte_of c3 = 0x80 + n mod 64"
      using four b lead_range by metis+
    moreover have "0x10000 \<le> n" "n \<le> 0x10FFFF"
      using four ok by (simp_all add: valid_code_point_def)
    ultimately show ?thesis
      using four len by (intro exI [of _ n]) (simp add: utf8_def input r char_eq_iff scalar_def tail_byte)
  qed
qed

text \<open>The encoding of a scalar value of more than seven bits is accepted, whatever follows.\<close>

lemma sequence_of_utf8:
  assumes "scalar n" "0x80 \<le> n"
  shows "sequence_length (utf8 n @ r) = Some (length (utf8 n))"
proof -
  have tail: "byte_of (char_of (0x80 + k mod 64)) = 0x80 + k mod 64" for k :: nat
  proof -
    have "k mod 64 < 64" by simp
    then show ?thesis by (intro byte_of_char_of) linarith
  qed
  have low: "(0x80 + k mod 64) mod 64 = k mod (64 :: nat)" and range: "0x80 + k mod 64 < (0xC0 :: nat)" for k :: nat
  proof -
    have "(2 * 64 + k mod 64) mod 64 = k mod 64" by (rule digit64) simp
    then show "(0x80 + k mod 64) mod 64 = k mod 64" by simp
    have "k mod 64 < 64" by simp
    then show "0x80 + k mod 64 < (0xC0 :: nat)" by linarith
  qed
  have step: "continuation cp (char_of (0x80 + k mod 64) # cs) = continuation (cp * 64 + k mod 64) cs" for cp k cs
    unfolding continuation_byte tail low using range [of k] by simp
  have join: "q div 64 * 64 + q mod 64 = q" for q :: nat
    by (rule div_mult_mod_eq)
  consider (two) "n < 0x800" | (three) "0x800 \<le> n" "n < 0x10000" | (four) "0x10000 \<le> n" "n \<le> 0x10FFFF"
    using assms by (fastforce simp: scalar_def)
  then show ?thesis
  proof cases
    case two
    have small: "n div 64 < 32"
      using two by (simp add: div_less_iff_less_mult)
    have lead: "utf8_lead (byte_of (char_of (0xC0 + n div 64))) = Some (2, n div 64, 0x80)"
      using small mod_range [of 6 32 "192 + n div 64"] by (simp add: utf8_lead_ranges)
    have "continuation (n div 64) [char_of (0x80 + n mod 64)] = Some n"
      unfolding step join by simp
    then show ?thesis
      using two assms lead by (simp add: sequence_length_def utf8_def valid_code_point_def)
  next
    case three
    have small: "n div 4096 < 16"
      using three by (simp add: div_less_iff_less_mult)
    have lead: "utf8_lead (byte_of (char_of (0xE0 + n div 4096))) = Some (3, n div 4096, 0x800)"
      using small mod_range [of 14 16 "224 + n div 4096"] by (simp add: utf8_lead_ranges)
    have "continuation (n div 4096) [char_of (0x80 + n div 64 mod 64), char_of (0x80 + n mod 64)] = Some n"
      unfolding step div64 join by simp
    then show ?thesis
      using three assms lead
      by (auto simp: sequence_length_def utf8_def valid_code_point_def scalar_def)
  next
    case four
    have small: "n div 262144 < 5"
      using four by (simp add: div_less_iff_less_mult)
    have lead: "utf8_lead (byte_of (char_of (0xF0 + n div 262144))) = Some (4, n div 262144, 0x10000)"
      using small mod_range [of 30 8 "240 + n div 262144"] by (simp add: utf8_lead_ranges)
    have "continuation (n div 262144)
        [char_of (0x80 + n div 4096 mod 64), char_of (0x80 + n div 64 mod 64), char_of (0x80 + n mod 64)] = Some n"
      unfolding step div64 join by simp
    then show ?thesis
      using four lead by (simp add: sequence_length_def utf8_def valid_code_point_def)
  qed
qed

section \<open>Properties\<close>

lemma well_formed_simps:
  "well_formed []"
  "scalar n \<Longrightarrow> well_formed s \<Longrightarrow> well_formed (utf8 n @ s)"
proof -
  show "well_formed []"
    unfolding well_formed_def by (rule exI [of _ "[]"]) (simp add: utf8_text_def)
  assume "scalar n" "well_formed s"
  then obtain ns where "\<forall>n \<in> set ns. scalar n" "s = utf8_text ns" by (auto simp: well_formed_def)
  with \<open>scalar n\<close> show "well_formed (utf8 n @ s)"
    unfolding well_formed_def by (intro exI [of _ "n # ns"]) (simp add: utf8_text_def)
qed

lemma replacement_utf8: "replacement = utf8 0xFFFD"
  by code_simp

lemma ascii_utf8: "byte_of c < 0x80 \<Longrightarrow> utf8 (byte_of c) = [c]"
  by (simp add: utf8_def byte_of_def)

lemma sanitize_well_formed: "well_formed (sanitize_utf8 s)"
proof (induction s rule: sanitize_utf8.induct)
  case 1
  then show ?case by (simp add: well_formed_simps)
next
  case (2 c r)
  show ?case
  proof (cases "byte_of c < 0x80")
    case True
    then have "well_formed (utf8 (byte_of c) @ sanitize_utf8 r)"
      using 2(1) by (intro well_formed_simps) (simp_all add: scalar_def)
    with True show ?thesis
      by (simp add: sanitize_utf8.simps(2) ascii_utf8)
  next
    case False
    show ?thesis
    proof (cases "sequence_length (c # r)")
      case None
      then show ?thesis
        using False 2(2) well_formed_simps(2) [of "0xFFFD" "sanitize_utf8 r"]
        by (simp add: sanitize_utf8.simps(2) replacement_utf8 scalar_def)
    next
      case (Some len)
      then obtain n where "scalar n" "take len (c # r) = utf8 n"
        using sequence_encodes by blast
      then show ?thesis
        using False Some 2(3) by (simp add: sanitize_utf8.simps(2) well_formed_simps)
    qed
  qed
qed

lemma sanitize_utf8_append: "scalar n \<Longrightarrow> sanitize_utf8 (utf8 n @ s) = utf8 n @ sanitize_utf8 s"
proof (cases "n < 0x80")
  case True
  then show ?thesis
    by (simp add: utf8_def sanitize_utf8.simps(2))
next
  case False
  assume n: "scalar n"
  define u where "u = utf8 n"
  have seq: "sequence_length (u @ s) = Some (length u)"
    using n False by (simp add: u_def sequence_of_utf8)
  obtain c r where u: "u = c # r" and c: "\<not> byte_of c < 0x80"
  proof -
    have "\<exists>c r. u = c # r \<and> 0x80 \<le> byte_of c"
    proof -
      have "n div 64 < 32 \<or> 0x800 \<le> n" "n div 4096 < 16 \<or> 0x10000 \<le> n" "n div 262144 < 5"
        using n by (auto simp: scalar_def div_less_iff_less_mult)
      then show ?thesis
        using False by (auto simp: u_def utf8_def)
    qed
    then show ?thesis using that by (auto simp: not_less)
  qed
  have "sanitize_utf8 (c # (r @ s)) = take (length u) (c # (r @ s)) @ sanitize_utf8 (drop (length u - 1) (r @ s))"
    using seq c by (simp add: sanitize_utf8.simps(2) u)
  then show ?thesis
    by (simp add: u flip: u_def)
qed

lemma sanitize_well_formed_id: "well_formed s \<Longrightarrow> sanitize_utf8 s = s"
proof -
  have "\<forall>n \<in> set ns. scalar n \<Longrightarrow> sanitize_utf8 (utf8_text ns) = utf8_text ns" for ns
    by (induction ns) (simp_all add: utf8_text_def sanitize_utf8_append)
  then show "well_formed s \<Longrightarrow> sanitize_utf8 s = s"
    by (auto simp: well_formed_def)
qed

lemma sanitize_length: "length (sanitize_utf8 s) \<le> 3 * length s"
proof (induction s rule: sanitize_utf8.induct)
  case (2 c r)
  show ?case
  proof (cases "sequence_length (c # r)")
    case None
    then show ?thesis using 2 by (cases "byte_of c < 0x80") (simp_all add: sanitize_utf8.simps(2) replacement_def)
  next
    case (Some len)
    then have "len \<le> length (c # r)" "2 \<le> len"
      using sequence_encodes [OF Some] by auto
    then show ?thesis
      using 2 Some by (auto simp: sanitize_utf8.simps(2))
  qed
qed simp

text \<open>
  C34.  The sanitiser makes any bytes into well-formed UTF-8 (overlong forms, surrogates, code
  points past U+10FFFF and cut-off sequences are all replaced), and leaves a text that is
  well-formed already as it is; so it changes exactly the texts that are not well formed.  The
  text becomes at most three times as long.
\<close>

theorem sanitize_utf8_correct:
  "well_formed (sanitize_utf8 s) \<and> (sanitize_utf8 s = s \<longleftrightarrow> well_formed s) \<and>
   length (sanitize_utf8 s) \<le> 3 * length s"
  using sanitize_well_formed sanitize_well_formed_id sanitize_length by metis

end
