(* ===== verification/Whitelist.thy ===== *)
theory Whitelist
  imports Main
begin

text \<open>
  The contract shared by the components that act on the machine only for names on a fixed
  list (\<open>LogCollector\<close> for files, \<open>ServiceManager\<close> for commands): \<open>effects\<close> is what one
  request does to the system, \<open>listed\<close> the test on the name, \<open>permitted\<close> what a request
  for a listed name may do.
\<close>

locale whitelist =
  fixes effects :: "'name \<Rightarrow> 'args \<Rightarrow> 'effect list"
    and listed :: "'name \<Rightarrow> bool"
    and permitted :: "'name \<Rightarrow> 'effect \<Rightarrow> bool"
  assumes unlisted: "\<not> listed n \<Longrightarrow> effects n a = []"
    and listed_permitted: "e \<in> set (effects n a) \<Longrightarrow> permitted n e"
begin

lemma effect_listed: "e \<in> set (effects n a) \<Longrightarrow> listed n \<and> permitted n e"
  using unlisted listed_permitted by fastforce

lemma session:
  assumes "e \<in> set (concat (map (\<lambda>(n, a). effects n a) requests))"
  shows "\<exists>n a. (n, a) \<in> set requests \<and> listed n \<and> permitted n e"
proof -
  obtain n a where "(n, a) \<in> set requests" "e \<in> set (effects n a)"
    using assms by auto
  then show ?thesis using effect_listed by blast
qed

end

end
