(* ===== verification/Log_Collector.thy ===== *)
theory Log_Collector
  imports Utf8 Cpp_String Whitelist
begin

text \<open>
  \<open>agent/src/LogCollector.cpp\<close>: the list of readable logs, reading the last lines of a log in
  blocks from its end, and the resolution of a log id for \<open>StreamLog\<close>.  Opening a file is a
  function from its path to an error number or a \<open>log_file\<close>; a read returns the paths that it
  opened along with its result.
\<close>

section \<open>Data\<close>

record allowed_log =
  al_id :: string
  al_display_name :: string
  al_path :: path

record log_source_info =
  ls_id :: string
  ls_display_name :: string
  ls_available :: bool

record log_read_result =
  log_lines :: "string list"
  log_truncated :: bool

datatype log_collector_error = LogNone | LogInvalidArgument | LogNotFound | LogPermissionDenied | LogIoError

text \<open>An opened file: the position of its end (negative on failure) and the bytes that a read
  of \<open>n\<close> bytes at a position gives, fewer than \<open>n\<close> where the file has become shorter.\<close>

record log_file =
  log_end :: int
  log_read :: "nat \<Rightarrow> nat \<Rightarrow> string"

abbreviation maximum_lines :: nat where "maximum_lines \<equiv> 1000"
abbreviation maximum_keyword_length :: nat where "maximum_keyword_length \<equiv> 256"
abbreviation maximum_line_length :: nat where "maximum_line_length \<equiv> 4096"
abbreviation read_block_size :: nat where "read_block_size \<equiv> 65536"
abbreviation maximum_scan_bytes :: nat where "maximum_scan_bytes \<equiv> 8388608"

section \<open>The list of logs\<close>

definition allowed_logs :: "path \<Rightarrow> allowed_log list" where
  "allowed_logs agent_log_path =
     [\<lparr> al_id = ''system'', al_display_name = ''System log'', al_path = ''/var/log/syslog'' \<rparr>,
      \<lparr> al_id = ''packages'', al_display_name = ''Package manager log'', al_path = ''/var/log/dpkg.log'' \<rparr>,
      \<lparr> al_id = ''apt-history'', al_display_name = ''APT history'', al_path = ''/var/log/apt/history.log'' \<rparr>,
      \<lparr> al_id = ''edgescope-agent'', al_display_name = ''EdgeScope Agent log'', al_path = agent_log_path \<rparr>]"

definition find_allowed_log :: "allowed_log list \<Rightarrow> string \<Rightarrow> allowed_log option" where
  "find_allowed_log logs i = find (\<lambda>log. i = al_id log) logs"

definition list_logs :: "(path \<Rightarrow> bool) \<Rightarrow> allowed_log list \<Rightarrow> log_source_info list" where
  "list_logs is_regular_file logs =
     map (\<lambda>log. \<lparr> ls_id = al_id log, ls_display_name = al_display_name log,
                  ls_available = is_regular_file (al_path log) \<rparr>) logs"

definition resolve_log_path :: "allowed_log list \<Rightarrow> string \<Rightarrow> (log_collector_error \<times> string) + path" where
  "resolve_log_path logs log_id =
     (case find_allowed_log logs log_id of
        None \<Rightarrow> Inl (LogInvalidArgument, ''unknown log id'')
      | Some log \<Rightarrow> Inr (al_path log))"

section \<open>Reading a log\<close>

definition open_error :: "errno \<Rightarrow> log_collector_error" where
  "open_error error_number =
     (if error_number = EACCES \<or> error_number = EPERM then LogPermissionDenied
      else if error_number = ENOENT then LogNotFound
      else LogIoError)"

text \<open>
  The loop over the blocks from the end of the file: the position that it stops at and the
  blocks, in the order they were read; \<open>None\<close> where a read came up short.
\<close>

function read_back ::
  "(nat \<Rightarrow> nat \<Rightarrow> string) \<Rightarrow> nat \<Rightarrow> string \<Rightarrow> nat \<Rightarrow> nat \<Rightarrow> nat \<Rightarrow> string list \<Rightarrow>
   (nat \<times> string list) option" where
  "read_back rd max_lines keyword position scanned_bytes newline_count reverse_chunks =
     (if 0 < position \<and> scanned_bytes < maximum_scan_bytes then
        (let block_size = min position read_block_size;
             position = position - block_size;
             chunk = rd position block_size
         in if length chunk \<noteq> block_size then None
            else
              (let newline_count = newline_count + length (filter (\<lambda>c. c = CHR 0x0A) chunk);
                   scanned_bytes = scanned_bytes + block_size;
                   reverse_chunks = reverse_chunks @ [chunk]
               in if keyword = [] \<and> newline_count > max_lines then Some (position, reverse_chunks)
                  else read_back rd max_lines keyword position scanned_bytes newline_count reverse_chunks))
      else Some (position, reverse_chunks))"
  by pat_completeness auto
termination
  by (relation "measure (\<lambda>(_, _, _, position, _, _, _). position)") auto

declare read_back.simps [simp del]

definition drop_carriage_return :: "string \<Rightarrow> string" where
  "drop_carriage_return line = (if line \<noteq> [] \<and> last line = CHR 0x0D then butlast line else line)"

text \<open>The body of the loop over the lines: the selected lines and the truncation flag.\<close>

definition select_line ::
  "nat \<Rightarrow> string \<Rightarrow> string list \<times> bool \<Rightarrow> string \<Rightarrow> string list \<times> bool" where
  "select_line max_lines keyword st raw =
     (let (selected_lines, truncated) = st; line = drop_carriage_return raw in
      if keyword \<noteq> [] \<and> \<not> contains line keyword then st
      else
        (let truncated = (truncated \<or> length line > maximum_line_length);
             selected_lines = selected_lines @ [sanitize_utf8 (take maximum_line_length line)]
         in if length selected_lines > max_lines then (tl selected_lines, True)
            else (selected_lines, truncated)))"

definition read_opened ::
  "log_file \<Rightarrow> nat \<Rightarrow> string \<Rightarrow> (log_collector_error \<times> string) + log_read_result" where
  "read_opened file max_lines keyword =
     (if log_end file < 0 then Inl (LogIoError, ''failed to determine log file size'')
      else
        (case read_back (log_read file) max_lines keyword (nat (log_end file)) 0 0 [] of
           None \<Rightarrow> Inl (LogIoError, ''failed while reading log file'')
         | Some (position, reverse_chunks) \<Rightarrow>
             (let (selected_lines, truncated) =
                    foldl (select_line max_lines keyword) ([], False)
                      (getlines CHR 0x0A (concat (rev reverse_chunks)))
              in Inr \<lparr> log_lines = selected_lines, log_truncated = (truncated \<or> 0 < position) \<rparr>)))"

definition read_log ::
  "allowed_log list \<Rightarrow> (path \<Rightarrow> errno + log_file) \<Rightarrow> string \<Rightarrow> u32 \<Rightarrow> string \<Rightarrow>
   path list \<times> ((log_collector_error \<times> string) + log_read_result)" where
  "read_log logs open_file log_id max_lines keyword =
     (case find_allowed_log logs log_id of
        None \<Rightarrow> ([], Inl (LogInvalidArgument, ''unknown log id''))
      | Some log \<Rightarrow>
          if max_lines = 0 \<or> unat max_lines > maximum_lines
          then ([], Inl (LogInvalidArgument, ''max_lines must be between 1 and 1000''))
          else if length keyword > maximum_keyword_length
          then ([], Inl (LogInvalidArgument, ''keyword is too long''))
          else
            ([al_path log],
             (case open_file (al_path log) of
                Inl error_number \<Rightarrow> Inl (open_error error_number, ''log file is not available'')
              | Inr file \<Rightarrow> read_opened file (unat max_lines) keyword)))"

section \<open>Selecting lines\<close>

definition wanted :: "string \<Rightarrow> string \<Rightarrow> bool" where
  "wanted keyword raw \<longleftrightarrow> keyword = [] \<or> contains (drop_carriage_return raw) keyword"

definition shown_line :: "string \<Rightarrow> string" where
  "shown_line raw = sanitize_utf8 (take maximum_line_length (drop_carriage_return raw))"

definition overlong :: "string \<Rightarrow> bool" where
  "overlong raw \<longleftrightarrow> length (drop_carriage_return raw) > maximum_line_length"

lemma tl_take_last:
  assumes "0 < n" "n \<le> length xs"
  shows "tl (take_last n xs) = take_last (n - 1) xs"
proof -
  have "length xs - (n - 1) = Suc (length xs - n)"
    using assms by linarith
  then show ?thesis
    by (simp add: take_last_def drop_Suc tl_drop)
qed

lemma select_lines:
  assumes "0 < max_lines"
  shows "foldl (select_line max_lines keyword) ([], False) raws =
    (take_last max_lines (map shown_line (filter (wanted keyword) raws)),
     (\<exists>raw \<in> set raws. wanted keyword raw \<and> overlong raw) \<or> max_lines < length (filter (wanted keyword) raws))"
proof (induction raws rule: rev_induct)
  case Nil
  then show ?case by (simp add: take_last_def)
next
  case (snoc raw raws)
  let ?sel = "map shown_line (filter (wanted keyword) raws)"
  let ?t = "(\<exists>raw \<in> set raws. wanted keyword raw \<and> overlong raw) \<or> max_lines < length ?sel"
  show ?case
  proof (cases "wanted keyword raw")
    case False
    then show ?thesis
      using snoc by (simp add: select_line_def wanted_def)
  next
    case True
    have step: "select_line max_lines keyword (take_last max_lines ?sel, ?t) raw =
        (let selected = take_last max_lines ?sel @ [shown_line raw]
         in if length selected > max_lines then (tl selected, True) else (selected, ?t \<or> overlong raw))"
      using True by (auto simp: select_line_def wanted_def shown_line_def overlong_def Let_def)
    show ?thesis
    proof (cases "max_lines \<le> length ?sel")
      case long: True
      then have "tl (take_last max_lines ?sel @ [shown_line raw]) = take_last (max_lines - 1) ?sel @ [shown_line raw]"
        using assms tl_take_last [of max_lines ?sel] length_take_last [of max_lines ?sel]
        by (cases "take_last max_lines ?sel") auto
      then show ?thesis
        using snoc True long assms step by (simp add: take_last_snoc length_take_last)
    next
      case False
      then show ?thesis
        using snoc True assms step by (auto simp: take_last_snoc length_take_last take_last_all)
    qed
  qed
qed

section \<open>The lines at the end of a text\<close>

definition newlines :: "string \<Rightarrow> nat" where
  "newlines s = length (filter (\<lambda>c. c = CHR 0x0A) s)"

lemma newlines_append [simp]: "newlines (a @ b) = newlines a + newlines b"
  by (simp add: newlines_def)

lemma newlines_none: "CHR 0x0A \<notin> set s \<Longrightarrow> newlines s = 0"
  by (auto simp: newlines_def filter_empty_conv)

lemma newlines_line: "CHR 0x0A \<notin> set l \<Longrightarrow> newlines (l @ CHR 0x0A # r) = Suc (newlines r)"
  using newlines_none [of l] by (simp add: newlines_def)

lemma getlines_split: "getlines d (a @ d # r) = getlines d (a @ [d]) @ getlines d r"
proof (induction a rule: length_induct)
  case (1 a)
  show ?case
  proof (cases d a rule: lines_cases)
    case last
    then show ?thesis by (simp add: getlines_line)
  next
    case (line l t)
    then have "getlines d (t @ d # r) = getlines d (t @ [d]) @ getlines d r"
      using 1 by simp
    with line show ?thesis by (simp add: getlines_line)
  qed
qed

lemma newlines_getlines: "newlines s \<le> length (getlines CHR 0x0A s)"
proof (induction s rule: length_induct)
  case (1 s)
  show ?case
  proof (cases "CHR 0x0A" s rule: lines_cases)
    case last
    then show ?thesis by (simp add: newlines_none)
  next
    case (line l r)
    then have "newlines r \<le> length (getlines CHR 0x0A r)"
      using 1 by simp
    with line show ?thesis
      by (simp add: getlines_line newlines_line del: newlines_append)
  qed
qed

text \<open>The last \<open>n\<close> lines of a text are those of any end of it with more than \<open>n\<close> newlines.\<close>

lemma last_lines_of_suffix:
  assumes "n < newlines s"
  shows "take_last n (getlines CHR 0x0A (p @ s)) = take_last n (getlines CHR 0x0A s)"
    and "n < length (getlines CHR 0x0A s)" and "n < length (getlines CHR 0x0A (p @ s))"
proof -
  obtain l r where s: "s = l @ CHR 0x0A # r" and l: "CHR 0x0A \<notin> set l"
    using assms newlines_none by (cases "CHR 0x0A" s rule: lines_cases) auto
  have "n \<le> newlines r"
    using assms by (simp add: s newlines_line [OF l] del: newlines_append)
  then have long: "n \<le> length (getlines CHR 0x0A r)"
    using newlines_getlines [of r] by linarith
  have "getlines CHR 0x0A (p @ s) = getlines CHR 0x0A ((p @ l) @ [CHR 0x0A]) @ getlines CHR 0x0A r"
    using getlines_split [of "CHR 0x0A" "p @ l" r] by (simp add: s)
  then show "take_last n (getlines CHR 0x0A (p @ s)) = take_last n (getlines CHR 0x0A s)"
    using long take_last_append_long [of n "getlines CHR 0x0A r" "[l]"]
    by (simp add: take_last_append_long s getlines_line [OF l])
  show "n < length (getlines CHR 0x0A s)"
    using assms newlines_getlines [of s] by linarith
  show "n < length (getlines CHR 0x0A (p @ s))"
    using assms newlines_getlines [of "p @ s"] by simp
qed

section \<open>Reading a file that does not change\<close>

definition static_file :: "string \<Rightarrow> log_file" where
  "static_file contents =
     \<lparr> log_end = int (length contents), log_read = (\<lambda>position n. take n (drop position contents)) \<rparr>"

lemma read_back_static:
  assumes "position \<le> length contents" "concat (rev chunks) = drop position contents"
    and "scanned = length contents - position" "count = newlines (drop position contents)"
  shows "\<exists>position' chunks'.
    read_back (log_read (static_file contents)) max_lines keyword position scanned count chunks = Some (position', chunks') \<and>
    position' \<le> length contents \<and> concat (rev chunks') = drop position' contents \<and>
    (position' = 0 \<or> maximum_scan_bytes \<le> length contents - position' \<or>
     (keyword = [] \<and> max_lines < newlines (drop position' contents)))"
  using assms
proof (induction position arbitrary: scanned count chunks rule: less_induct)
  case (less position)
  show ?case
  proof (cases "0 < position \<and> scanned < maximum_scan_bytes")
    case False
    then show ?thesis
      using less.prems by (auto simp: read_back.simps [of _ _ _ position])
  next
    case True
    let ?block = "min position read_block_size"
    let ?position = "position - ?block"
    let ?chunk = "take ?block (drop ?position contents)"
    have small: "?position < position" and sum: "?position + ?block = position"
      using True by auto
    have "drop ?block (drop ?position contents) = drop position contents"
      using sum by (metis add.commute drop_drop)
    then have split: "drop ?position contents = ?chunk @ drop position contents"
      using append_take_drop_id [of ?block "drop ?position contents"] by metis
    have chunk: "length ?chunk = ?block"
      using less.prems(1) sum by simp
    have chunks: "concat (rev (chunks @ [?chunk])) = drop ?position contents"
      using split less.prems(2) by simp
    have count: "newlines (drop ?position contents) = count + newlines ?chunk"
      using less.prems(4) by (subst split) simp
    have scanned: "scanned + ?block = length contents - ?position"
      using less.prems(1,3) sum by linarith
    have unfold: "read_back (log_read (static_file contents)) max_lines keyword position scanned count chunks =
      (if keyword = [] \<and> max_lines < count + newlines ?chunk then Some (?position, chunks @ [?chunk])
       else read_back (log_read (static_file contents)) max_lines keyword ?position (scanned + ?block)
              (count + newlines ?chunk) (chunks @ [?chunk]))"
      using True chunk
      by (subst read_back.simps) (simp only: Let_def static_file_def log_file.simps newlines_def if_True
          not_True_eq_False if_False simp_thms)
    show ?thesis
    proof (cases "keyword = [] \<and> max_lines < count + newlines ?chunk")
      case True
      then show ?thesis
        using unfold chunks count less.prems(1) by auto
    next
      case False
      have "?position \<le> length contents"
        using less.prems(1) by simp
      from less.IH [OF small this chunks scanned count [symmetric]] show ?thesis
        unfolding unfold if_not_P [OF False] .
    qed
  qed
qed

text \<open>What \<open>ReadLog\<close> promises: the last lines of the file that match.\<close>

definition log_view :: "string \<Rightarrow> nat \<Rightarrow> string \<Rightarrow> log_read_result" where
  "log_view contents max_lines keyword =
     (let matching = filter (wanted keyword) (getlines CHR 0x0A contents) in
      \<lparr> log_lines = take_last max_lines (map shown_line matching),
        log_truncated = (list_ex overlong matching \<or> max_lines < length matching) \<rparr>)"

lemma wanted_all [simp]: "filter (wanted []) raws = raws"
  by (simp add: wanted_def)

lemma read_opened_view:
  assumes "0 < max_lines"
    and "length contents \<le> maximum_scan_bytes \<or>
      (keyword = [] \<and> max_lines < newlines (take_last maximum_scan_bytes contents))"
  shows "read_opened (static_file contents) max_lines keyword = Inr (log_view contents max_lines keyword)"
proof -
  obtain position chunks where
    blocks: "read_back (log_read (static_file contents)) max_lines keyword (length contents) 0 0 [] = Some (position, chunks)"
    and position: "position \<le> length contents" and chunks: "concat (rev chunks) = drop position contents"
    and stop: "position = 0 \<or> maximum_scan_bytes \<le> length contents - position \<or>
      (keyword = [] \<and> max_lines < newlines (drop position contents))"
    using read_back_static [of "length contents" contents "[]" 0 0 max_lines keyword] by (auto simp: newlines_def)
  have opened: "read_opened (static_file contents) max_lines keyword =
    Inr \<lparr> log_lines = take_last max_lines (map shown_line (filter (wanted keyword) (getlines CHR 0x0A (drop position contents)))),
          log_truncated = (((\<exists>raw \<in> set (getlines CHR 0x0A (drop position contents)). wanted keyword raw \<and> overlong raw) \<or>
            max_lines < length (filter (wanted keyword) (getlines CHR 0x0A (drop position contents)))) \<or> 0 < position) \<rparr>"
    using blocks chunks by (simp add: read_opened_def static_file_def select_lines [OF assms(1)])
  show ?thesis
  proof (cases "position = 0")
    case True
    then show ?thesis
      unfolding opened by (auto simp: log_view_def Let_def list_ex_iff)
  next
    case False
    have empty: "keyword = []" and many: "max_lines < newlines (drop position contents)"
    proof -
      have "keyword = [] \<and> max_lines < newlines (drop position contents)"
      proof (cases "maximum_scan_bytes \<le> length contents - position")
        case True
        then have "keyword = []" and count: "max_lines < newlines (take_last maximum_scan_bytes contents)"
          using assms(2) False position by auto
        have "take_last maximum_scan_bytes contents =
            drop (length contents - maximum_scan_bytes - position) (drop position contents)"
          using True by (simp add: take_last_def)
        then have "newlines (take_last maximum_scan_bytes contents) \<le> newlines (drop position contents)"
          using newlines_append [of "take (length contents - maximum_scan_bytes - position) (drop position contents)"
              "drop (length contents - maximum_scan_bytes - position) (drop position contents)"]
          by (simp only: append_take_drop_id)
        with count \<open>keyword = []\<close> show ?thesis by linarith
      qed (use stop False in blast)
      then show "keyword = []" and "max_lines < newlines (drop position contents)" by simp_all
    qed
    note suffix = last_lines_of_suffix(1,3) [OF many, of "take position contents", unfolded append_take_drop_id]
      last_lines_of_suffix(2) [OF many]
    show ?thesis
      unfolding opened using False suffix empty by (simp add: log_view_def take_last_map)
  qed
qed

text \<open>
  C7.  For a file that does not change, \<open>ReadLog\<close> returns exactly the last \<open>max_lines\<close> of
  the matching lines of the whole file, although it reads blocks from the end and starts in the
  middle of a line: whenever the file is at most 8 MiB, and without a keyword also for larger
  files whose last 8 MiB have more than \<open>max_lines\<close> newlines.  The truncation flag is set
  exactly when a matching line was left out or cut.
\<close>

theorem read_log_view:
  assumes "find_allowed_log logs log_id = Some log" "0 < max_lines" "unat max_lines \<le> maximum_lines"
    and "length keyword \<le> maximum_keyword_length" "open_file (al_path log) = Inr (static_file contents)"
    and "length contents \<le> maximum_scan_bytes \<or>
      (keyword = [] \<and> unat max_lines < newlines (take_last maximum_scan_bytes contents))"
  shows "read_log logs open_file log_id max_lines keyword =
    ([al_path log], Inr (log_view contents (unat max_lines) keyword))"
proof -
  have "0 < unat max_lines"
    using assms(2) by (simp add: word_less_nat_alt)
  then have "read_opened (static_file contents) (unat max_lines) keyword =
      Inr (log_view contents (unat max_lines) keyword)"
    using assms(6) by (rule read_opened_view)
  then show ?thesis
    using assms by (auto simp: read_log_def)
qed

theorem read_log_view_witness:
  "read_log (allowed_logs ''/tmp/a.log'') (\<lambda>_. Inr (static_file ''one'')) ''system'' 2 ''n'' =
     ([''/var/log/syslog''], Inr (log_view ''one'' 2 ''n''))"
proof -
  have "find_allowed_log (allowed_logs ''/tmp/a.log'') ''system'' =
      Some \<lparr> al_id = ''system'', al_display_name = ''System log'', al_path = ''/var/log/syslog'' \<rparr>"
    by (simp add: find_allowed_log_def allowed_logs_def)
  from read_log_view [OF this, of 2 "''n''" "\<lambda>_. Inr (static_file ''one'')" "''one''"] show ?thesis
    by simp
qed

text \<open>
  C35.  What a client gets is bounded whatever the file holds, and whatever happens to it while it
  is read: at most \<open>max_lines\<close> lines (1000 at most), each of them well-formed UTF-8 that
  fits a protocol string.  The bound on a line is 12288 bytes: the line is cut to 4096 bytes
  before its invalid bytes are replaced, and a replacement is three bytes long.
\<close>

theorem read_log_bounds:
  assumes "read_log logs open_file log_id max_lines keyword = (opened, Inr result)"
  shows "length (log_lines result) \<le> unat max_lines \<and> unat max_lines \<le> maximum_lines \<and>
    list_all (\<lambda>line. well_formed line \<and> length line \<le> 3 * maximum_line_length) (log_lines result)"
proof -
  obtain log where valid: "max_lines \<noteq> 0" "unat max_lines \<le> maximum_lines"
    and "\<exists>file. read_opened file (unat max_lines) keyword = Inr result"
    using assms by (auto simp: read_log_def split: option.splits if_splits sum.splits)
  then have "\<exists>raws truncated.
      foldl (select_line (unat max_lines) keyword) ([], False) raws = (log_lines result, truncated)"
    by (fastforce simp: read_opened_def Let_def split: if_splits option.splits prod.splits)
  then obtain raws truncated
    where "foldl (select_line (unat max_lines) keyword) ([], False) raws = (log_lines result, truncated)"
    by blast
  moreover have "0 < unat max_lines"
    using valid(1) by (simp add: unat_gt_0)
  ultimately have result: "log_lines result =
      take_last (unat max_lines) (map shown_line (filter (wanted keyword) raws))"
    using select_lines by auto
  have "length (shown_line raw) \<le> 3 * maximum_line_length" for raw
    using sanitize_length [of "take maximum_line_length (drop_carriage_return raw)"]
    by (simp add: shown_line_def)
  moreover have "well_formed (shown_line raw)" for raw
    unfolding shown_line_def by (rule sanitize_well_formed)
  ultimately show ?thesis
    using valid(2) set_take_last [of "unat max_lines" "map shown_line (filter (wanted keyword) raws)"]
    by (auto simp: result length_take_last list_all_iff)
qed

theorem read_log_bounds_witness:
  "\<exists>result. read_log (allowed_logs []) (\<lambda>_. Inr (static_file ''x'')) ''packages'' 1 [] =
     ([''/var/log/dpkg.log''], Inr result) \<and> length (log_lines result) \<le> 1"
proof -
  have "find_allowed_log (allowed_logs []) ''packages'' =
      Some \<lparr> al_id = ''packages'', al_display_name = ''Package manager log'', al_path = ''/var/log/dpkg.log'' \<rparr>"
    by (simp add: find_allowed_log_def allowed_logs_def)
  moreover have "read_opened (static_file ''x'') (unat (1 :: u32)) [] = Inr (log_view ''x'' (unat (1 :: u32)) [])"
    by (rule read_opened_view) simp_all
  ultimately have r: "read_log (allowed_logs []) (\<lambda>_. Inr (static_file ''x'')) ''packages'' 1 [] =
      ([''/var/log/dpkg.log''], Inr (log_view ''x'' (unat (1 :: u32)) []))"
    by (simp add: read_log_def)
  show ?thesis using r read_log_bounds [OF r] by auto
qed

section \<open>The files that a client can reach\<close>

lemma find_allowed_log_Some: "find_allowed_log logs i = Some log \<Longrightarrow> log \<in> set logs \<and> al_id log = i"
  by (auto simp: find_allowed_log_def find_Some_iff)

interpretation log_whitelist: whitelist
  "\<lambda>i (max_lines, keyword). fst (read_log logs open_file i max_lines keyword)"
  "\<lambda>i. find_allowed_log logs i \<noteq> None"
  "\<lambda>i path. \<exists>log \<in> set logs. al_id log = i \<and> al_path log = path"
  for logs open_file
  by unfold_locales
     (auto simp: read_log_def split: option.splits if_splits dest: find_allowed_log_Some)

text \<open>
  However many requests clients make, with whatever ids, the collector opens no file but
  the four of its list: an id is a name looked up in the list and never part of a path.
\<close>

theorem read_log_files:
  "set (concat (map (\<lambda>(log_id, max_lines, keyword).
      fst (read_log (allowed_logs agent_log_path) open_file log_id max_lines keyword)) requests))
   \<subseteq> {''/var/log/syslog'', ''/var/log/dpkg.log'', ''/var/log/apt/history.log'', agent_log_path}"
proof
  fix path
  assume "path \<in> set (concat (map (\<lambda>(log_id, max_lines, keyword).
      fst (read_log (allowed_logs agent_log_path) open_file log_id max_lines keyword)) requests))"
  then obtain log where "log \<in> set (allowed_logs agent_log_path)" "al_path log = path"
    using log_whitelist.session [of path "allowed_logs agent_log_path" open_file requests] by auto
  then show "path \<in> {''/var/log/syslog'', ''/var/log/dpkg.log'', ''/var/log/apt/history.log'', agent_log_path}"
    by (auto simp: allowed_logs_def)
qed

end
