(* ===== verification/Service_Manager.thy ===== *)
theory Service_Manager
  imports Cpp_String Whitelist
begin

text \<open>
  \<open>agent/src/ServiceManager.cpp\<close>: the state of the configured services and the operations on
  them, through a runner of \<open>systemctl\<close> commands.  The runner is a parameter (it is an
  interface of the program), and the POSIX runner is modelled over the results of its
  system calls.  An operation returns the argument lists of the commands that it ran along with
  its result.
\<close>

unbundle bit_operations_syntax

section \<open>Data\<close>

record service_info =
  svc_name :: string
  svc_description :: string
  svc_load_state :: string
  svc_active_state :: string
  svc_sub_state :: string

datatype service_action = SvcStart | SvcStop | SvcRestart

datatype service_manager_error =
    SvcNone | SvcInvalidArgument | SvcNotAllowed | SvcNotFound | SvcPermissionDenied | SvcCommandFailed

record command_result =
  exit_code :: int
  cmd_output :: string

type_synonym command = "string list"
type_synonym runner = "command \<Rightarrow> string + command_result"

section \<open>The POSIX runner\<close>

abbreviation maximum_output_bytes :: nat where "maximum_output_bytes \<equiv> 65536"

text \<open>
  The loop that reads the pipe: the chunks are what the successive calls of \<open>read\<close> give until
  one gives nothing or fails.
\<close>

fun read_output :: "string \<Rightarrow> string list \<Rightarrow> string" where
  "read_output collected [] = collected"
| "read_output collected (chunk # chunks) =
     (if chunk = [] then collected
      else
        (let remaining = maximum_output_bytes - length collected;
             collected = collected @ take (min (length chunk) remaining) chunk
         in if length collected \<ge> maximum_output_bytes then collected
            else read_output collected chunks))"

text \<open>
  The loop on \<open>waitpid\<close>: \<open>Inl\<close> is an error number, \<open>Inr\<close> the status.  The loop ends at the
  first result that is not \<open>EINTR\<close>; where that is an error the status is still 0.  \<open>None\<close>: the
  call has not returned.
\<close>

fun wait_status :: "(errno + nat) list \<Rightarrow> nat option" where
  "wait_status [] = None"
| "wait_status (Inl e # rest) = (if e = EINTR then wait_status rest else Some 0)"
| "wait_status (Inr status # rest) = Some status"

text \<open>\<open>WIFEXITED(status) ? WEXITSTATUS(status) : -1\<close>.\<close>

definition exit_code_of :: "nat \<Rightarrow> int" where
  "exit_code_of status =
     (if status AND 0x7F = 0 then int (drop_bit 8 (status AND 0xFF00)) else - 1)"

definition posix_run ::
  "string option \<Rightarrow> string option \<Rightarrow> string list \<Rightarrow> (errno + nat) list \<Rightarrow> command \<Rightarrow>
   (string + command_result) option" where
  "posix_run pipe_error fork_error chunks waits arguments =
     (if arguments = [] then Some (Inl [])
      else (case pipe_error of
        Some m \<Rightarrow> Some (Inl (''pipe failed: '' @ m))
      | None \<Rightarrow> (case fork_error of
          Some m \<Rightarrow> Some (Inl (''fork failed: '' @ m))
        | None \<Rightarrow>
            map_option (\<lambda>status.
                Inr \<lparr> exit_code = exit_code_of status, cmd_output = read_output [] chunks \<rparr>)
              (wait_status waits))))"

section \<open>The services\<close>

text \<open>The value of the first line that starts with the key and \<open>=\<close>, or nothing.\<close>

fun value_in_lines :: "string \<Rightarrow> string list \<Rightarrow> string" where
  "value_in_lines key [] = []"
| "value_in_lines key (line # rest) =
     (if prefix (key @ ''='') line then drop (length (key @ ''='')) line else value_in_lines key rest)"

definition value_for :: "string \<Rightarrow> string \<Rightarrow> string" where
  "value_for output key = value_in_lines key (getlines CHR 0x0A output)"

definition show_command :: "string \<Rightarrow> command" where
  "show_command name =
     [''show'', ''--no-pager'', ''--property=Description,LoadState,ActiveState,SubState'', name]"

definition service_info_of :: "string \<Rightarrow> command_result \<Rightarrow> service_info" where
  "service_info_of name r =
     (let info = \<lparr> svc_name = name, svc_description = value_for (cmd_output r) ''Description'',
                   svc_load_state = value_for (cmd_output r) ''LoadState'',
                   svc_active_state = value_for (cmd_output r) ''ActiveState'',
                   svc_sub_state = value_for (cmd_output r) ''SubState'' \<rparr>
      in if exit_code r \<noteq> 0 \<or> svc_load_state info = []
         then info \<lparr> svc_load_state := ''unavailable'', svc_active_state := ''unknown'',
                     svc_sub_state := ''unknown'' \<rparr>
         else info)"

fun list_services ::
  "runner \<Rightarrow> string list \<Rightarrow> command list \<times> (string + service_info list)" where
  "list_services run [] = ([], Inr [])"
| "list_services run (name # names) =
     (case run (show_command name) of
        Inl error \<Rightarrow> ([show_command name], Inl error)
      | Inr r \<Rightarrow>
          (case list_services run names of
             (commands, result) \<Rightarrow>
               (show_command name # commands, map_sum id ((#) (service_info_of name r)) result)))"

definition is_allowed :: "string list \<Rightarrow> string \<Rightarrow> bool" where
  "is_allowed allowed_services name \<longleftrightarrow> list_ex (\<lambda>s. s = name) allowed_services"

fun operation_of :: "service_action \<Rightarrow> string" where
  "operation_of SvcStart = ''start''"
| "operation_of SvcStop = ''stop''"
| "operation_of SvcRestart = ''restart''"

definition command_failure :: "command_result \<Rightarrow> service_manager_error \<times> string" where
  "command_failure r =
     (if contains (cmd_output r) ''not found'' then SvcNotFound
      else if contains (cmd_output r) ''permission'' \<or> contains (cmd_output r) ''authentication''
      then SvcPermissionDenied
      else SvcCommandFailed,
      if cmd_output r = [] then ''systemctl operation failed'' else cmd_output r)"

definition control_service ::
  "runner \<Rightarrow> string list \<Rightarrow> string \<Rightarrow> service_action \<Rightarrow>
   command list \<times> ((service_manager_error \<times> string) + unit)" where
  "control_service run allowed_services name action =
     (if name = [] then ([], Inl (SvcInvalidArgument, ''service name is required''))
      else if \<not> is_allowed allowed_services name
      then ([], Inl (SvcNotAllowed, ''service is not in the configured whitelist''))
      else
        (let command = [operation_of action, ''--no-ask-password'', name] in
         ([command],
          (case run command of
             Inl error \<Rightarrow> Inl (SvcCommandFailed, error)
           | Inr r \<Rightarrow> if exit_code r \<noteq> 0 then Inl (command_failure r) else Inr ()))))"

section \<open>Properties of the runner\<close>

lemma read_output_take:
  "list_all (\<lambda>chunk. chunk \<noteq> []) chunks \<Longrightarrow> length collected < maximum_output_bytes \<Longrightarrow>
   read_output collected chunks = take maximum_output_bytes (collected @ concat chunks)"
proof (induction collected chunks rule: read_output.induct)
  case (2 collected chunk chunks)
  let ?room = "maximum_output_bytes - length collected"
  show ?case
  proof (cases "?room \<le> length chunk")
    case True
    then have "length (collected @ take (min (length chunk) ?room) chunk) = maximum_output_bytes"
      using 2 by simp
    with True 2 show ?thesis by (simp add: Let_def)
  next
    case False
    then have "take (min (length chunk) ?room) chunk = chunk" and "length (collected @ chunk) < maximum_output_bytes"
      by simp_all
    with 2 show ?thesis by (simp add: Let_def)
  qed
qed simp

text \<open>
  C36.  The runner keeps the first 64 KiB of what the command wrote, however the pipe cuts it into
  reads, and the exit code is that of the command, whatever number of times a signal interrupts
  the wait.
\<close>

theorem posix_run_result:
  assumes "list_all (\<lambda>chunk. chunk \<noteq> []) chunks" "arguments \<noteq> []" "code < 256"
  shows "posix_run None None chunks (replicate n (Inl EINTR) @ Inr (code * 256) # waits) arguments =
    Some (Inr \<lparr> exit_code = int code, cmd_output = take maximum_output_bytes (concat chunks) \<rparr>)"
proof -
  have "wait_status (replicate n (Inl EINTR) @ Inr (code * 256) # waits) = Some (code * 256)"
    by (induction n) simp_all
  moreover have "exit_code_of (code * 256) = int code"
  proof -
    have "code * 256 AND 0x7F = code * 256 AND mask 7"
      by (simp add: mask_eq_exp_minus_1)
    also have "\<dots> = 0"
      by (simp flip: take_bit_eq_mask add: take_bit_eq_mod)
    finally have low: "code * 256 AND 0x7F = 0" .
    have "code * 256 AND 0xFF00 = push_bit 8 code AND push_bit 8 (mask 8)"
      by (simp add: push_bit_eq_mult mask_eq_exp_minus_1)
    also have "\<dots> = push_bit 8 (code AND mask 8)"
      by simp
    also have "code AND mask 8 = code"
      using assms(3) by (simp flip: take_bit_eq_mask add: take_bit_eq_mod)
    finally show ?thesis
      using low by (simp add: exit_code_of_def push_bit_eq_mult drop_bit_eq_div)
  qed
  moreover have "read_output [] chunks = take maximum_output_bytes (concat chunks)"
    using read_output_take [OF assms(1), of "[]"] by simp
  ultimately show ?thesis
    using assms(2) by (simp add: posix_run_def)
qed

theorem posix_run_result_witness:
  "posix_run None None [''a'', ''b''] [Inl EINTR, Inr 1280] [''show''] =
     Some (Inr \<lparr> exit_code = 5, cmd_output = ''ab'' \<rparr>)"
  using posix_run_result [of "[''a'', ''b'']" "[''show'']" 5 1 "[]"] by simp

section \<open>Properties of the services\<close>

definition property_line :: "string \<times> string \<Rightarrow> string" where
  "property_line kv = fst kv @ ''='' @ snd kv"

lemma property_prefix:
  assumes "CHR ''='' \<notin> set k" "CHR ''='' \<notin> set key"
  shows "prefix (key @ ''='') (k @ ''='' @ v) \<longleftrightarrow> k = key"
proof
  assume "prefix (key @ ''='') (k @ ''='' @ v)"
  then obtain r where "k @ CHR ''='' # v = key @ CHR ''='' # r"
    by (auto simp: prefix_def)
  then have "takeWhile (\<lambda>c. c \<noteq> CHR ''='') (k @ CHR ''='' # v) = takeWhile (\<lambda>c. c \<noteq> CHR ''='') (key @ CHR ''='' # r)"
    by simp
  moreover have "\<forall>c \<in> set k. c \<noteq> CHR ''=''" "\<forall>c \<in> set key. c \<noteq> CHR ''=''"
    using assms by auto
  ultimately show "k = key"
    by (simp add: takeWhile_append_stop)
qed simp

lemma value_for_properties:
  assumes "list_all (\<lambda>(k, v). CHR ''='' \<notin> set k \<and> CHR 0x0A \<notin> set k \<and> CHR 0x0A \<notin> set v) kvs"
    and "CHR ''='' \<notin> set key"
  shows "value_for (file_of_lines (map property_line kvs)) key =
    (case map_of kvs key of None \<Rightarrow> [] | Some v \<Rightarrow> v)"
proof -
  have "\<forall>l \<in> set (map property_line kvs). CHR 0x0A \<notin> set l"
    using assms(1) by (auto simp: property_line_def list_all_iff)
  then have "value_for (file_of_lines (map property_line kvs)) key = value_in_lines key (map property_line kvs)"
    by (simp add: value_for_def getlines_file)
  also have "\<dots> = (case map_of kvs key of None \<Rightarrow> [] | Some v \<Rightarrow> v)"
    using assms(1)
  proof (induction kvs)
    case (Cons kv kvs)
    obtain k v where kv: "kv = (k, v)" by (cases kv)
    have "prefix (key @ ''='') (property_line kv) \<longleftrightarrow> k = key"
      using Cons.prems property_prefix [OF _ assms(2), of k v] by (simp add: kv property_line_def)
    then show ?case
      using Cons by (auto simp: kv property_line_def)
  qed simp
  finally show ?thesis .
qed

text \<open>
  C37.  The properties that \<open>systemctl show\<close> prints are found by name, whatever their order
  and whatever the values (which may contain \<open>=\<close>); a service whose command fails, or that has no
  load state, is shown as unavailable.
\<close>

theorem service_info_of_properties:
  assumes "list_all (\<lambda>(k, v). CHR ''='' \<notin> set k \<and> CHR 0x0A \<notin> set k \<and> CHR 0x0A \<notin> set v) kvs"
  defines "value \<equiv> \<lambda>key. case map_of kvs key of None \<Rightarrow> [] | Some v \<Rightarrow> v"
  shows "service_info_of name \<lparr> exit_code = code, cmd_output = file_of_lines (map property_line kvs) \<rparr> =
    (if code = 0 \<and> value ''LoadState'' \<noteq> []
     then \<lparr> svc_name = name, svc_description = value ''Description'', svc_load_state = value ''LoadState'',
            svc_active_state = value ''ActiveState'', svc_sub_state = value ''SubState'' \<rparr>
     else \<lparr> svc_name = name, svc_description = value ''Description'', svc_load_state = ''unavailable'',
            svc_active_state = ''unknown'', svc_sub_state = ''unknown'' \<rparr>)"
  using value_for_properties [OF assms(1), of "''Description''"] value_for_properties [OF assms(1), of "''LoadState''"]
    value_for_properties [OF assms(1), of "''ActiveState''"] value_for_properties [OF assms(1), of "''SubState''"]
  by (simp add: service_info_of_def value_def)

theorem service_info_of_properties_witness:
  "svc_active_state (service_info_of ''ssh.service''
     \<lparr> exit_code = 0, cmd_output = file_of_lines (map property_line
         [(''ActiveState'', ''active''), (''LoadState'', ''loaded'')]) \<rparr>) = ''active''"
  using service_info_of_properties [of "[(''ActiveState'', ''active''), (''LoadState'', ''loaded'')]" "''ssh.service''" 0]
  by simp

lemma is_allowed_iff: "is_allowed allowed_services name \<longleftrightarrow> name \<in> set allowed_services"
  by (auto simp: is_allowed_def list_ex_iff)

definition control_command :: "string \<Rightarrow> command \<Rightarrow> bool" where
  "control_command name command \<longleftrightarrow>
     (\<exists>operation \<in> {''start'', ''stop'', ''restart''}. command = [operation, ''--no-ask-password'', name])"

lemma operation_of_range: "operation_of action \<in> {''start'', ''stop'', ''restart''}"
  by (cases action) simp_all

interpretation service_whitelist: whitelist
  "\<lambda>name action. fst (control_service run allowed_services name action)"
  "\<lambda>name. name \<noteq> [] \<and> is_allowed allowed_services name"
  control_command
  for run allowed_services
  using operation_of_range
  by unfold_locales (auto simp: control_service_def control_command_def Let_def split: if_splits)

text \<open>
  However many requests clients make, the Agent runs no control command but
  \<open>start\<close>, \<open>stop\<close> or \<open>restart\<close> of a service in its configured list, and a command is three
  separate arguments: no request can add an option or a second command.
\<close>

theorem control_service_commands:
  "\<forall>command \<in> set (concat (map (\<lambda>(name, action). fst (control_service run allowed_services name action)) requests)).
     \<exists>name \<in> set allowed_services. control_command name command"
  using service_whitelist.session [of _ run allowed_services requests] is_allowed_iff by blast

theorem control_service_commands_witness:
  "fst (control_service (\<lambda>_. Inl ''x'') [''ssh.service''] ''ssh.service'' SvcStop) =
     [[''stop'', ''--no-ask-password'', ''ssh.service'']] \<and>
   control_command ''ssh.service'' [''stop'', ''--no-ask-password'', ''ssh.service'']"
proof -
  have f: "fst (control_service (\<lambda>_. Inl ''x'') [''ssh.service''] ''ssh.service'' SvcStop) =
     [[''stop'', ''--no-ask-password'', ''ssh.service'']]"
    by (simp add: control_service_def is_allowed_def)
  show ?thesis
    using control_service_commands [of "\<lambda>_. Inl ''x''" "[''ssh.service'']" "[(''ssh.service'', SvcStop)]"] f
    by simp
qed

text \<open>
  The answer of a control request: a success is one command that ended with exit code 0;
  \<open>kInvalidArgument\<close> and \<open>kNotAllowed\<close> are exactly the requests for which nothing was run,
  the latter those for a name outside the list; a failure always has a message, unless
  the runner itself failed without one, and \<open>kNone\<close> never comes with a failure.
\<close>

theorem control_service_result:
  "case control_service run allowed_services name action of
     (commands, Inr _) \<Rightarrow> \<exists>command r. commands = [command] \<and> run command = Inr r \<and> exit_code r = 0
   | (commands, Inl (code, message)) \<Rightarrow>
       code \<noteq> SvcNone \<and> (code \<in> {SvcInvalidArgument, SvcNotAllowed} \<longleftrightarrow> commands = []) \<and>
       (code = SvcNotAllowed \<longleftrightarrow> name \<noteq> [] \<and> name \<notin> set allowed_services) \<and>
       (message \<noteq> [] \<or> (\<exists>command. commands = [command] \<and> run command = Inl []))"
  by (auto simp: control_service_def command_failure_def is_allowed_iff Let_def split: sum.splits prod.splits)

lemma control_service_result_witness:
  "\<exists>code message. control_service (\<lambda>command. Inr \<lparr> exit_code = 5, cmd_output = ''denied'' \<rparr>)
       [''ssh.service''] ''ssh.service'' SvcStop =
     ([[''stop'', ''--no-ask-password'', ''ssh.service'']], Inl (code, message)) \<and> message \<noteq> []"
  using control_service_result [where run = "\<lambda>command. Inr \<lparr> exit_code = 5, cmd_output = ''denied'' \<rparr>"
      and allowed_services = "[''ssh.service'']" and name = "''ssh.service''" and action = SvcStop]
  by (simp add: control_service_def command_failure_def is_allowed_iff split: if_splits)

section \<open>The list of services\<close>

text \<open>
  The list has one entry for each configured service, in the configured order, unless
  the runner fails: then the first failure is the answer and the services after it are not
  asked.
\<close>

theorem list_services_result:
  "list_services run names =
     (case find (\<lambda>name. \<not> is_ok (run (show_command name))) names of
        None \<Rightarrow> (map show_command names,
                 Inr (map (\<lambda>name. service_info_of name (projr (run (show_command name)))) names))
      | Some failed \<Rightarrow>
          (map show_command (takeWhile (\<lambda>name. is_ok (run (show_command name))) names @ [failed]),
           Inl (projl (run (show_command failed)))))"
  by (induction names) (auto split: sum.splits prod.splits option.splits)

end
