(* ===== verification/Bounded_Store.thy ===== *)
theory Bounded_Store
  imports ES_Prelude
begin

text \<open>
  The contract of a store that keeps the last \<open>bound\<close> of the elements put into it (the diagnostic
  bundles of the Agent, the log lines on the client's screen): \<open>put\<close> adds an element, \<open>kept\<close>
  is what the store holds.  The abstract specification of such a store is the list of all the
  elements put into it, of which it holds the end.
\<close>

locale bounded_store =
  fixes put :: "'b \<Rightarrow> 's \<Rightarrow> 's"
    and kept :: "'s \<Rightarrow> 'b list"
    and bound :: nat
  assumes kept_put: "length (kept s) \<le> bound \<Longrightarrow> kept (put b s) = take_last bound (kept s @ [b])"
    and bound_pos: "0 < bound"
begin

lemma kept_bound: "length (kept s) \<le> bound \<Longrightarrow> length (kept (put b s)) \<le> bound"
  by (simp add: kept_put length_take_last)

lemma take_last_twice: "take_last bound (take_last bound xs @ ys) = take_last bound (xs @ ys)"
proof (cases "length xs \<le> bound")
  case True
  then show ?thesis by (simp add: take_last_all)
next
  case False
  then show ?thesis by (simp add: take_last_def add.commute)
qed

text \<open>The refinement: after any puts the store holds the end of what was put.\<close>

lemma kept_puts:
  "length (kept s) \<le> bound \<Longrightarrow> kept (fold put bs s) = take_last bound (kept s @ bs)"
proof (induction bs arbitrary: s)
  case Nil
  then show ?case by (simp add: take_last_all)
next
  case (Cons b bs)
  have "kept (fold put bs (put b s)) = take_last bound (kept (put b s) @ bs)"
    using Cons.IH [OF kept_bound] Cons.prems by blast
  also have "\<dots> = take_last bound ((kept s @ [b]) @ bs)"
    by (simp only: kept_put [OF Cons.prems] take_last_twice)
  finally show ?case by simp
qed

lemma kept_newest: "length (kept s) \<le> bound \<Longrightarrow> kept (put b s) \<noteq> [] \<and> last (kept (put b s)) = b"
  using bound_pos by (simp add: kept_put take_last_snoc)

end

end
