(* ===== verification/Diagnostic_Collector.thy ===== *)
theory Diagnostic_Collector
  imports Bounded_Store Process_Collector Network_Collector System_Collector Log_Collector Service_Manager
begin

text \<open>
  \<open>agent/src/DiagnosticCollector.cpp\<close>: archives with the state of the machine.  The part of the
  file system that the collector works on is explicit: a map from paths to nodes, changed by the
  operations of \<open>fs_op\<close>, which are recorded, and each of which can fail (\<open>faults\<close>, by the number of
  operations done before); a failed write can leave a partial file.  Paths are compared as they are
  written, with one separator between two names.  What the other collectors give at the time
  of a bundle is a record of their results (\<open>sources\<close>), which \<open>gather_sources\<close> computes with
  the models of those collectors.
\<close>

section \<open>Data\<close>

record diagnostic_bundle_info =
  db_id :: string
  db_filename :: string
  db_size_bytes :: u64
  db_created_at :: u64

record stored_bundle =
  sb_info :: diagnostic_bundle_info
  sb_path :: path

record diagnostic_collector =
  root_directory :: path
  bundles :: "stored_bundle list"
  bundle_sequence :: u64

abbreviation maximum_bundles :: nat where "maximum_bundles \<equiv> 5"
abbreviation recent_log_lines :: u32 where "recent_log_lines \<equiv> 200"

section \<open>The file system\<close>

text \<open>A directory is private when only its owner has permissions on it.\<close>

datatype node = Directory bool | File string

text \<open>
  \<open>create_directory\<close> is \<open>CreateDirectory\<close> where its result counts and \<open>EnsureDirectory\<close> where only
  its error code does, which is no error for a directory that is there already.
\<close>

datatype fs_op =
    CreateDirectories path | CreateDirectory path | EnsureDirectory path | MakePrivate path
  | WriteFile path string | Tar path path | RemoveAll path | Remove path | FileSize path

text \<open>
  A fault of an operation: a failure with the message of the system and what a failed write leaves
  behind (or the last of the directories that \<open>create_directories\<close> got to), or data that is lost without a failure.  \<open>WriteTextFile\<close> checks \<open>output << contents\<close>, which
  fills the stream's buffer; what the destructor of the stream then cannot write is gone, and only
  the text that the fault gives is in the file.
\<close>

datatype fault = Fails string "string option" | Unflushed string

record world =
  fs :: "path \<Rightarrow> node option"
  ops :: "fs_op list"

definition below :: "path \<Rightarrow> path \<Rightarrow> bool" where
  "below p q \<longleftrightarrow> q = p \<or> prefix (p @ ''/'') q"

definition remove_tree :: "path \<Rightarrow> (path \<Rightarrow> node option) \<Rightarrow> (path \<Rightarrow> node option)" where
  "remove_tree p t = (\<lambda>q. if below p q then None else t q)"

text \<open>A path and its parents, outermost first: what \<open>create_directories\<close> creates where it is missing.\<close>

definition ancestors :: "path \<Rightarrow> path list" where
  "ancestors p = map (\<lambda>i. take i p) (filter (\<lambda>i. i = length p \<or> p ! i = CHR ''/'') [1..<Suc (length p)])"

definition make_directories :: "path \<Rightarrow> (path \<Rightarrow> node option) \<Rightarrow> (path \<Rightarrow> node option)" where
  "make_directories p t = (\<lambda>q. if q \<in> set (ancestors p) \<and> t q = None then Some (Directory False) else t q)"

definition is_file :: "node option \<Rightarrow> bool" where
  "is_file entry \<longleftrightarrow> (case entry of Some (File _) \<Rightarrow> True | _ \<Rightarrow> False)"

text \<open>\<open>tar_gzip t p\<close> is the archive of the tree below \<open>p\<close> (the output of \<open>tar\<close>).\<close>

type_synonym tar_gzip = "(path \<Rightarrow> node option) \<Rightarrow> path \<Rightarrow> string"

fun fs_effect :: "tar_gzip \<Rightarrow> fs_op \<Rightarrow> (path \<Rightarrow> node option) \<Rightarrow> (path \<Rightarrow> node option)" where
  "fs_effect tar (CreateDirectories p) t = make_directories p t"
| "fs_effect tar (CreateDirectory p) t = t(p \<mapsto> Directory False)"
| "fs_effect tar (EnsureDirectory p) t = (if t p = None then t(p \<mapsto> Directory False) else t)"
| "fs_effect tar (MakePrivate p) t = t(p \<mapsto> Directory True)"
| "fs_effect tar (WriteFile p contents) t = t(p \<mapsto> File contents)"
| "fs_effect tar (Tar source destination) t = t(destination \<mapsto> File (tar t source))"
| "fs_effect tar (RemoveAll p) t = remove_tree p t"
| "fs_effect tar (Remove p) t = t(p := None)"
| "fs_effect tar (FileSize p) t = t"

fun fault_effect :: "fs_op \<Rightarrow> string option \<Rightarrow> (path \<Rightarrow> node option) \<Rightarrow> (path \<Rightarrow> node option)" where
  "fault_effect (CreateDirectories p) (Some reached) t =
     (if reached \<in> set (ancestors p) then make_directories reached t else t)"
| "fault_effect (WriteFile p _) (Some partial) t = t(p \<mapsto> File partial)"
| "fault_effect (Tar _ destination) (Some partial) t = t(destination \<mapsto> File partial)"
| "fault_effect _ _ t = t"

text \<open>
  The operations that fail because of what they find: the message, where it is known
  (\<open>create_directory\<close> on a path that exists only returns \<open>false\<close>, its error code is that of
  a success).
\<close>

fun refused :: "fs_op \<Rightarrow> (path \<Rightarrow> node option) \<Rightarrow> string option" where
  "refused (CreateDirectories p) t =
     (if list_ex (\<lambda>q. is_file (t q)) (ancestors p) then Some ''Not a directory'' else None)"
| "refused (EnsureDirectory p) t = (if is_file (t p) then Some ''Not a directory'' else None)"
| "refused (CreateDirectory p) t = (if t p \<noteq> None then Some ''Success'' else None)"
| "refused (MakePrivate p) t = (if t p = None then Some ''No such file or directory'' else None)"
| "refused (FileSize p) t = (if t p = None then Some ''No such file or directory'' else None)"
| "refused _ t = None"

type_synonym faults = "nat \<Rightarrow> fs_op \<Rightarrow> fault option"

text \<open>What an operation that reports no failure does: only a buffered write can lose data.\<close>

fun performed :: "fs_op \<Rightarrow> fault option \<Rightarrow> fs_op" where
  "performed (WriteFile p contents) (Some (Unflushed kept)) = WriteFile p kept"
| "performed oper _ = oper"

text \<open>One operation: the message of its failure, or \<open>None\<close>, and the world after it.\<close>

definition fs_do :: "tar_gzip \<Rightarrow> faults \<Rightarrow> fs_op \<Rightarrow> world \<Rightarrow> string option \<times> world" where
  "fs_do tar faults oper w =
     (let w' = w \<lparr> ops := ops w @ [oper] \<rparr> in
      case faults (length (ops w)) oper of
        Some (Fails message partial) \<Rightarrow> (Some message, w' \<lparr> fs := fault_effect oper partial (fs w) \<rparr>)
      | unnoticed \<Rightarrow>
          (case refused oper (fs w) of
             Some message \<Rightarrow> (Some message, w')
           | None \<Rightarrow> (None, w' \<lparr> fs := fs_effect tar (performed oper unnoticed) (fs w) \<rparr>)))"

section \<open>The text of the files\<close>

definition newline :: string where "newline = [CHR 0x0A]"
definition tab :: string where "tab = [CHR 0x09]"

definition show_u64 :: "u64 \<Rightarrow> string" where "show_u64 w = show_nat (unat w)"
definition show_u32 :: "u32 \<Rightarrow> string" where "show_u32 w = show_nat (unat w)"
definition show_i32 :: "i32 \<Rightarrow> string" where "show_i32 w = show_int (sint w)"

definition hostname_text :: "string option \<Rightarrow> string" where
  "hostname_text result = (case result of None \<Rightarrow> ''unknown'' | Some name \<Rightarrow> name)"

definition system_text :: "string \<Rightarrow> string \<Rightarrow> system_metrics \<Rightarrow> string" where
  "system_text host release m =
     ''hostname: '' @ host @ newline @
     ''kernel: '' @ release @ newline @
     ''cpu_usage_percent: '' @ show_double_fixed 2 (cpu_usage_percent m) @ newline @
     ''memory_total_bytes: '' @ show_u64 (memory_total_bytes m) @ newline @
     ''memory_available_bytes: '' @ show_u64 (memory_available_bytes m) @ newline @
     ''memory_used_bytes: '' @ show_u64 (memory_used_bytes m) @ newline @
     ''load_average: '' @ show_double_fixed 2 (load_average_1m m) @ '' '' @
       show_double_fixed 2 (load_average_5m m) @ '' '' @ show_double_fixed 2 (load_average_15m m) @ newline @
     ''uptime_seconds: '' @ show_u64 (uptime_seconds m) @ newline"

definition process_row :: "process_info \<Rightarrow> string" where
  "process_row p =
     join tab [show_i32 (p_pid p), show_i32 (p_ppid p), p_state p, show_double (p_cpu_usage_percent p),
       show_u64 (p_resident_memory_bytes p), show_u32 (p_thread_count p), p_name p, p_command_line p] @ newline"

definition processes_text :: "process_info list \<Rightarrow> string" where
  "processes_text ps =
     join tab [''PID'', ''PPID'', ''STATE'', ''CPU%'', ''RSS_BYTES'', ''THREADS'', ''NAME'', ''COMMAND''] @ newline @
     concat (map process_row ps)"

definition interface_row :: "network_interface_info \<Rightarrow> string" where
  "interface_row i =
     join tab [if_name i, if_state i, join '','' (ipv4_addresses i), join '','' (ipv6_addresses i),
       show_u64 (rx_bytes i), show_u64 (tx_bytes i)] @ newline"

definition connection_row :: "tcp_connection_info \<Rightarrow> string" where
  "connection_row c =
     join tab [protocol c, local_address c @ '':'' @ show_u32 (local_port c),
       remote_address c @ '':'' @ show_u32 (remote_port c), tcp_state c, show_i32 (tcp_pid c)] @ newline"

section \<open>What the other collectors give\<close>

record sources =
  src_processes :: "string + process_info list"
  src_interfaces :: "string + network_interface_info list"
  src_connections :: "string + tcp_connection_info list"
  src_logs :: "(log_source_info \<times> ((log_collector_error \<times> string) + log_read_result)) list"

definition network_text :: "sources \<Rightarrow> string" where
  "network_text s =
     (case src_interfaces s of
        Inl _ \<Rightarrow> [] | Inr is \<Rightarrow> ''INTERFACES'' @ newline @ concat (map interface_row is)) @
     (case src_connections s of
        Inl _ \<Rightarrow> [] | Inr cs \<Rightarrow> newline @ ''TCP_CONNECTIONS'' @ newline @ concat (map connection_row cs))"

definition available_logs ::
  "sources \<Rightarrow> (log_source_info \<times> ((log_collector_error \<times> string) + log_read_result)) list" where
  "available_logs s = filter (\<lambda>(source, _). ls_available source) (src_logs s)"

definition log_text :: "log_read_result \<Rightarrow> string" where
  "log_text r = concat (map (\<lambda>line. line @ newline) (log_lines r))"

definition failures_text :: "sources \<Rightarrow> string" where
  "failures_text s =
     (case src_processes s of Inl e \<Rightarrow> ''processes: '' @ e @ newline | Inr _ \<Rightarrow> []) @
     (case src_interfaces s of Inl e \<Rightarrow> ''interfaces: '' @ e @ newline | Inr _ \<Rightarrow> []) @
     (case src_connections s of Inl e \<Rightarrow> ''tcp_connections: '' @ e @ newline | Inr _ \<Rightarrow> []) @
     concat (map (\<lambda>(source, r). case r of
         Inl (_, e) \<Rightarrow> ''log '' @ ls_id source @ '': '' @ e @ newline | Inr _ \<Rightarrow> []) (available_logs s))"

section \<open>One bundle\<close>

text \<open>
  The operations that fill the staging directory, in order, each with the error text of its
  failure.  The process file is left out when the processes cannot be listed.
\<close>

definition write_step :: "path \<Rightarrow> string \<Rightarrow> string \<Rightarrow> fs_op \<times> string" where
  "write_step directory name contents =
     (WriteFile (directory @ ''/'' @ name) contents, ''failed to write diagnostic file: '' @ name)"

definition staging_plan :: "path \<Rightarrow> string \<Rightarrow> string \<Rightarrow> system_metrics \<Rightarrow> sources \<Rightarrow> (fs_op \<times> string) list" where
  "staging_plan staging host release m s =
     [write_step staging ''system_info.txt'' (system_text host release m),
      write_step staging ''agent_version.txt'' (''1.0.0'' @ newline)] @
     (case src_processes s of
        Inl _ \<Rightarrow> [] | Inr ps \<Rightarrow> [write_step staging ''processes.txt'' (processes_text ps)]) @
     [write_step staging ''network.txt'' (network_text s),
      (EnsureDirectory (staging @ ''/recent_logs''), ''failed to create recent_logs directory'')] @
     concat (map (\<lambda>(source, r). case r of
         Inl _ \<Rightarrow> []
       | Inr result \<Rightarrow> [write_step (staging @ ''/recent_logs'') (ls_id source @ ''.log'') (log_text result)])
       (available_logs s)) @
     [write_step staging ''collection_errors.txt'' (failures_text s)]"

text \<open>Steps run until one fails: its error text, or \<open>None\<close>.\<close>

fun run_plan :: "tar_gzip \<Rightarrow> faults \<Rightarrow> (fs_op \<times> string) list \<Rightarrow> world \<Rightarrow> string option \<times> world" where
  "run_plan tar faults [] w = (None, w)"
| "run_plan tar faults ((oper, error) # rest) w =
     (case fs_do tar faults oper w of
        (Some _, w') \<Rightarrow> (Some error, w')
      | (None, w') \<Rightarrow> run_plan tar faults rest w')"

text \<open>The child process: the result of \<open>fork\<close> and of the calls of \<open>waitpid\<close>.\<close>

fun wait_tar :: "(errno + nat) list \<Rightarrow> nat option" where
  "wait_tar [] = None"
| "wait_tar (Inl e # rest) = (if e = EINTR then wait_tar rest else None)"
| "wait_tar (Inr status # rest) = Some status"

definition tar_error :: "bool \<Rightarrow> (errno + nat) list \<Rightarrow> string option" where
  "tar_error forked waits =
     (if \<not> forked then Some ''failed to fork tar process''
      else (case wait_tar waits of
              None \<Rightarrow> Some ''tar failed to create diagnostic archive''
            | Some status \<Rightarrow>
                if exit_code_of status \<noteq> 0 then Some ''tar failed to create diagnostic archive'' else None))"

record bundle_inputs =
  in_timestamp :: u64
  in_pid :: int
  in_hostname :: "string option"
  in_kernel :: string
  in_tar_forked :: bool
  in_tar_waits :: "(errno + nat) list"
  in_tar_partial :: "string option"

text \<open>\<open>tar\<close> succeeds or fails as the wait says, with the partial archive of a failure.\<close>

definition create_tar_gzip ::
  "tar_gzip \<Rightarrow> bundle_inputs \<Rightarrow> path \<Rightarrow> path \<Rightarrow> world \<Rightarrow> string option \<times> world" where
  "create_tar_gzip tar inp source destination w =
     (case tar_error (in_tar_forked inp) (in_tar_waits inp) of
        None \<Rightarrow> fs_do tar (\<lambda>_ _. None) (Tar source destination) w
      | Some message \<Rightarrow>
          fs_do tar (\<lambda>_ _. Some (Fails message (in_tar_partial inp))) (Tar source destination) w)"

definition prepare_root :: "tar_gzip \<Rightarrow> faults \<Rightarrow> path \<Rightarrow> world \<Rightarrow> string option \<times> world" where
  "prepare_root tar faults directory w =
     (case fs_do tar faults (CreateDirectories directory) w of
        (Some message, w) \<Rightarrow> (Some (''failed to create diagnostic directory: '' @ message), w)
      | (None, w) \<Rightarrow>
          (case fs_do tar faults (MakePrivate directory) w of
             (Some message, w) \<Rightarrow> (Some (''failed to secure diagnostic directory: '' @ message), w)
           | (None, w) \<Rightarrow> (None, w)))"

text \<open>The bundles beyond the last five go, their archives too (a failure to remove is ignored).\<close>

fun remove_old_bundles :: "tar_gzip \<Rightarrow> faults \<Rightarrow> stored_bundle list \<Rightarrow> world \<Rightarrow> stored_bundle list \<times> world" where
  "remove_old_bundles tar faults [] w = ([], w)"
| "remove_old_bundles tar faults (b # bs) w =
     (if length (b # bs) > maximum_bundles
      then remove_old_bundles tar faults bs (snd (fs_do tar faults (Remove (sb_path b)) w))
      else (b # bs, w))"

definition bundle_id :: "bundle_inputs \<Rightarrow> u64 \<Rightarrow> string" where
  "bundle_id inp seq = show_u64 (in_timestamp inp) @ ''-'' @ show_int (in_pid inp) @ ''-'' @ show_u64 seq"

definition staging_path :: "path \<Rightarrow> string \<Rightarrow> path" where
  "staging_path directory i = directory @ ''/staging-'' @ i"

definition archive_name :: "string \<Rightarrow> string" where
  "archive_name i = ''edgescope-diagnostic-'' @ i @ ''.tar.gz''"

definition archive_path :: "path \<Rightarrow> string \<Rightarrow> path" where
  "archive_path directory i = directory @ ''/'' @ archive_name i"

definition file_size :: "(path \<Rightarrow> node option) \<Rightarrow> path \<Rightarrow> u64" where
  "file_size t p = (case t p of Some (File contents) \<Rightarrow> word_of_nat (length contents) | _ \<Rightarrow> 0)"

text \<open>From the private staging directory to the archive: the staging directory goes in any case.\<close>

definition build_archive ::
  "tar_gzip \<Rightarrow> faults \<Rightarrow> bundle_inputs \<Rightarrow> sources \<Rightarrow> system_metrics \<Rightarrow> path \<Rightarrow> path \<Rightarrow> world \<Rightarrow>
   string option \<times> world" where
  "build_archive tar faults inp s metrics staging archive w =
     (let (failure, w) =
            (case run_plan tar faults
                    (staging_plan staging (hostname_text (in_hostname inp)) (in_kernel inp) metrics s) w of
               (Some error, w) \<Rightarrow> (Some error, w)
             | (None, w) \<Rightarrow> create_tar_gzip tar inp staging archive w);
          (_, w) = fs_do tar faults (RemoveAll staging) w
      in (failure, w))"

definition discard :: "tar_gzip \<Rightarrow> faults \<Rightarrow> path \<Rightarrow> world \<Rightarrow> world" where
  "discard tar faults p w = snd (fs_do tar faults (Remove p) w)"

definition create_bundle ::
  "tar_gzip \<Rightarrow> faults \<Rightarrow> bundle_inputs \<Rightarrow> sources \<Rightarrow> system_metrics \<Rightarrow> diagnostic_collector \<Rightarrow> world \<Rightarrow>
   (string + diagnostic_bundle_info) \<times> diagnostic_collector \<times> world" where
  "create_bundle tar faults inp s metrics st w =
     (case prepare_root tar faults (root_directory st) w of
        (Some error, w) \<Rightarrow> (Inl error, st, w)
      | (None, w) \<Rightarrow>
          (let seq = bundle_sequence st + 1;
               st = st \<lparr> bundle_sequence := seq \<rparr>;
               i = bundle_id inp seq;
               staging = staging_path (root_directory st) i;
               archive = archive_path (root_directory st) i
           in
          (case fs_do tar faults (CreateDirectory staging) w of
             (Some m, w) \<Rightarrow> (Inl (''failed to create diagnostic staging directory: '' @ m), st, w)
           | (None, w) \<Rightarrow>
          (case fs_do tar faults (MakePrivate staging) w of
             (Some m, w) \<Rightarrow>
               (Inl (''failed to secure diagnostic staging directory: '' @ m), st,
                snd (fs_do tar faults (RemoveAll staging) w))
           | (None, w) \<Rightarrow>
          (case build_archive tar faults inp s metrics staging archive w of
             (Some error, w) \<Rightarrow> (Inl error, st, discard tar faults archive w)
           | (None, w) \<Rightarrow>
          (case fs_do tar faults (FileSize archive) w of
             (Some _, w) \<Rightarrow>
               (Inl ''failed to determine diagnostic archive size'', st, discard tar faults archive w)
           | (None, w) \<Rightarrow>
               (let info = \<lparr> db_id = i, db_filename = archive_name i,
                             db_size_bytes = file_size (fs w) archive, db_created_at = in_timestamp inp \<rparr>;
                    (kept, w) = remove_old_bundles tar faults
                      (bundles st @ [\<lparr> sb_info = info, sb_path = archive \<rparr>]) w
                in (Inr info, st \<lparr> bundles := kept \<rparr>, w))))))))"

section \<open>Looking a bundle up, and the destructor\<close>

definition get_bundle_path :: "diagnostic_collector \<Rightarrow> string \<Rightarrow> string + (path \<times> u64)" where
  "get_bundle_path st i =
     (case find (\<lambda>b. db_id (sb_info b) = i) (bundles st) of
        None \<Rightarrow> Inl ''diagnostic bundle not found''
      | Some b \<Rightarrow> Inr (sb_path b, db_size_bytes (sb_info b)))"

definition destroy_collector :: "tar_gzip \<Rightarrow> faults \<Rightarrow> diagnostic_collector \<Rightarrow> world \<Rightarrow> world" where
  "destroy_collector tar faults st w = fold (\<lambda>b. discard tar faults (sb_path b)) (bundles st) w"

definition new_diagnostic_collector :: "path \<Rightarrow> diagnostic_collector" where
  "new_diagnostic_collector directory = \<lparr> root_directory = directory, bundles = [], bundle_sequence = 0 \<rparr>"

section \<open>The sources, from the models of the other collectors\<close>

definition gather_sources ::
  "string + (string \<times> file_reader) list \<Rightarrow> int \<Rightarrow> ntop \<Rightarrow> file_reader \<Rightarrow> string + ifaddrs list \<Rightarrow>
   (string \<times> string option list) list \<Rightarrow> (path \<Rightarrow> bool) \<Rightarrow> allowed_log list \<Rightarrow>
   (path \<Rightarrow> errno + log_file) \<Rightarrow> sources" where
  "gather_sources proc_directory hz inet_ntop read_file getifaddrs proc_entries is_regular logs open_file =
     \<lparr> src_processes = list_processes proc_directory hz,
       src_interfaces = get_interfaces inet_ntop read_file getifaddrs,
       src_connections = list_tcp_connections inet_ntop read_file proc_entries,
       src_logs = map (\<lambda>source. (source, snd (read_log logs open_file (ls_id source) recent_log_lines [])))
         (list_logs is_regular logs) \<rparr>"

section \<open>What an operation changes\<close>

fun affects :: "fs_op \<Rightarrow> path \<Rightarrow> bool" where
  "affects (CreateDirectories p) q = (q \<in> set (ancestors p))"
| "affects (EnsureDirectory p) q = (q = p)"
| "affects (CreateDirectory p) q = (q = p)"
| "affects (MakePrivate p) q = (q = p)"
| "affects (WriteFile p _) q = (q = p)"
| "affects (Tar _ destination) q = (q = destination)"
| "affects (RemoveAll p) q = below p q"
| "affects (Remove p) q = (q = p)"
| "affects (FileSize p) q = False"

lemma ancestors_iff: "q \<in> set (ancestors p) \<longleftrightarrow> q \<noteq> [] \<and> (q = p \<or> prefix (q @ ''/'') p)"
proof -
  have "q \<in> set (ancestors p) \<longleftrightarrow> (\<exists>i. 1 \<le> i \<and> i \<le> length p \<and> (i = length p \<or> p ! i = CHR ''/'') \<and> q = take i p)"
    by (auto simp: ancestors_def)
  also have "\<dots> \<longleftrightarrow> q \<noteq> [] \<and> (q = p \<or> prefix (q @ ''/'') p)"
  proof
    assume "\<exists>i. 1 \<le> i \<and> i \<le> length p \<and> (i = length p \<or> p ! i = CHR ''/'') \<and> q = take i p"
    then obtain i where i: "1 \<le> i" "i \<le> length p" "i = length p \<or> p ! i = CHR ''/''" "q = take i p"
      by blast
    then have "prefix (q @ ''/'') p" if "i < length p"
      using that take_Suc_conv_app_nth [OF that] take_is_prefix [of "Suc i" p] by auto
    with i show "q \<noteq> [] \<and> (q = p \<or> prefix (q @ ''/'') p)"
      by (cases "i = length p") auto
  next
    assume q: "q \<noteq> [] \<and> (q = p \<or> prefix (q @ ''/'') p)"
    show "\<exists>i. 1 \<le> i \<and> i \<le> length p \<and> (i = length p \<or> p ! i = CHR ''/'') \<and> q = take i p"
      using q by (intro exI [of _ "length q"]) (auto simp: prefix_def Suc_le_eq nth_append)
  qed
  finally show ?thesis .
qed

lemma ancestors_length: "q \<in> set (ancestors p) \<Longrightarrow> length q \<le> length p"
  by (auto simp: ancestors_iff dest: prefix_length_le)

lemma ancestors_trans: "q \<in> set (ancestors p) \<Longrightarrow> p \<in> set (ancestors r) \<Longrightarrow> q \<in> set (ancestors r)"
  by (auto simp: ancestors_iff prefix_def)

lemma fs_effect_frame: "\<not> affects oper q \<Longrightarrow> fs_effect tar oper t q = t q"
  by (cases oper) (auto simp: remove_tree_def make_directories_def)

lemma fault_effect_frame: "\<not> affects oper q \<Longrightarrow> fault_effect oper partial t q = t q"
  by (cases oper; cases partial) (auto simp: make_directories_def dest: ancestors_trans)

lemma affects_performed [simp]: "affects (performed oper f) q = affects oper q"
  by (induction oper f rule: performed.induct) simp_all

lemma fs_do_frame: "\<not> affects oper q \<Longrightarrow> fs (snd (fs_do tar faults oper w)) q = fs w q"
  by (simp add: fs_do_def Let_def fs_effect_frame fault_effect_frame split: option.split fault.split)

lemma fs_do_frame_pair: "fs_do tar faults oper w = (r, w') \<Longrightarrow> \<not> affects oper q \<Longrightarrow> fs w' q = fs w q"
  using fs_do_frame [of oper q tar faults w] by simp

lemma run_plan_frame:
  "\<forall>step \<in> set plan. \<not> affects (fst step) q \<Longrightarrow> fs (snd (run_plan tar faults plan w)) q = fs w q"
proof (induction tar faults plan w rule: run_plan.induct)
  case (2 tar faults oper error rest w)
  then show ?case
    using fs_do_frame [of oper q tar faults w]
    by (auto split: prod.split option.split)
qed simp

lemma below_refl [simp]: "below p p"
  by (simp add: below_def)

lemma below_child [simp]: "below p (p @ CHR ''/'' # name)"
  by (simp add: below_def)

lemma staging_plan_below:
  "step \<in> set (staging_plan staging host rel m s) \<Longrightarrow> affects (fst step) q \<Longrightarrow> below staging q"
  by (auto simp: staging_plan_def write_step_def split: sum.splits)

text \<open>The streams write out what they hold when they are destroyed.\<close>

definition flushes :: "faults \<Rightarrow> bool" where
  "flushes faults \<longleftrightarrow> (\<forall>n p contents kept. faults n (WriteFile p contents) \<noteq> Some (Unflushed kept))"

lemma performed_flushes: "flushes faults \<Longrightarrow> performed oper (faults n oper) = oper"
  by (cases "(oper, faults n oper)" rule: performed.cases) (auto simp: flushes_def)

text \<open>Cleaning up: the removals that the collector asks for succeed.\<close>

definition cleans :: "faults \<Rightarrow> bool" where
  "cleans faults \<longleftrightarrow> (\<forall>n p. faults n (RemoveAll p) = None \<and> faults n (Remove p) = None)"

lemma fs_do_remove_all: "cleans faults \<Longrightarrow> fs (snd (fs_do tar faults (RemoveAll p) w)) = remove_tree p (fs w)"
  by (simp add: fs_do_def cleans_def)

lemma fs_do_remove: "cleans faults \<Longrightarrow> fs (snd (fs_do tar faults (Remove p) w)) = (fs w)(p := None)"
  by (simp add: fs_do_def cleans_def)

lemma discard_fs: "cleans faults \<Longrightarrow> fs (discard tar faults p w) = (fs w)(p := None)"
  by (simp add: discard_def fs_do_remove)

lemma create_tar_frame: "q \<noteq> destination \<Longrightarrow> fs (snd (create_tar_gzip tar inp source destination w)) q = fs w q"
  by (simp add: create_tar_gzip_def fs_do_frame split: option.split)

text \<open>The work of a bundle before the staging directory goes.\<close>

definition stage_and_pack ::
  "tar_gzip \<Rightarrow> faults \<Rightarrow> bundle_inputs \<Rightarrow> sources \<Rightarrow> system_metrics \<Rightarrow> path \<Rightarrow> path \<Rightarrow> world \<Rightarrow>
   string option \<times> world" where
  "stage_and_pack tar faults inp s metrics staging archive w =
     (case run_plan tar faults
             (staging_plan staging (hostname_text (in_hostname inp)) (in_kernel inp) metrics s) w of
        (Some error, w) \<Rightarrow> (Some error, w)
      | (None, w) \<Rightarrow> create_tar_gzip tar inp staging archive w)"

lemma build_archive_eq:
  "build_archive tar faults inp s m staging archive w =
     (let r = stage_and_pack tar faults inp s m staging archive w
      in (fst r, snd (fs_do tar faults (RemoveAll staging) (snd r))))"
  by (simp add: build_archive_def stage_and_pack_def Let_def split: prod.split)

lemma stage_and_pack_frame:
  assumes "\<not> below staging q" "q \<noteq> archive"
  shows "fs (snd (stage_and_pack tar faults inp s m staging archive w)) q = fs w q"
proof -
  let ?plan = "staging_plan staging (hostname_text (in_hostname inp)) (in_kernel inp) m s"
  have plan: "fs (snd (run_plan tar faults ?plan w)) q = fs w q"
    using staging_plan_below assms(1) by (intro run_plan_frame) blast
  obtain r v where run: "run_plan tar faults ?plan w = (r, v)"
    by fastforce
  show ?thesis
    using plan create_tar_frame [OF assms(2), of tar inp staging v]
    by (cases r) (simp_all add: stage_and_pack_def run)
qed

lemma build_archive_frame:
  assumes "\<not> below staging q" "q \<noteq> archive"
  shows "fs (snd (build_archive tar faults inp s m staging archive w)) q = fs w q"
  using stage_and_pack_frame [OF assms, of tar faults inp s m w] assms(1)
  by (simp add: build_archive_eq Let_def fs_do_frame)

lemma build_archive_clean:
  "cleans faults \<Longrightarrow> below staging q \<Longrightarrow>
     fs (snd (build_archive tar faults inp s m staging archive w)) q = None"
  by (simp add: build_archive_eq Let_def fs_do_remove_all remove_tree_def)

lemma run_plan_error:
  "fst (run_plan tar faults plan w) = Some e \<Longrightarrow> \<forall>step \<in> set plan. snd step \<noteq> [] \<Longrightarrow> e \<noteq> []"
  by (induction tar faults plan w rule: run_plan.induct) (auto split: prod.splits option.splits)

lemma staging_plan_error:
  "\<forall>step \<in> set (staging_plan staging host rel m s). snd step \<noteq> []"
  by (auto simp: staging_plan_def write_step_def split: sum.splits)

lemma create_tar_error: "fst (create_tar_gzip tar inp staging archive v) = Some e \<Longrightarrow> e \<noteq> []"
  by (auto simp: create_tar_gzip_def tar_error_def fs_do_def Let_def split: option.splits if_splits)

lemma build_archive_error:
  assumes "fst (build_archive tar faults inp s m staging archive w) = Some e"
  shows "e \<noteq> []"
proof -
  let ?plan = "staging_plan staging (hostname_text (in_hostname inp)) (in_kernel inp) m s"
  obtain r v where run: "run_plan tar faults ?plan w = (r, v)"
    by fastforce
  show ?thesis
    using assms run_plan_error [OF _ staging_plan_error, of tar faults staging "hostname_text (in_hostname inp)"
        "in_kernel inp" m s w e] create_tar_error [of tar inp staging archive v e]
    by (cases r) (simp_all add: build_archive_eq stage_and_pack_def Let_def run)
qed

section \<open>Paths and identifiers\<close>

lemma staging_not_archive [simp]: "\<not> below (staging_path r i) (archive_path r j)"
  by (simp add: below_def staging_path_def archive_path_def archive_name_def)

lemma staging_not_root [simp]: "\<not> below (staging_path r i) r"
  by (auto simp: below_def staging_path_def prefix_def)

lemma archive_not_root [simp]: "archive_path r i \<noteq> r" "r \<noteq> archive_path r i"
  by (simp_all add: archive_path_def)

lemma archive_not_ancestor [simp]: "archive_path r i \<notin> set (ancestors r)"
  by (auto simp: archive_path_def dest: ancestors_length)

lemma staging_not_ancestor [simp]: "q \<in> set (ancestors r) \<Longrightarrow> \<not> below (staging_path r i) q"
  by (auto simp: below_def staging_path_def dest!: ancestors_length prefix_length_le)

lemma archive_path_inj [simp]: "archive_path r i = archive_path r j \<longleftrightarrow> i = j"
  by (simp add: archive_path_def archive_name_def)

lemma bundle_id_sequence:
  "bundle_id inp s1 = bundle_id inp' s2 \<Longrightarrow> s1 = s2"
proof -
  assume eq: "bundle_id inp s1 = bundle_id inp' s2"
  have tail: "rev (takeWhile (\<lambda>c. c \<noteq> CHR ''-'') (rev (bundle_id x s))) = show_u64 s" for x s
  proof -
    have digits: "\<forall>c \<in> set (rev (show_u64 s)). c \<noteq> CHR ''-''"
      by (auto simp: show_u64_def dest!: show_nat_digits simp: isdigit_def)
    have "rev (bundle_id x s) =
        rev (show_u64 s) @ CHR ''-'' # rev (show_u64 (in_timestamp x) @ ''-'' @ show_int (in_pid x))"
      by (simp add: bundle_id_def)
    then show ?thesis
      by (simp only: takeWhile_append_stop [OF digits] simp_thms not_False_eq_True rev_rev_ident)
  qed
  have "value_of 10 (show_u64 s1) = value_of 10 (show_u64 s2)"
    using arg_cong [OF eq, of "\<lambda>s. value_of 10 (rev (takeWhile (\<lambda>c. c \<noteq> CHR ''-'') (rev s)))"]
    by (simp only: tail)
  then show ?thesis
    by (simp add: show_u64_def unsigned_word_eqI)
qed

section \<open>The store of bundles\<close>

lemma excess_Suc: "4 < (n::nat) \<Longrightarrow> n - 4 = Suc (n - maximum_bundles)"
  by simp

lemma remove_old_bundles_kept: "fst (remove_old_bundles tar faults bs w) = take_last maximum_bundles bs"
proof (induction tar faults bs w rule: remove_old_bundles.induct)
  case (2 tar faults b bs w)
  then show ?case
    by (cases "length bs > 4") (simp_all add: take_last_def excess_Suc)
qed (simp add: take_last_def)

definition store_bundle :: "tar_gzip \<Rightarrow> faults \<Rightarrow> world \<Rightarrow> stored_bundle \<Rightarrow> diagnostic_collector \<Rightarrow> diagnostic_collector" where
  "store_bundle tar faults w b st =
     st \<lparr> bundles := fst (remove_old_bundles tar faults (bundles st @ [b]) w) \<rparr>"

interpretation diagnostic_store: bounded_store "store_bundle tar faults w" bundles maximum_bundles
  for tar faults w
  by unfold_locales (simp_all add: store_bundle_def remove_old_bundles_kept)

text \<open>The removals touch only the archives of the bundles that go.\<close>

lemma remove_old_bundles_frame:
  "q \<notin> sb_path ` set (take (length bs - maximum_bundles) bs) \<Longrightarrow>
     fs (snd (remove_old_bundles tar faults bs w)) q = fs w q"
proof (induction tar faults bs w rule: remove_old_bundles.induct)
  case (2 tar faults b bs w)
  show ?case
  proof (cases "length (b # bs) > maximum_bundles")
    case True
    then have cut: "take (length (b # bs) - maximum_bundles) (b # bs) = b # take (length bs - maximum_bundles) bs"
      by (simp add: excess_Suc)
    have "fs (snd (fs_do tar faults (Remove (sb_path b)) w)) q = fs w q"
      using "2.prems" unfolding cut by (intro fs_do_frame) auto
    then show ?thesis
      using "2.IH" [OF True] "2.prems" True unfolding cut by auto
  qed auto
qed auto

lemma remove_old_bundles_gone:
  "cleans faults \<Longrightarrow> q \<in> sb_path ` set (take (length bs - maximum_bundles) bs) \<Longrightarrow>
     fs (snd (remove_old_bundles tar faults bs w)) q = None"
proof (induction tar faults bs w rule: remove_old_bundles.induct)
  case (2 tar faults b bs w)
  have long: "length (b # bs) > maximum_bundles"
    using "2.prems"(2) by (cases "length (b # bs) > maximum_bundles") auto
  then have cut: "take (length (b # bs) - maximum_bundles) (b # bs) = b # take (length bs - maximum_bundles) bs"
    by (simp add: excess_Suc)
  let ?w = "snd (fs_do tar faults (Remove (sb_path b)) w)"
  have next_step: "remove_old_bundles tar faults (b # bs) w = remove_old_bundles tar faults bs ?w"
    using long by simp
  show ?case
  proof (cases "q \<in> sb_path ` set (take (length bs - maximum_bundles) bs)")
    case True
    then show ?thesis
      unfolding next_step by (rule "2.IH" [OF long "2.prems"(1)])
  next
    case False
    then have "q = sb_path b"
      using "2.prems"(2) unfolding cut by auto
    then have "fs ?w q = None"
      by (simp add: fs_do_remove [OF "2.prems"(1)])
    then show ?thesis
      unfolding next_step by (simp only: remove_old_bundles_frame [OF False])
  qed
qed simp

section \<open>Outcomes of a bundle\<close>

text \<open>What the paths of the next bundle are.\<close>

abbreviation next_id :: "bundle_inputs \<Rightarrow> diagnostic_collector \<Rightarrow> string" where
  "next_id inp st \<equiv> bundle_id inp (bundle_sequence st + 1)"

abbreviation next_staging :: "bundle_inputs \<Rightarrow> diagnostic_collector \<Rightarrow> path" where
  "next_staging inp st \<equiv> staging_path (root_directory st) (next_id inp st)"

abbreviation next_archive :: "bundle_inputs \<Rightarrow> diagnostic_collector \<Rightarrow> path" where
  "next_archive inp st \<equiv> archive_path (root_directory st) (next_id inp st)"

text \<open>Preparing the directory creates its missing parents and changes nothing else but itself.\<close>

definition grown :: "path \<Rightarrow> world \<Rightarrow> world \<Rightarrow> path \<Rightarrow> bool" where
  "grown d w w' q \<longleftrightarrow>
     fs w' q = fs w q \<or> (q \<in> set (ancestors d) \<and> fs w q = None \<and> fs w' q = Some (Directory False))"

lemma grown_create: "grown d w (snd (fs_do tar faults (CreateDirectories d) w)) q"
proof (cases "faults (length (ops w)) (CreateDirectories d)")
  case None
  then show ?thesis
    by (simp add: grown_def fs_do_def Let_def make_directories_def)
next
  case (Some f)
  then show ?thesis
  proof (cases f)
    case (Fails message partial)
    then show ?thesis
      using Some ancestors_trans [of q _ d]
      by (cases partial) (auto simp: grown_def fs_do_def Let_def make_directories_def)
  next
    case (Unflushed kept)
    then show ?thesis
      using Some by (simp add: grown_def fs_do_def Let_def make_directories_def)
  qed
qed

lemma prepare_root_grown: "q \<noteq> d \<Longrightarrow> grown d w (snd (prepare_root tar faults d w)) q"
  using grown_create [of d w tar faults q] fs_do_frame_pair [of tar faults "MakePrivate d" _ _ _ q]
  by (fastforce simp: prepare_root_def grown_def split: prod.split option.split)

lemma grown_frame: "grown d w w' q \<Longrightarrow> q \<notin> set (ancestors d) \<Longrightarrow> fs w' q = fs w q"
  by (simp add: grown_def)

lemma prepare_root_error: "fst (prepare_root tar faults d w) = Some e \<Longrightarrow> e \<noteq> []"
  by (auto simp: prepare_root_def split: prod.splits option.splits)

text \<open>The ways through \<open>create_bundle\<close>: a failure with its clean-up, or success.\<close>

lemma create_bundle_cases:
  assumes run: "create_bundle tar faults inp s m st w = (r, st', w')"
  obtains
    (prepare) e where "prepare_root tar faults (root_directory st) w = (Some e, w')" "r = Inl e" "st' = st"
  | (staging) e w1 where "prepare_root tar faults (root_directory st) w = (None, w1)"
      "fs_do tar faults (CreateDirectory (next_staging inp st)) w1 = (Some e, w')"
      "r = Inl (''failed to create diagnostic staging directory: '' @ e)" "st' = st \<lparr> bundle_sequence := bundle_sequence st + 1 \<rparr>"
  | (secure) e w1 w2 w3 where "prepare_root tar faults (root_directory st) w = (None, w1)"
      "fs_do tar faults (CreateDirectory (next_staging inp st)) w1 = (None, w2)"
      "fs_do tar faults (MakePrivate (next_staging inp st)) w2 = (Some e, w3)"
      "w' = snd (fs_do tar faults (RemoveAll (next_staging inp st)) w3)"
      "r = Inl (''failed to secure diagnostic staging directory: '' @ e)" "st' = st \<lparr> bundle_sequence := bundle_sequence st + 1 \<rparr>"
  | (build) e w1 w2 w3 w4 where "prepare_root tar faults (root_directory st) w = (None, w1)"
      "fs_do tar faults (CreateDirectory (next_staging inp st)) w1 = (None, w2)"
      "fs_do tar faults (MakePrivate (next_staging inp st)) w2 = (None, w3)"
      "build_archive tar faults inp s m (next_staging inp st) (next_archive inp st) w3 = (Some e, w4)"
      "w' = discard tar faults (next_archive inp st) w4" "r = Inl e" "st' = st \<lparr> bundle_sequence := bundle_sequence st + 1 \<rparr>"
  | (no_size) e w1 w2 w3 w4 w5 where "prepare_root tar faults (root_directory st) w = (None, w1)"
      "fs_do tar faults (CreateDirectory (next_staging inp st)) w1 = (None, w2)"
      "fs_do tar faults (MakePrivate (next_staging inp st)) w2 = (None, w3)"
      "build_archive tar faults inp s m (next_staging inp st) (next_archive inp st) w3 = (None, w4)"
      "fs_do tar faults (FileSize (next_archive inp st)) w4 = (Some e, w5)"
      "w' = discard tar faults (next_archive inp st) w5" "r = Inl ''failed to determine diagnostic archive size''"
      "st' = st \<lparr> bundle_sequence := bundle_sequence st + 1 \<rparr>"
  | (stored) info w1 w2 w3 w4 w5 where "prepare_root tar faults (root_directory st) w = (None, w1)"
      "fs_do tar faults (CreateDirectory (next_staging inp st)) w1 = (None, w2)"
      "fs_do tar faults (MakePrivate (next_staging inp st)) w2 = (None, w3)"
      "build_archive tar faults inp s m (next_staging inp st) (next_archive inp st) w3 = (None, w4)"
      "fs_do tar faults (FileSize (next_archive inp st)) w4 = (None, w5)"
      "info = \<lparr> db_id = next_id inp st, db_filename = archive_name (next_id inp st),
                db_size_bytes = file_size (fs w5) (next_archive inp st), db_created_at = in_timestamp inp \<rparr>"
      "r = Inr info"
      "st' = store_bundle tar faults w5 \<lparr> sb_info = info, sb_path = next_archive inp st \<rparr>
               (st \<lparr> bundle_sequence := bundle_sequence st + 1 \<rparr>)"
      "w' = snd (remove_old_bundles tar faults (bundles st @ [\<lparr> sb_info = info, sb_path = next_archive inp st \<rparr>]) w5)"
proof -
  obtain a1 w1 where 1: "prepare_root tar faults (root_directory st) w = (a1, w1)" by fastforce
  obtain a2 w2 where 2: "fs_do tar faults (CreateDirectory (next_staging inp st)) w1 = (a2, w2)" by fastforce
  obtain a3 w3 where 3: "fs_do tar faults (MakePrivate (next_staging inp st)) w2 = (a3, w3)" by fastforce
  obtain a4 w4 where 4: "build_archive tar faults inp s m (next_staging inp st) (next_archive inp st) w3 = (a4, w4)"
    by fastforce
  obtain a5 w5 where 5: "fs_do tar faults (FileSize (next_archive inp st)) w4 = (a5, w5)" by fastforce
  note steps = 1 2 3 4 5
  show thesis
  proof (cases a1)
    case (Some e)
    then show thesis using prepare run by (simp add: create_bundle_def 1)
  next
    case None
    note n1 = None
    show thesis
    proof (cases a2)
      case (Some e)
      then show thesis using staging [of w1 e] run n1 by (simp add: create_bundle_def Let_def 1 2)
    next
      case None
      note n2 = None
      show thesis
      proof (cases a3)
        case (Some e)
        then show thesis using secure [of w1 w2 e w3] run n1 n2 by (simp add: create_bundle_def Let_def 1 2 3)
      next
        case None
        note n3 = None
        show thesis
        proof (cases a4)
          case (Some e)
          then show thesis
            using build [of w1 w2 w3 e w4] run n1 n2 n3 by (simp add: create_bundle_def Let_def steps)
        next
          case None
          note n4 = None
          show thesis
          proof (cases a5)
            case (Some e)
            then show thesis
              using no_size [of w1 w2 w3 w4 e w5] run n1 n2 n3 n4 by (simp add: create_bundle_def Let_def steps)
          next
            case None
            then show thesis
              using stored [of w1 w2 w3 w4 w5] run n1 n2 n3 n4
              by (simp add: create_bundle_def Let_def steps store_bundle_def split: prod.splits)
          qed
        qed
      qed
    qed
  qed
qed

section \<open>What a completed plan leaves\<close>

fun target :: "fs_op \<Rightarrow> path" where
  "target (WriteFile p _) = p"
| "target (CreateDirectories p) = p"
| "target (CreateDirectory p) = p"
| "target (EnsureDirectory p) = p"
| "target (MakePrivate p) = p"
| "target (Tar _ destination) = destination"
| "target (RemoveAll p) = p"
| "target (Remove p) = p"
| "target (FileSize p) = p"

definition single :: "fs_op \<Rightarrow> bool" where
  "single oper \<longleftrightarrow> (case oper of WriteFile _ _ \<Rightarrow> True | EnsureDirectory _ \<Rightarrow> True | _ \<Rightarrow> False)"

text \<open>The files that a plan writes, with their contents.\<close>

fun planned_files :: "(fs_op \<times> string) list \<Rightarrow> (path \<times> string) list" where
  "planned_files [] = []"
| "planned_files ((WriteFile p contents, _) # rest) = (p, contents) # planned_files rest"
| "planned_files (_ # rest) = planned_files rest"

lemma fs_do_success:
  "fs_do tar faults oper w = (None, w') \<Longrightarrow> flushes faults \<Longrightarrow> fs w' = fs_effect tar oper (fs w)"
  using performed_flushes [of faults oper "length (ops w)"]
  by (auto simp: fs_do_def Let_def split: option.splits fault.splits)

lemma planned_target: "(p, c) \<in> set (planned_files plan) \<Longrightarrow> p \<in> (target \<circ> fst) ` set plan"
  by (induction plan rule: planned_files.induct) auto

lemma run_plan_files:
  assumes "run_plan tar faults plan w = (None, w')" "\<forall>step \<in> set plan. single (fst step)"
    "distinct (map (target \<circ> fst) plan)" "(p, c) \<in> set (planned_files plan)" "flushes faults"
  shows "fs w' p = Some (File c)"
  using assms
proof (induction tar faults plan w rule: run_plan.induct)
  case (2 tar faults oper error rest w)
  obtain v where step: "fs_do tar faults oper w = (None, v)"
    using "2.prems"(1) by (auto split: prod.splits option.splits)
  have run: "run_plan tar faults rest v = (None, w')"
    using "2.prems"(1) by (simp add: step)
  show ?case
  proof (cases "(p, c) \<in> set (planned_files rest)")
    case True
    then show ?thesis
      using "2.IH" [OF step [symmetric] refl run] "2.prems" by simp
  next
    case False
    then have oper: "oper = WriteFile p c"
      using "2.prems"(4) by (cases oper) auto
    have "\<forall>step \<in> set rest. \<not> affects (fst step) p"
    proof
      fix step
      assume "step \<in> set rest"
      then have "single (fst step)" "target (fst step) \<noteq> p"
        using "2.prems"(2,3) by (auto simp: oper)
      then show "\<not> affects (fst step) p"
        by (cases "fst step") (auto simp: single_def)
    qed
    from run_plan_frame [OF this, of tar faults v] show ?thesis
      by (simp add: run fs_do_success [OF step "2.prems"(5)] oper)
  qed
qed simp

lemma staging_plan_single: "\<forall>step \<in> set (staging_plan staging host rel m s). single (fst step)"
  by (auto simp: staging_plan_def write_step_def single_def split: sum.splits)

lemma log_targets:
  "map (target \<circ> fst) (concat (map (\<lambda>(source, r). case r of
       Inl _ \<Rightarrow> []
     | Inr result \<Rightarrow> [write_step (staging @ ''/recent_logs'') (ls_id source @ ''.log'') (log_text result)]) logs)) =
   map (\<lambda>i. staging @ ''/recent_logs/'' @ i @ ''.log'')
     (map (ls_id \<circ> fst) (filter (\<lambda>(_, r). is_ok r) logs))"
  by (induction logs) (auto simp: write_step_def split: sum.splits)

lemma staging_plan_distinct:
  assumes "distinct (map (ls_id \<circ> fst) (src_logs s))"
  shows "distinct (map (target \<circ> fst) (staging_plan staging host rel m s))"
proof -
  let ?ids = "map (ls_id \<circ> fst) (filter (\<lambda>(_, r). is_ok r) (available_logs s))"
  have "?ids = map (ls_id \<circ> fst) (filter (\<lambda>(source, r). ls_available source \<and> is_ok r) (src_logs s))"
    unfolding available_logs_def filter_filter case_prod_beta by (simp only: conj_commute)
  then have "distinct ?ids"
    by (simp only: distinct_map_filter [OF assms])
  then have logs: "distinct (map (\<lambda>i. staging @ ''/recent_logs/'' @ i @ ''.log'') ?ids)"
    by (subst distinct_map) (simp only: inj_on_def append_same_eq same_append_eq simp_thms ball_simps append.assoc, simp)
  show ?thesis
    unfolding staging_plan_def map_append log_targets
    using logs by (auto simp: write_step_def split: sum.splits)
qed

lemma build_archive_success:
  assumes "build_archive tar faults inp s m staging archive w = (None, w')"
    "distinct (map (ls_id \<circ> fst) (src_logs s))" "\<not> below staging archive"
  shows "\<exists>t. fs w' archive = Some (File (tar t staging)) \<and> (flushes faults \<longrightarrow>
    (\<forall>(p, c) \<in> set (planned_files (staging_plan staging (hostname_text (in_hostname inp)) (in_kernel inp) m s)).
       t p = Some (File c)))"
proof -
  let ?plan = "staging_plan staging (hostname_text (in_hostname inp)) (in_kernel inp) m s"
  obtain r v where run: "run_plan tar faults ?plan w = (r, v)"
    by fastforce
  have ok: "fst (stage_and_pack tar faults inp s m staging archive w) = None"
    using assms(1) by (simp add: build_archive_eq Let_def)
  then have r: "r = None"
    by (cases r) (simp_all add: stage_and_pack_def run)
  have "fst (create_tar_gzip tar inp staging archive v) = None"
    using ok by (simp add: stage_and_pack_def run r)
  then have "fs (snd (create_tar_gzip tar inp staging archive v)) archive = Some (File (tar (fs v) staging))"
    by (auto simp: create_tar_gzip_def fs_do_def Let_def split: option.splits)
  then have archive: "fs w' archive = Some (File (tar (fs v) staging))"
    using assms(1,3) by (auto simp: build_archive_eq Let_def stage_and_pack_def run r fs_do_frame)
  have files: "flushes faults \<longrightarrow> (\<forall>(p, c) \<in> set (planned_files ?plan). fs v p = Some (File c))"
    using run_plan_files [OF run [unfolded r] staging_plan_single staging_plan_distinct [OF assms(2)]] by auto
  from archive files show ?thesis by blast
qed

section \<open>The state of the collector and the file system\<close>

text \<open>
  Every stored bundle has its own identifier, taken from the sequence counter, and its archive is
  in the directory, with the recorded size.
\<close>

definition stored_ok :: "diagnostic_collector \<Rightarrow> world \<Rightarrow> stored_bundle \<Rightarrow> bool" where
  "stored_ok st w b \<longleftrightarrow>
     sb_path b = archive_path (root_directory st) (db_id (sb_info b)) \<and>
     db_filename (sb_info b) = archive_name (db_id (sb_info b)) \<and>
     (\<exists>contents. fs w (sb_path b) = Some (File contents) \<and>
        db_size_bytes (sb_info b) = word_of_nat (length contents)) \<and>
     (\<exists>inp n. db_id (sb_info b) = bundle_id inp n \<and> n \<le> bundle_sequence st)"

definition collector_inv :: "diagnostic_collector \<Rightarrow> world \<Rightarrow> bool" where
  "collector_inv st w \<longleftrightarrow>
     length (bundles st) \<le> maximum_bundles \<and> distinct (map (db_id \<circ> sb_info) (bundles st)) \<and>
     (\<forall>b \<in> set (bundles st). stored_ok st w b)"

lemma collector_inv_new [simp]: "collector_inv (new_diagnostic_collector d) w"
  by (simp add: collector_inv_def new_diagnostic_collector_def)

lemma collector_inv_path: "collector_inv st w \<Longrightarrow> b \<in> set (bundles st) \<Longrightarrow>
    sb_path b = archive_path (root_directory st) (db_id (sb_info b))"
  by (simp add: collector_inv_def stored_ok_def)

lemma unat_next: "(k :: u64) \<noteq> - 1 \<Longrightarrow> unat (k + 1) = Suc (unat k)"
  using unatSuc [of k] by (simp add: add.commute add_eq_0_iff)

lemma next_sequence_fresh: "(n :: u64) \<le> k \<Longrightarrow> k \<noteq> - 1 \<Longrightarrow> n \<noteq> k + 1"
  using unat_next [of k] by (auto simp: word_le_nat_alt)

lemma next_sequence_le: "(n :: u64) \<le> k \<Longrightarrow> k \<noteq> - 1 \<Longrightarrow> n \<le> k + 1"
  using unat_next [of k] by (auto simp: word_le_nat_alt)

lemma next_id_fresh:
  assumes "collector_inv st w" "bundle_sequence st \<noteq> - 1" "b \<in> set (bundles st)"
  shows "db_id (sb_info b) \<noteq> next_id inp st"
proof
  assume eq: "db_id (sb_info b) = next_id inp st"
  obtain inp' n where n: "db_id (sb_info b) = bundle_id inp' n" "n \<le> bundle_sequence st"
    using assms(1,3) by (auto simp: collector_inv_def stored_ok_def)
  then have "n = bundle_sequence st + 1"
    using eq bundle_id_sequence by metis
  then show False
    using next_sequence_fresh [OF n(2) assms(2)] by simp
qed

text \<open>The invariant survives a change of the file system elsewhere.\<close>

lemma collector_inv_frame:
  assumes "collector_inv st w" "\<forall>b \<in> set (bundles st). fs w' (sb_path b) = fs w (sb_path b)"
    "bundle_sequence st \<noteq> - 1"
  shows "collector_inv st w'"
    and "collector_inv (st \<lparr> bundle_sequence := bundle_sequence st + 1 \<rparr>) w'"
  using assms next_sequence_le [OF _ assms(3)]
  by (fastforce simp: collector_inv_def stored_ok_def)+


lemma fs_do_path_failed: "fs_do tar faults (CreateDirectory p) w = (Some e, w') \<Longrightarrow> fs w' = fs w"
  by (auto simp: fs_do_def Let_def split: option.splits fault.splits)

text \<open>After the directory is prepared nothing but the staging tree and the archive changes.\<close>

lemma staged_frame:
  assumes "fs_do tar faults (CreateDirectory staging) w1 = (None, w2)"
    "fs_do tar faults (MakePrivate staging) w2 = (x, w3)" "\<not> below staging q"
  shows "fs w3 q = fs w1 q"
proof -
  have "q \<noteq> staging"
    using assms(3) by auto
  then show ?thesis
    using fs_do_frame_pair [OF assms(2), of q] fs_do_frame_pair [OF assms(1), of q] by simp
qed

lemma built_frame:
  assumes "fs_do tar faults (CreateDirectory staging) w1 = (None, w2)"
    "fs_do tar faults (MakePrivate staging) w2 = (x, w3)"
    "build_archive tar faults inp s m staging archive w3 = (y, w4)" "\<not> below staging q" "q \<noteq> archive"
  shows "fs w4 q = fs w1 q"
  using staged_frame [OF assms(1,2,4)] build_archive_frame [OF assms(4,5), of tar faults inp s m w3]
  by (simp add: assms(3))

lemma discard_frame: "q \<noteq> p \<Longrightarrow> fs (discard tar faults p w) q = fs w q"
  by (simp add: discard_def fs_do_frame)

lemma built_clean:
  assumes "fs_do tar faults (CreateDirectory staging) w1 = (None, w2)"
    "fs_do tar faults (MakePrivate staging) w2 = (x, w3)"
    "build_archive tar faults inp s m staging archive w3 = (y, w4)"
    "cleans faults" "q \<noteq> archive" "below staging q \<longrightarrow> fs w1 q = None"
  shows "fs w4 q = fs w1 q"
proof (cases "below staging q")
  case True
  then show ?thesis
    using build_archive_clean [OF assms(4) True, of tar inp s m archive w3] assms(3,6) by simp
next
  case False
  then show ?thesis
    using built_frame [OF assms(1-3) False assms(5)] by simp
qed

lemma prepared_grown: "prepare_root tar faults d w = (r, w1) \<Longrightarrow> q \<noteq> d \<Longrightarrow> grown d w w1 q"
  using prepare_root_grown [of q d w tar faults] by simp

lemma grown_same: "grown d w w1 q \<Longrightarrow> fs w2 q = fs w1 q \<Longrightarrow> grown d w w2 q"
  by (simp add: grown_def)

text \<open>What is left when the archive is discarded after all.\<close>

lemma left_clean:
  assumes clean: "cleans faults" and run: "prepare_root tar faults (root_directory st) w = (None, w1)"
    "fs_do tar faults (CreateDirectory (next_staging inp st)) w1 = (None, w2)"
    "fs_do tar faults (MakePrivate (next_staging inp st)) w2 = (x, w3)"
    "build_archive tar faults inp s m (next_staging inp st) (next_archive inp st) w3 = (y, w4)"
    and free: "\<forall>q. below (next_staging inp st) q \<or> q = next_archive inp st \<longrightarrow> fs w q = None"
    and q: "q \<noteq> root_directory st"
  shows "grown (root_directory st) w (discard tar faults (next_archive inp st) w4) q"
proof -
  note grown = prepared_grown [OF run(1) q]
  have free1: "fs w1 q = None" if "below (next_staging inp st) q \<or> q = next_archive inp st"
    using grown_frame [OF grown] free that staging_not_ancestor archive_not_ancestor by metis
  have "fs (discard tar faults (next_archive inp st) w4) q = fs w1 q"
    using built_clean [OF run(2-4) clean, of q] free1 discard_fs [OF clean] by auto
  then show ?thesis
    by (rule grown_same [OF grown])
qed

text \<open>A failure without leftovers, shared by the property below.\<close>

lemma create_bundle_failed:
  assumes clean: "cleans faults" and run: "create_bundle tar faults inp s m st w = (Inl e, st', w')"
    and free: "\<forall>q. below (next_staging inp st) q \<or> q = next_archive inp st \<longrightarrow> fs w q = None"
    and q: "q \<noteq> root_directory st"
  shows "e \<noteq> [] \<and> bundles st' = bundles st \<and> root_directory st' = root_directory st \<and>
    grown (root_directory st) w w' q"
  using run
proof (cases rule: create_bundle_cases)
  case (prepare e')
  then show ?thesis
    using prepare_root_error [of tar faults "root_directory st" w e] prepared_grown [OF prepare(1) q] by simp
next
  case (staging e' w1)
  then show ?thesis
    using grown_same [OF prepared_grown [OF staging(1) q]] fs_do_path_failed [OF staging(2)] by simp
next
  case (secure e' w1 w2 w3)
  note grown = prepared_grown [OF secure(1) q]
  have free1: "fs w1 q = None" if "below (next_staging inp st) q"
    using grown_frame [OF grown] free that staging_not_ancestor by metis
  have "fs w' q = fs w1 q"
    using staged_frame [OF secure(2,3), of q] free1 fs_do_remove_all [OF clean]
    by (auto simp: secure(4) remove_tree_def)
  then show ?thesis
    using secure(5,6) grown_same [OF grown] by simp
next
  case (build e' w1 w2 w3 w4)
  have "fst (build_archive tar faults inp s m (next_staging inp st) (next_archive inp st) w3) = Some e'"
    by (simp add: build(4))
  then have "e' \<noteq> []"
    by (rule build_archive_error)
  moreover have "grown (root_directory st) w w' q"
    using left_clean [OF clean build(1-4) free q] by (simp add: build(5))
  ultimately show ?thesis
    using build(6,7) by simp
next
  case (no_size e' w1 w2 w3 w4 w5)
  have same: "fs w5 = fs w4"
    using fs_do_frame_pair [OF no_size(5)] by (intro ext) simp
  have "grown (root_directory st) w w' q"
    using left_clean [OF clean no_size(1-4) free q] discard_fs [OF clean, of tar]
    by (simp add: no_size(6) grown_def same)
  then show ?thesis
    using no_size(7,8) by simp
qed simp

section \<open>A stored bundle\<close>

abbreviation new_bundle :: "bundle_inputs \<Rightarrow> diagnostic_collector \<Rightarrow> diagnostic_bundle_info \<Rightarrow> stored_bundle" where
  "new_bundle inp st info \<equiv> \<lparr> sb_info = info, sb_path = next_archive inp st \<rparr>"

abbreviation evicted :: "'a list \<Rightarrow> 'a list" where
  "evicted bs \<equiv> take (length bs - maximum_bundles) bs"

lemma evicted_new: "length bs \<le> maximum_bundles \<Longrightarrow> set (evicted (bs @ [b])) \<subseteq> set bs"
  by (cases "length bs = 5") (auto dest: in_set_takeD)

lemma distinct_take_last: "distinct (map f xs) \<Longrightarrow> distinct (map f (take_last n xs))"
  unfolding take_last_map [symmetric] by (simp only: take_last_def distinct_drop)

lemma kept_not_evicted:
  "distinct bs \<Longrightarrow> b \<in> set (take_last maximum_bundles bs) \<Longrightarrow> b \<notin> set (evicted bs)"
  using set_take_disj_set_drop_if_distinct [of bs "length bs - maximum_bundles" "length bs - maximum_bundles"]
  by (auto simp: take_last_def)

lemma create_bundle_stored:
  assumes inv: "collector_inv st w" and wrap: "bundle_sequence st \<noteq> - 1"
    and ids: "distinct (map (ls_id \<circ> fst) (src_logs s))"
    and run: "create_bundle tar faults inp s m st w = (Inr info, st', w')"
  obtains t w5 where
    "info = \<lparr> db_id = next_id inp st, db_filename = archive_name (next_id inp st),
       db_size_bytes = word_of_nat (length (tar t (next_staging inp st))), db_created_at = in_timestamp inp \<rparr>"
    "st' = st \<lparr> bundle_sequence := bundle_sequence st + 1,
       bundles := take_last maximum_bundles (bundles st @ [new_bundle inp st info]) \<rparr>"
    "w' = snd (remove_old_bundles tar faults (bundles st @ [new_bundle inp st info]) w5)"
    "fs w5 (next_archive inp st) = Some (File (tar t (next_staging inp st)))"
    "flushes faults \<longrightarrow> (\<forall>(p, c) \<in> set (planned_files (staging_plan (next_staging inp st)
       (hostname_text (in_hostname inp)) (in_kernel inp) m s)). t p = Some (File c))"
    "cleans faults \<Longrightarrow> \<forall>q. below (next_staging inp st) q \<longrightarrow> fs w5 q = None"
    "\<forall>q. q \<noteq> root_directory st \<and> q \<notin> set (ancestors (root_directory st)) \<and>
       \<not> below (next_staging inp st) q \<and> q \<noteq> next_archive inp st \<longrightarrow> fs w5 q = fs w q"
  using run
proof (cases rule: create_bundle_cases)
  case (stored info' w1 w2 w3 w4 w5)
  have same: "fs w5 q = fs w4 q" for q
    using fs_do_frame_pair [OF stored(5), of q] by simp
  obtain t where t: "fs w5 (next_archive inp st) = Some (File (tar t (next_staging inp st)))"
    "flushes faults \<longrightarrow> (\<forall>(p, c) \<in> set (planned_files (staging_plan (next_staging inp st)
       (hostname_text (in_hostname inp)) (in_kernel inp) m s)). t p = Some (File c))"
    using build_archive_success [OF stored(4) ids] by (auto simp: same)
  have clean: "\<forall>q. below (next_staging inp st) q \<longrightarrow> fs w5 q = None" if "cleans faults"
    using build_archive_clean [OF that, of "next_staging inp st" _ tar inp s m "next_archive inp st" w3] stored(4)
    by (simp add: same)
  have info: "info' = info"
    using stored(7) by simp
  show thesis
    using that [of t w5] stored(6) [unfolded info] stored(8) [unfolded info] stored(9) [unfolded info] t clean
      built_frame [OF stored(2-4)] grown_frame [OF prepared_grown [OF stored(1)]]
    by (simp add: file_size_def store_bundle_def remove_old_bundles_kept same)
qed simp_all

lemma find_last_distinct:
  "distinct (map f (xs @ [x])) \<Longrightarrow> find (\<lambda>y. f y = f x) (xs @ [x]) = Some x"
  by (induction xs) auto

lemma distinct_with_new:
  assumes "collector_inv st w" "bundle_sequence st \<noteq> - 1" "db_id info = next_id inp st"
  shows "distinct (map (db_id \<circ> sb_info) (bundles st @ [new_bundle inp st info]))"
proof -
  have "next_id inp st \<notin> (db_id \<circ> sb_info) ` set (bundles st)"
    using next_id_fresh [OF assms(1,2)] by (metis comp_apply imageE)
  then show ?thesis
    using assms(1,3) by (simp add: collector_inv_def)
qed

lemma distinct_paths:
  assumes "distinct (map (db_id \<circ> sb_info) bs)" "\<forall>b \<in> set bs. sb_path b = archive_path r (db_id (sb_info b))"
  shows "distinct (map sb_path bs)"
proof -
  have "map sb_path bs = map (archive_path r) (map (db_id \<circ> sb_info) bs)"
    using assms(2) by simp
  then show ?thesis
    using assms(1) by (metis archive_path_inj distinct_map injI inj_on_subset subset_UNIV)
qed

lemma kept_path_not_evicted:
  assumes "distinct (map sb_path bs)" "b \<in> set (take_last maximum_bundles bs)"
  shows "sb_path b \<notin> sb_path ` set (evicted bs)"
proof -
  have "sb_path b \<in> set (take_last maximum_bundles (map sb_path bs))"
    using assms(2) by (simp add: take_last_map)
  from kept_not_evicted [OF assms(1) this] show ?thesis
    by (simp add: take_map)
qed

text \<open>A bundle is found by its identifier as soon as it is stored.\<close>

lemma get_bundle_path_newest:
  assumes "collector_inv st w" "bundle_sequence st \<noteq> - 1" "db_id info = next_id inp st"
    "bundles st' = take_last maximum_bundles (bundles st @ [new_bundle inp st info])"
  shows "get_bundle_path st' (next_id inp st) = Inr (next_archive inp st, db_size_bytes info)"
proof -
  let ?f = "db_id \<circ> sb_info" and ?b = "new_bundle inp st info"
  have "distinct (map ?f (bundles st @ [?b]))"
    by (rule distinct_with_new [OF assms(1-3)])
  then have "distinct (map ?f (take_last maximum_bundles (bundles st @ [?b])))"
    by (rule distinct_take_last)
  then have "distinct (map ?f (take_last 4 (bundles st) @ [?b]))"
    by (simp add: take_last_snoc)
  from find_last_distinct [OF this] have "find (\<lambda>b. db_id (sb_info b) = next_id inp st) (bundles st') = Some ?b"
    by (simp add: assms(3,4) take_last_snoc)
  then show ?thesis
    by (simp add: get_bundle_path_def)
qed

lemma create_bundle_inv_stored:
  assumes inv: "collector_inv st w" and wrap: "bundle_sequence st \<noteq> - 1"
    and ids: "distinct (map (ls_id \<circ> fst) (src_logs s))"
    and run: "create_bundle tar faults inp s m st w = (Inr info, st', w')"
  shows "collector_inv st' w'"
proof -
  obtain t w5 where c: 
    "info = \<lparr> db_id = next_id inp st, db_filename = archive_name (next_id inp st),
       db_size_bytes = word_of_nat (length (tar t (next_staging inp st))), db_created_at = in_timestamp inp \<rparr>"
    "st' = st \<lparr> bundle_sequence := bundle_sequence st + 1,
       bundles := take_last maximum_bundles (bundles st @ [new_bundle inp st info]) \<rparr>"
    "w' = snd (remove_old_bundles tar faults (bundles st @ [new_bundle inp st info]) w5)"
    "fs w5 (next_archive inp st) = Some (File (tar t (next_staging inp st)))"
    "flushes faults \<longrightarrow> (\<forall>(p, c) \<in> set (planned_files (staging_plan (next_staging inp st)
       (hostname_text (in_hostname inp)) (in_kernel inp) m s)). t p = Some (File c))"
    "cleans faults \<Longrightarrow> \<forall>q. below (next_staging inp st) q \<longrightarrow> fs w5 q = None"
    "\<forall>q. q \<noteq> root_directory st \<and> q \<notin> set (ancestors (root_directory st)) \<and>
       \<not> below (next_staging inp st) q \<and> q \<noteq> next_archive inp st \<longrightarrow> fs w5 q = fs w q"
    by (rule create_bundle_stored [OF inv wrap ids run]) (rule that)
  let ?all = "bundles st @ [new_bundle inp st info]" and ?st = "st \<lparr> bundle_sequence := bundle_sequence st + 1 \<rparr>"
  have fresh: "db_id (sb_info b) \<noteq> next_id inp st" if "b \<in> set (bundles st)" for b
    using next_id_fresh [OF inv wrap that] by simp
  have distinct: "distinct (map (db_id \<circ> sb_info) ?all)"
    by (rule distinct_with_new [OF inv wrap]) (simp add: c(1))
  have frame: "fs w5 (sb_path b) = fs w (sb_path b)" if "b \<in> set (bundles st)" for b
    using c(7) collector_inv_path [OF inv that] fresh [OF that] by simp
  have old: "stored_ok ?st w5 b" if "b \<in> set (bundles st)" for b
    using collector_inv_frame(2) [OF inv _ wrap, of w5] frame that by (simp add: collector_inv_def)
  have new: "stored_ok ?st w5 (new_bundle inp st info)"
    using c(4) by (auto simp: stored_ok_def c(1))
  have all: "stored_ok ?st w5 b" if "b \<in> set ?all" for b
    using old new that by auto
  have paths: "sb_path b \<notin> sb_path ` set (evicted ?all)" if "b \<in> set (take_last maximum_bundles ?all)" for b
    using distinct_paths [OF distinct, of "root_directory st"] all
    by (intro kept_path_not_evicted [OF _ that]) (simp only: stored_ok_def select_convs simp_thms ball_triv, auto)
  have kept: "stored_ok st' w' b" if "b \<in> set (take_last maximum_bundles ?all)" for b
    using all [of b] that set_take_last [of maximum_bundles ?all] remove_old_bundles_frame [OF paths [OF that], of tar faults w5]
    by (auto simp: stored_ok_def c(2,3))
  have "distinct (map (db_id \<circ> sb_info) (take_last maximum_bundles ?all))"
    by (rule distinct_take_last [OF distinct])
  then show ?thesis
    using kept by (simp add: collector_inv_def c(2) length_take_last)
qed

lemma create_bundle_complete:
  assumes inv: "collector_inv st w" and wrap: "bundle_sequence st \<noteq> - 1"
    and ids: "distinct (map (ls_id \<circ> fst) (src_logs s))"
    and run: "create_bundle tar faults inp s m st w = (Inr info, st', w')"
  shows "bundles st' = take_last maximum_bundles (bundles st @ [new_bundle inp st info]) \<and>
    get_bundle_path st' (db_id info) = Inr (next_archive inp st, db_size_bytes info) \<and>
    (\<exists>t. fs w' (next_archive inp st) = Some (File (tar t (next_staging inp st))) \<and>
       db_size_bytes info = word_of_nat (length (tar t (next_staging inp st))) \<and>
       (flushes faults \<longrightarrow> (\<forall>(p, c) \<in> set (planned_files (staging_plan (next_staging inp st)
          (hostname_text (in_hostname inp)) (in_kernel inp) m s)). t p = Some (File c)))) \<and>
    (cleans faults \<longrightarrow> (\<forall>q. below (next_staging inp st) q \<longrightarrow> fs w' q = None) \<and>
       (\<forall>b \<in> set (bundles st) - set (bundles st'). fs w' (sb_path b) = None))"
proof -
  obtain t w5 where c:
    "info = \<lparr> db_id = next_id inp st, db_filename = archive_name (next_id inp st),
       db_size_bytes = word_of_nat (length (tar t (next_staging inp st))), db_created_at = in_timestamp inp \<rparr>"
    "st' = st \<lparr> bundle_sequence := bundle_sequence st + 1,
       bundles := take_last maximum_bundles (bundles st @ [new_bundle inp st info]) \<rparr>"
    "w' = snd (remove_old_bundles tar faults (bundles st @ [new_bundle inp st info]) w5)"
    "fs w5 (next_archive inp st) = Some (File (tar t (next_staging inp st)))"
    "flushes faults \<longrightarrow> (\<forall>(p, c) \<in> set (planned_files (staging_plan (next_staging inp st)
       (hostname_text (in_hostname inp)) (in_kernel inp) m s)). t p = Some (File c))"
    "cleans faults \<Longrightarrow> \<forall>q. below (next_staging inp st) q \<longrightarrow> fs w5 q = None"
    "\<forall>q. q \<noteq> root_directory st \<and> q \<notin> set (ancestors (root_directory st)) \<and>
       \<not> below (next_staging inp st) q \<and> q \<noteq> next_archive inp st \<longrightarrow> fs w5 q = fs w q"
    by (rule create_bundle_stored [OF inv wrap ids run]) (rule that)
  let ?all = "bundles st @ [new_bundle inp st info]"
  have old: "set (evicted ?all) \<subseteq> set (bundles st)"
    using inv by (intro evicted_new) (simp add: collector_inv_def)
  have archive: "next_archive inp st \<notin> sb_path ` set (evicted ?all)"
  proof
    assume "next_archive inp st \<in> sb_path ` set (evicted ?all)"
    then obtain b where "b \<in> set (bundles st)" "next_archive inp st = sb_path b"
      using old by blast
    then show False
      using collector_inv_path [OF inv, of b] next_id_fresh [OF inv wrap, of b inp] by simp
  qed
  have staging: "q \<notin> sb_path ` set (evicted ?all)" if "below (next_staging inp st) q" for q
  proof
    assume "q \<in> sb_path ` set (evicted ?all)"
    then obtain b where "b \<in> set (bundles st)" "q = sb_path b"
      using old by blast
    then show False
      using collector_inv_path [OF inv, of b] that by simp
  qed
  have id: "db_id info = next_id inp st" and kept: "bundles st' = take_last maximum_bundles ?all"
    by (simp add: c(1)) (simp add: c(2))
  have out: "sb_path b \<in> sb_path ` set (evicted ?all)" if "b \<in> set (bundles st) - set (bundles st')" for b
  proof -
    have "set ?all = set (evicted ?all) \<union> set (take_last maximum_bundles ?all)"
      unfolding take_last_def set_append [symmetric] append_take_drop_id ..
    then show ?thesis
      using that unfolding kept by auto
  qed
  have gone: "\<forall>b \<in> set (bundles st) - set (bundles st'). fs w' (sb_path b) = None" if "cleans faults"
    using remove_old_bundles_gone [OF that out] by (simp add: c(3))
  have same: "fs w' q = fs w5 q" if "q \<notin> sb_path ` set (evicted ?all)" for q
    using remove_old_bundles_frame [OF that, of tar faults w5] by (simp add: c(3))
  have size: "db_size_bytes info = word_of_nat (length (tar t (next_staging inp st)))"
    by (simp add: c(1))
  have found: "get_bundle_path st' (db_id info) = Inr (next_archive inp st, db_size_bytes info)"
    unfolding id by (rule get_bundle_path_newest [OF inv wrap id kept])
  have contents: "fs w' (next_archive inp st) = Some (File (tar t (next_staging inp st)))"
    by (simp only: same [OF archive] c(4))
  have clear: "\<forall>q. below (next_staging inp st) q \<longrightarrow> fs w' q = None" if "cleans faults"
    using c(6) [OF that] same [OF staging] by simp
  from contents size c(5) have "\<exists>t. fs w' (next_archive inp st) = Some (File (tar t (next_staging inp st))) \<and>
       db_size_bytes info = word_of_nat (length (tar t (next_staging inp st))) \<and>
       (flushes faults \<longrightarrow> (\<forall>(p, c) \<in> set (planned_files (staging_plan (next_staging inp st)
          (hostname_text (in_hostname inp)) (in_kernel inp) m s)). t p = Some (File c)))"
    by (intro exI [of _ t] conjI)
  with kept found clear gone show ?thesis
    by (intro conjI impI)
qed

lemma create_bundle_frame:
  assumes "create_bundle tar faults inp s m st w = (Inl e, st', w')"
    "q \<noteq> root_directory st" "\<not> below (next_staging inp st) q" "q \<noteq> next_archive inp st"
  shows "grown (root_directory st) w w' q \<and> (st' = st \<or> st' = st \<lparr> bundle_sequence := bundle_sequence st + 1 \<rparr>)"
  using assms(1)
proof (cases rule: create_bundle_cases)
  case (prepare e')
  then show ?thesis
    using prepared_grown [OF prepare(1) assms(2)] by simp
next
  case (staging e' w1)
  then show ?thesis
    using grown_same [OF prepared_grown [OF staging(1) assms(2)]] fs_do_path_failed [OF staging(2)] by simp
next
  case (secure e' w1 w2 w3)
  then have "fs w' q = fs w1 q"
    using staged_frame [OF secure(2,3) assms(3)] fs_do_frame [of "RemoveAll _" q] assms(3) by simp
  then show ?thesis
    using grown_same [OF prepared_grown [OF secure(1) assms(2)]] secure(6) by simp
next
  case (build e' w1 w2 w3 w4)
  then have "fs w' q = fs w1 q"
    using built_frame [OF build(2-4) assms(3,4)] discard_frame [OF assms(4)] by simp
  then show ?thesis
    using grown_same [OF prepared_grown [OF build(1) assms(2)]] build(7) by simp
next
  case (no_size e' w1 w2 w3 w4 w5)
  then have "fs w' q = fs w1 q"
    using built_frame [OF no_size(2-4) assms(3,4)] discard_frame [OF assms(4)] fs_do_frame_pair [OF no_size(5), of q] by simp
  then show ?thesis
    using grown_same [OF prepared_grown [OF no_size(1) assms(2)]] no_size(8) by simp
qed simp

lemma create_bundle_inv_failed:
  assumes inv: "collector_inv st w" and wrap: "bundle_sequence st \<noteq> - 1"
    and run: "create_bundle tar faults inp s m st w = (Inl e, st', w')"
  shows "collector_inv st' w'"
proof -
  have "fs w' (sb_path b) = fs w (sb_path b)" if "b \<in> set (bundles st)" for b
    using create_bundle_frame [OF run, of "sb_path b"] collector_inv_path [OF inv that] next_id_fresh [OF inv wrap that]
      grown_frame [of "root_directory st" w w'] by simp
  then have "\<forall>b \<in> set (bundles st). fs w' (sb_path b) = fs w (sb_path b)" by blast
  note invs = collector_inv_frame [OF inv this wrap]
  obtain q where "q \<noteq> root_directory st \<and> \<not> below (next_staging inp st) q \<and> q \<noteq> next_archive inp st"
    using that [of "archive_path (root_directory st) (next_id inp st @ ''x'')"] by simp
  with create_bundle_frame [OF run] show ?thesis
    using invs by metis
qed

section \<open>Where the collector works\<close>

text \<open>An operation within a directory: what it reads and what it writes is below it.\<close>

fun inside :: "path \<Rightarrow> fs_op \<Rightarrow> bool" where
  "inside d (CreateDirectories p) = (p = d)"
| "inside d (Tar source destination) = (below d source \<and> below d destination)"
| "inside d oper = below d (target oper)"

text \<open>The operations recorded between two worlds, all of them within the directory.\<close>

definition works :: "path \<Rightarrow> world \<Rightarrow> world \<Rightarrow> bool" where
  "works d w w' \<longleftrightarrow> (\<exists>more. ops w' = ops w @ more \<and> list_all (inside d) more)"

lemma works_refl [simp]: "works d w w"
  by (simp add: works_def)

lemma works_trans: "works d w w1 \<Longrightarrow> works d w1 w2 \<Longrightarrow> works d w w2"
  by (auto simp: works_def)

lemma fs_do_works: "inside d oper \<Longrightarrow> works d w (snd (fs_do tar faults oper w))"
  by (simp add: works_def fs_do_def Let_def split: option.split fault.split)

lemma fs_do_works_pair: "fs_do tar faults oper w = (r, w') \<Longrightarrow> inside d oper \<Longrightarrow> works d w w'"
  using fs_do_works [of d oper w tar faults] by simp

lemma run_plan_works: "list_all (inside d \<circ> fst) plan \<Longrightarrow> works d w (snd (run_plan tar faults plan w))"
proof (induction tar faults plan w rule: run_plan.induct)
  case (2 tar faults oper error rest w)
  obtain r v where step: "fs_do tar faults oper w = (r, v)"
    by fastforce
  have "works d w v"
    using fs_do_works_pair [OF step] "2.prems" by simp
  then show ?case
    using 2 step by (cases r) (auto intro: works_trans)
qed simp

lemma below_trans: "below p q \<Longrightarrow> below q r \<Longrightarrow> below p r"
  by (auto simp: below_def prefix_def)

lemma below_append: "below d p \<Longrightarrow> below d (p @ CHR ''/'' # q)"
  using below_child below_trans by blast

lemma below_staging [simp]: "below d (staging_path d i)"
  using below_child [of d "''staging-'' @ i"] by (simp add: staging_path_def)

lemma below_archive [simp]: "below d (archive_path d i)"
  using below_child [of d "archive_name i"] by (simp add: archive_path_def)

lemma staging_plan_inside: "below d staging \<Longrightarrow> list_all (inside d \<circ> fst) (staging_plan staging host rel m s)"
  using below_append [of d staging] by (auto simp: staging_plan_def write_step_def list_all_iff split: sum.splits)

lemma build_archive_works:
  assumes "below d staging" "below d archive"
  shows "works d w (snd (build_archive tar faults inp s m staging archive w))"
proof -
  let ?plan = "staging_plan staging (hostname_text (in_hostname inp)) (in_kernel inp) m s"
  obtain r v where run: "run_plan tar faults ?plan w = (r, v)"
    by fastforce
  have plan: "works d w v"
    using run_plan_works [OF staging_plan_inside [OF assms(1)], where w = w and tar = tar and faults = faults] run
    by (metis snd_conv)
  have packed: "works d v (snd (create_tar_gzip tar inp staging archive v))"
    using assms by (simp add: create_tar_gzip_def fs_do_works split: option.split)
  have "works d w (snd (stage_and_pack tar faults inp s m staging archive w))"
    using plan works_trans [OF plan packed] by (cases r) (simp_all add: stage_and_pack_def run)
  then show ?thesis
    using works_trans fs_do_works [of d "RemoveAll staging" _ tar faults] assms(1)
    by (auto simp: build_archive_eq Let_def)
qed

lemma prepare_root_works: "prepare_root tar faults d w = (r, w') \<Longrightarrow> works d w w'"
  using fs_do_works_pair [of tar faults "CreateDirectories d" w _ _ d] fs_do_works_pair [of tar faults "MakePrivate d" _ _ _ d]
    works_trans [of d w]
  by (auto simp: prepare_root_def split: prod.splits option.splits)

lemma remove_old_bundles_works:
  "\<forall>b \<in> set bs. below d (sb_path b) \<Longrightarrow> works d w (snd (remove_old_bundles tar faults bs w))"
proof (induction tar faults bs w rule: remove_old_bundles.induct)
  case (2 tar faults b bs w)
  have "works d w (snd (fs_do tar faults (Remove (sb_path b)) w))"
    using 2 by (intro fs_do_works) simp
  then show ?case
    using 2 by (auto intro: works_trans)
qed simp

lemma bundle_built_works:
  assumes "prepare_root tar faults d w = (None, w1)"
    "fs_do tar faults (CreateDirectory (staging_path d i)) w1 = (None, w2)"
    "fs_do tar faults (MakePrivate (staging_path d i)) w2 = (x, w3)"
    "build_archive tar faults inp s m (staging_path d i) (archive_path d i) w3 = (y, w4)"
  shows "works d w w4"
proof -
  have "works d w w3"
    by (rule works_trans [OF works_trans [OF prepare_root_works [OF assms(1)] fs_do_works_pair [OF assms(2)]]
          fs_do_works_pair [OF assms(3)]]) simp_all
  moreover have "works d w3 w4"
    using build_archive_works [of d "staging_path d i" "archive_path d i" w3 tar faults inp s m] by (simp add: assms(4))
  ultimately show ?thesis
    by (rule works_trans)
qed

text \<open>Whatever a request for a bundle meets, it works within the directory of the collector.\<close>

lemma create_bundle_works:
  assumes run: "create_bundle tar faults inp s m st w = (r, st', w')"
    and stored: "\<forall>b \<in> set (bundles st). below (root_directory st) (sb_path b)"
  shows "works (root_directory st) w w'"
  using run
proof (cases rule: create_bundle_cases)
  case (prepare e)
  then show ?thesis
    by (simp add: prepare_root_works)
next
  case (staging e w1)
  then show ?thesis
    using works_trans [OF prepare_root_works fs_do_works_pair] by simp
next
  case (secure e w1 w2 w3)
  have "works (root_directory st) w w3"
    by (rule works_trans [OF works_trans [OF prepare_root_works [OF secure(1)] fs_do_works_pair [OF secure(2)]]
          fs_do_works_pair [OF secure(3)]]) simp_all
  then show ?thesis
    unfolding secure(4) by (rule works_trans) (simp add: fs_do_works)
next
  case (build e w1 w2 w3 w4)
  have "works (root_directory st) w w4"
    using bundle_built_works [OF build(1-4)] .
  then show ?thesis
    unfolding build(5) discard_def by (rule works_trans) (simp add: fs_do_works)
next
  case (no_size e w1 w2 w3 w4 w5)
  have "works (root_directory st) w w5"
    by (rule works_trans [OF bundle_built_works [OF no_size(1-4)] fs_do_works_pair [OF no_size(5)]]) simp
  then show ?thesis
    unfolding no_size(6) discard_def by (rule works_trans) (simp add: fs_do_works)
next
  case (stored info w1 w2 w3 w4 w5)
  have "works (root_directory st) w w5"
    by (rule works_trans [OF bundle_built_works [OF stored(1-4)] fs_do_works_pair [OF stored(5)]]) simp
  then show ?thesis
    unfolding stored(9)
    by (rule works_trans) (rule remove_old_bundles_works, use assms(2) in auto)
qed

text \<open>A series of requests, with what the system does and the other collectors give at each.\<close>

fun create_bundles ::
  "tar_gzip \<Rightarrow> (faults \<times> bundle_inputs \<times> sources \<times> system_metrics) list \<Rightarrow> diagnostic_collector \<Rightarrow> world \<Rightarrow>
   (string + diagnostic_bundle_info) list \<times> diagnostic_collector \<times> world" where
  "create_bundles tar [] st w = ([], st, w)"
| "create_bundles tar ((faults, inp, s, m) # requests) st w =
     (let (r, st, w) = create_bundle tar faults inp s m st w;
          (rs, st, w) = create_bundles tar requests st w
      in (r # rs, st, w))"

text \<open>The answers that are bundles.\<close>

fun successes :: "('e + 'a) list \<Rightarrow> 'a list" where
  "successes [] = []"
| "successes (Inl _ # rs) = successes rs"
| "successes (Inr v # rs) = v # successes rs"

lemma create_bundle_infos:
  assumes "create_bundle tar faults inp s m st w = (r, st', w')"
  shows "map sb_info (bundles st') =
    (case r of Inl _ \<Rightarrow> map sb_info (bundles st) | Inr info \<Rightarrow> take_last maximum_bundles (map sb_info (bundles st) @ [info]))"
  using assms
  by (cases rule: create_bundle_cases)
     (simp_all add: store_bundle_def remove_old_bundles_kept take_last_map [symmetric])

lemma create_bundle_bound:
  assumes "create_bundle tar faults inp s m st w = (r, st', w')" "length (bundles st) \<le> maximum_bundles"
  shows "length (bundles st') \<le> maximum_bundles"
proof -
  have "length (map sb_info (bundles st')) \<le> maximum_bundles"
    using assms(2) unfolding create_bundle_infos [OF assms(1)] by (simp add: length_take_last split: sum.split)
  then show ?thesis by simp
qed

lemma create_bundles_infos:
  "create_bundles tar requests st w = (rs, st', w') \<Longrightarrow> length (bundles st) \<le> maximum_bundles \<Longrightarrow>
     map sb_info (bundles st') = take_last maximum_bundles (map sb_info (bundles st) @ successes rs)"
proof (induction tar requests st w arbitrary: rs rule: create_bundles.induct)
  case (1 tar st w)
  then show ?case by (auto simp: take_last_all)
next
  case (2 tar faults inp s m requests st w)
  obtain r st1 w1 where one: "create_bundle tar faults inp s m st w = (r, st1, w1)"
    by (cases "create_bundle tar faults inp s m st w") auto
  obtain rs' where rest: "create_bundles tar requests st1 w1 = (rs', st', w')" "rs = r # rs'"
    using "2.prems"(1) by (auto simp: one split: prod.splits)
  have infos: "map sb_info (bundles st') = take_last maximum_bundles (map sb_info (bundles st1) @ successes rs')"
    using "2.IH" [OF one [symmetric] refl refl rest(1) create_bundle_bound [OF one "2.prems"(2)]] by blast
  show ?case
  proof (cases r)
    case (Inl e)
    then show ?thesis
      using infos create_bundle_infos [OF one] by (simp add: rest(2))
  next
    case (Inr info)
    then show ?thesis
      using infos create_bundle_infos [OF one] diagnostic_store.take_last_twice [of "map sb_info (bundles st) @ [info]"]
      by (simp add: rest(2))
  qed
qed

lemma triple_eq: "x = (fst x, fst (snd x), snd (snd x))"
  by simp

section \<open>Properties\<close>

definition no_faults :: faults where "no_faults n oper = None"

definition sample_inputs :: bundle_inputs where
  "sample_inputs =
     \<lparr> in_timestamp = 1700000000, in_pid = 42, in_hostname = Some ''host'', in_kernel = ''6.1'',
       in_tar_forked = True, in_tar_waits = [Inl EINTR, Inr 0], in_tar_partial = None \<rparr>"

definition sample_sources :: sources where
  "sample_sources =
     \<lparr> src_processes = Inl ''no /proc'', src_interfaces = Inr [], src_connections = Inr [], src_logs = [] \<rparr>"

definition sample_tar :: tar_gzip where
  "sample_tar t p = (case t (p @ ''/agent_version.txt'') of Some (File c) \<Rightarrow> c | _ \<Rightarrow> [])"

text \<open>
  C9. A failed request for a bundle says why and leaves nothing behind: when the removals of the
  clean-up succeed and the paths of the new bundle were free, every path is as before, except that
  the diagnostic directory itself is there and missing parents of it may have been created, and the
  stored bundles are the same.
\<close>

theorem create_bundle_failure:
  assumes "cleans faults" "create_bundle tar faults inp s m st w = (Inl e, st', w')"
    "\<forall>q. below (next_staging inp st) q \<or> q = next_archive inp st \<longrightarrow> fs w q = None"
  shows "e \<noteq> [] \<and> bundles st' = bundles st \<and> (\<forall>q. q \<noteq> root_directory st \<longrightarrow>
      fs w' q = fs w q \<or>
      (q \<in> set (ancestors (root_directory st)) \<and> fs w q = None \<and> fs w' q = Some (Directory False)))"
  using create_bundle_failed [OF assms] archive_not_root(1) [of "root_directory st" "[]"] unfolding grown_def by blast

definition full_disk :: faults where
  "full_disk n oper = (case oper of WriteFile _ _ \<Rightarrow> Some (Fails ''No space left on device'' (Some ''ho'')) | _ \<Rightarrow> None)"

lemma create_bundle_failure_witness:
  "\<exists>e st' w'. create_bundle sample_tar full_disk sample_inputs sample_sources empty_metrics
       (new_diagnostic_collector ''/d'') \<lparr> fs = (\<lambda>_. None), ops = [] \<rparr> = (Inl e, st', w') \<and>
     e \<noteq> [] \<and> (\<forall>q. q \<noteq> ''/d'' \<longrightarrow> fs w' q = None)"
proof -
  let ?run = "create_bundle sample_tar full_disk sample_inputs sample_sources empty_metrics
       (new_diagnostic_collector ''/d'') \<lparr> fs = (\<lambda>_. None), ops = [] \<rparr>"
  have "\<not> is_ok (fst ?run)"
    by code_simp
  then obtain e st' w' where run: "?run = (Inl e, st', w')"
    by (cases ?run; cases "fst ?run") auto
  have parents: "set (ancestors ''/d'') = {''/d''}"
    by (simp add: ancestors_def upt_rec)
  have "cleans full_disk"
    by (simp add: cleans_def full_disk_def)
  from create_bundle_failure [OF this run] run show ?thesis
    by (auto simp: new_diagnostic_collector_def parents)
qed

text \<open>
  C8. A bundle that is returned is the newest of the (at most five) stored ones and is found under
  its identifier with its size; its archive holds what \<open>tar\<close> makes of a staging directory, with
  every planned file in it, complete, if the streams could be flushed.  If the removals succeed, whose errors the code ignores,
  the staging directory is gone, and so are the archives of the bundles that it pushed out.
\<close>

theorem create_bundle_success:
  assumes "collector_inv st w" "bundle_sequence st \<noteq> - 1"
    "distinct (map (ls_id \<circ> fst) (src_logs s))"
    "create_bundle tar faults inp s m st w = (Inr info, st', w')"
  shows "bundles st' = take_last maximum_bundles (bundles st @ [new_bundle inp st info]) \<and>
    get_bundle_path st' (db_id info) = Inr (next_archive inp st, db_size_bytes info) \<and>
    (\<exists>t. fs w' (next_archive inp st) = Some (File (tar t (next_staging inp st))) \<and>
       db_size_bytes info = word_of_nat (length (tar t (next_staging inp st))) \<and>
       (flushes faults \<longrightarrow> (\<forall>(p, c) \<in> set (planned_files (staging_plan (next_staging inp st)
          (hostname_text (in_hostname inp)) (in_kernel inp) m s)). t p = Some (File c)))) \<and>
    (cleans faults \<longrightarrow> (\<forall>q. below (next_staging inp st) q \<longrightarrow> fs w' q = None) \<and>
       (\<forall>b \<in> set (bundles st) - set (bundles st'). fs w' (sb_path b) = None))"
  by (rule create_bundle_complete [OF assms])

lemma create_bundle_success_witness:
  "\<exists>info st' w'. create_bundle sample_tar no_faults sample_inputs sample_sources empty_metrics
       (new_diagnostic_collector ''/d'') \<lparr> fs = (\<lambda>_. None), ops = [] \<rparr> = (Inr info, st', w') \<and>
     get_bundle_path st' (db_id info) =
       Inr (next_archive sample_inputs (new_diagnostic_collector ''/d''), db_size_bytes info)"
proof -
  let ?run = "create_bundle sample_tar no_faults sample_inputs sample_sources empty_metrics
       (new_diagnostic_collector ''/d'') \<lparr> fs = (\<lambda>_. None), ops = [] \<rparr>"
  have "is_ok (fst ?run)"
    by code_simp
  then obtain info st' w' where run: "?run = (Inr info, st', w')"
    by (cases ?run; cases "fst ?run") auto
  from create_bundle_success [OF collector_inv_new _ _ run] run show ?thesis
    by (simp add: new_diagnostic_collector_def sample_sources_def)
qed

text \<open>
  Without that the request succeeds all the same: the result of writing out the buffer is never
  looked at, so that an incomplete file goes into the archive.
\<close>

definition unflushed_disk :: faults where
  "unflushed_disk n oper = (case oper of WriteFile _ _ \<Rightarrow> Some (Unflushed []) | _ \<Rightarrow> None)"

lemma create_bundle_unflushed:
  "case create_bundle sample_tar unflushed_disk sample_inputs sample_sources empty_metrics
       (new_diagnostic_collector ''/d'') \<lparr> fs = (\<lambda>_. None), ops = [] \<rparr> of
     (r, st', w') \<Rightarrow> is_ok r \<and>
       fs w' (next_archive sample_inputs (new_diagnostic_collector ''/d'')) = Some (File [])"
  by code_simp

text \<open>
  C10. Whatever a request for a bundle meets, the invariant of the collector holds after it: at most
  five bundles with different identifiers, each with its archive on disk in the recorded size.
\<close>

theorem create_bundle_inv:
  assumes "collector_inv st w" "bundle_sequence st \<noteq> - 1"
    "distinct (map (ls_id \<circ> fst) (src_logs s))"
    "create_bundle tar faults inp s m st w = (r, st', w')"
  shows "collector_inv st' w'"
proof (cases r)
  case (Inl e)
  then show ?thesis
    using create_bundle_inv_failed [OF assms(1,2)] assms(4) by simp
next
  case (Inr info)
  then show ?thesis
    using create_bundle_inv_stored [OF assms(1-3)] assms(4) by simp
qed

lemma create_bundle_inv_witness:
  "collector_inv
     (fst (snd (create_bundle sample_tar no_faults sample_inputs sample_sources empty_metrics
       (new_diagnostic_collector ''/d'') \<lparr> fs = (\<lambda>_. None), ops = [] \<rparr>)))
     (snd (snd (create_bundle sample_tar no_faults sample_inputs sample_sources empty_metrics
       (new_diagnostic_collector ''/d'') \<lparr> fs = (\<lambda>_. None), ops = [] \<rparr>)))"
  by (rule create_bundle_inv [OF collector_inv_new _ _ triple_eq])
     (simp_all add: new_diagnostic_collector_def sample_sources_def)

text \<open>
  C2. Over any series of requests the collector refines the abstract store: what it holds are the
  last five bundles of those it held and of all the successful answers, in order.
\<close>

theorem create_bundles_refine:
  assumes "length (bundles st) \<le> maximum_bundles" "create_bundles tar requests st w = (rs, st', w')"
  shows "map sb_info (bundles st') = take_last maximum_bundles (map sb_info (bundles st) @ successes rs)"
  by (rule create_bundles_infos [OF assms(2,1)])

definition sample_requests :: "(faults \<times> bundle_inputs \<times> sources \<times> system_metrics) list" where
  "sample_requests =
     [(no_faults, sample_inputs, sample_sources, empty_metrics), (full_disk, sample_inputs, sample_sources, empty_metrics)]"

lemma create_bundles_refine_witness:
  "map sb_info (bundles (fst (snd (create_bundles sample_tar sample_requests
       (new_diagnostic_collector ''/d'') \<lparr> fs = (\<lambda>_. None), ops = [] \<rparr>)))) =
   take_last maximum_bundles (successes (fst (create_bundles sample_tar sample_requests
       (new_diagnostic_collector ''/d'') \<lparr> fs = (\<lambda>_. None), ops = [] \<rparr>)))"
proof -
  have "bundles (new_diagnostic_collector ''/d'') = []"
    by (simp add: new_diagnostic_collector_def)
  then show ?thesis
    using create_bundles_refine [OF _ triple_eq, of "new_diagnostic_collector ''/d''"] by simp
qed

end
