(* ===== verification/Rpc_Messages.thy ===== *)
theory Rpc_Messages
  imports Process_Collector Process_Controller Network_Collector System_Collector Log_Collector Service_Manager Diagnostic_Collector
begin

text \<open>
  The vocabulary of the remote calls: the status of a call, the messages of
  \<open>proto/edgescope.proto\<close> as records (a \<open>string\<close> or \<open>bytes\<close> field is a \<open>string\<close>, a
  \<open>repeated\<close> field a list), and the functions of \<open>agent/src/EdgeScopeServiceImpl.cpp\<close> that fill
  them.  The generated classes and the transport are not in the repository: a call gives the
  server's answer, or a status of the transport.
\<close>

section \<open>Status\<close>

datatype status_code =
    StatusOk | Cancelled | InvalidArgument | DeadlineExceeded | NotFound | PermissionDenied
  | FailedPrecondition | Internal | Unavailable | OtherStatus nat

type_synonym status = "status_code \<times> string"

abbreviation ok_status :: status where "ok_status \<equiv> (StatusOk, [])"

definition status_ok :: "status \<Rightarrow> bool" where
  "status_ok st \<longleftrightarrow> fst st = StatusOk"

text \<open>An answer: the status of a failure, or the response that comes with an \<open>OK\<close>.\<close>

type_synonym 'a answer = "status + 'a"

section \<open>Messages\<close>

record agent_info_msg =
  ai_hostname :: string
  ai_kernel_version :: string
  ai_uptime_seconds :: u64
  ai_agent_version :: string

record metrics_msg =
  mm_cpu_usage_percent :: double
  mm_memory_total_bytes :: u64
  mm_memory_available_bytes :: u64
  mm_memory_used_bytes :: u64
  mm_load_average_1m :: double
  mm_load_average_5m :: double
  mm_load_average_15m :: double
  mm_uptime_seconds :: u64

record process_msg =
  pm_pid :: i32
  pm_ppid :: i32
  pm_name :: string
  pm_state :: string
  pm_command_line :: string
  pm_cpu_usage_percent :: double
  pm_resident_memory_bytes :: u64
  pm_virtual_memory_bytes :: u64
  pm_thread_count :: u32
  pm_read_bytes :: u64
  pm_write_bytes :: u64
  pm_start_time_ticks :: u64

record interface_msg =
  im_name :: string
  im_ipv4_addresses :: "string list"
  im_ipv6_addresses :: "string list"
  im_rx_bytes :: u64
  im_tx_bytes :: u64
  im_state :: string

record connection_msg =
  cm_protocol :: string
  cm_local_address :: string
  cm_local_port :: u32
  cm_remote_address :: string
  cm_remote_port :: u32
  cm_state :: string
  cm_inode :: u64
  cm_pid :: i32

record log_source_msg =
  lm_id :: string
  lm_display_name :: string
  lm_available :: bool

record log_content_msg =
  lc_lines :: "string list"
  lc_truncated :: bool

record service_msg =
  sm_name :: string
  sm_description :: string
  sm_load_state :: string
  sm_active_state :: string
  sm_sub_state :: string

record bundle_msg =
  bm_bundle_id :: string
  bm_filename :: string
  bm_total_size_bytes :: u64
  bm_created_at_unix_seconds :: u64

record chunk_msg =
  ch_data :: string
  ch_offset :: u64
  ch_total_size_bytes :: u64
  ch_eof :: bool

section \<open>Filling the messages\<close>

definition fill_system_metrics_response :: "system_metrics \<Rightarrow> metrics_msg" where
  "fill_system_metrics_response m =
     \<lparr> mm_cpu_usage_percent = cpu_usage_percent m,
       mm_memory_total_bytes = memory_total_bytes m,
       mm_memory_available_bytes = memory_available_bytes m,
       mm_memory_used_bytes = memory_used_bytes m,
       mm_load_average_1m = load_average_1m m,
       mm_load_average_5m = load_average_5m m,
       mm_load_average_15m = load_average_15m m,
       mm_uptime_seconds = uptime_seconds m \<rparr>"

definition fill_process_info :: "process_info \<Rightarrow> process_msg" where
  "fill_process_info p =
     \<lparr> pm_pid = p_pid p, pm_ppid = p_ppid p, pm_name = p_name p, pm_state = p_state p,
       pm_command_line = p_command_line p, pm_cpu_usage_percent = p_cpu_usage_percent p,
       pm_resident_memory_bytes = p_resident_memory_bytes p,
       pm_virtual_memory_bytes = p_virtual_memory_bytes p, pm_thread_count = p_thread_count p,
       pm_read_bytes = p_read_bytes p, pm_write_bytes = p_write_bytes p,
       pm_start_time_ticks = p_start_time_ticks p \<rparr>"

definition fill_interface :: "network_interface_info \<Rightarrow> interface_msg" where
  "fill_interface i =
     \<lparr> im_name = if_name i, im_ipv4_addresses = ipv4_addresses i, im_ipv6_addresses = ipv6_addresses i,
       im_rx_bytes = rx_bytes i, im_tx_bytes = tx_bytes i, im_state = if_state i \<rparr>"

definition fill_connection :: "tcp_connection_info \<Rightarrow> connection_msg" where
  "fill_connection c =
     \<lparr> cm_protocol = protocol c, cm_local_address = local_address c, cm_local_port = local_port c,
       cm_remote_address = remote_address c, cm_remote_port = remote_port c, cm_state = tcp_state c,
       cm_inode = inode c, cm_pid = tcp_pid c \<rparr>"

definition fill_log_source :: "log_source_info \<Rightarrow> log_source_msg" where
  "fill_log_source l =
     \<lparr> lm_id = ls_id l, lm_display_name = ls_display_name l, lm_available = ls_available l \<rparr>"

definition fill_service :: "service_info \<Rightarrow> service_msg" where
  "fill_service s =
     \<lparr> sm_name = svc_name s, sm_description = svc_description s, sm_load_state = svc_load_state s,
       sm_active_state = svc_active_state s, sm_sub_state = svc_sub_state s \<rparr>"

definition fill_bundle :: "diagnostic_bundle_info \<Rightarrow> bundle_msg" where
  "fill_bundle b =
     \<lparr> bm_bundle_id = db_id b, bm_filename = db_filename b, bm_total_size_bytes = db_size_bytes b,
       bm_created_at_unix_seconds = db_created_at b \<rparr>"

section \<open>Statuses of the collectors' errors\<close>

fun process_collector_status :: "process_collector_error \<Rightarrow> string \<Rightarrow> status" where
  "process_collector_status PcInvalidArgument e = (InvalidArgument, e)"
| "process_collector_status PcNotFound e = (NotFound, e)"
| "process_collector_status PcPermissionDenied e = (PermissionDenied, e)"
| "process_collector_status PcParseError e = (Internal, e)"
| "process_collector_status PcIoError e = (Internal, e)"
| "process_collector_status PcNone e = (Internal, ''unknown process collector error'')"

fun process_control_status :: "process_control_error \<Rightarrow> string \<Rightarrow> status" where
  "process_control_status CtlInvalidArgument e = (InvalidArgument, e)"
| "process_control_status CtlNotFound e = (NotFound, e)"
| "process_control_status CtlPermissionDenied e = (PermissionDenied, e)"
| "process_control_status CtlInternal e = (Internal, e)"
| "process_control_status CtlNone e = (Internal, ''unknown process control error'')"

fun log_status :: "log_collector_error \<Rightarrow> string \<Rightarrow> status" where
  "log_status LogInvalidArgument e = (InvalidArgument, e)"
| "log_status LogNotFound e = (NotFound, e)"
| "log_status LogPermissionDenied e = (PermissionDenied, e)"
| "log_status LogIoError e = (Internal, e)"
| "log_status LogNone e = (Internal, ''unknown log error'')"

fun service_status :: "service_manager_error \<Rightarrow> string \<Rightarrow> status" where
  "service_status SvcInvalidArgument e = (InvalidArgument, e)"
| "service_status SvcNotAllowed e = (PermissionDenied, e)"
| "service_status SvcPermissionDenied e = (PermissionDenied, e)"
| "service_status SvcNotFound e = (NotFound, e)"
| "service_status SvcCommandFailed e = (FailedPrecondition, e)"
| "service_status SvcNone e = (Internal, ''unknown service manager error'')"

text \<open>No error becomes an \<open>OK\<close>.\<close>

lemma process_collector_status_failure [simp]: "fst (process_collector_status c e) \<noteq> StatusOk"
  by (cases c) simp_all

lemma process_control_status_failure [simp]: "fst (process_control_status c e) \<noteq> StatusOk"
  by (cases c) simp_all

lemma log_status_failure [simp]: "fst (log_status c e) \<noteq> StatusOk"
  by (cases c) simp_all

lemma service_status_failure [simp]: "fst (service_status c e) \<noteq> StatusOk"
  by (cases c) simp_all

end
