(* ===== verification/Agent_Config.thy ===== *)
theory Agent_Config
  imports Cpp_Number
begin

text \<open>
  \<open>agent/src/AgentConfig.cpp\<close>: the configuration file of the Agent.  The file is a
  \<open>string option\<close> (\<open>None\<close>: it cannot be opened); the loader goes through its lines, and
  each line either is skipped, sets one field of the configuration being parsed, or ends the
  load with an error.  Only a load that succeeds assigns the caller's configuration.
\<close>

section \<open>Data\<close>

record agent_config =
  listen_address :: string
  sample_interval :: u64 \<comment> \<open>milliseconds\<close>
  log_file :: path
  diagnostic_directory :: path
  allowed_services :: "string list"

definition default_config :: agent_config where
  "default_config =
     \<lparr> listen_address = ''127.0.0.1:50051'',
       sample_interval = 1000,
       log_file = ''/tmp/edgescope-agent.log'',
       diagnostic_directory = ''/tmp/edgescope-diagnostics'',
       allowed_services = [''ssh.service'', ''cron.service''] \<rparr>"

section \<open>Helpers\<close>

definition trim :: "string \<Rightarrow> string" where
  "trim value = rev (dropWhile isspace (rev (dropWhile isspace value)))"

text \<open>The port is what follows the last colon; \<open>std::stoul\<close> must process all of it.\<close>

definition is_valid_address :: "string \<Rightarrow> bool" where
  "is_valid_address address =
     (case rfind_char CHR '':'' address of
        None \<Rightarrow> False
      | Some separator \<Rightarrow>
          if separator = 0 \<or> separator + 1 = length address then False
          else (case stoul (drop (separator + 1) address) of
                  None \<Rightarrow> False
                | Some (port, parsed) \<Rightarrow>
                    parsed = length address - separator - 1 \<and> 0 < port \<and> port \<le> 65535))"

text \<open>
  \<open>name.find(".service") != name.size() - 8\<close> compares two values of type
  \<open>std::size_t\<close>: the search result is \<open>npos\<close> where there is none, and the difference wraps.
\<close>

definition service_char :: "char \<Rightarrow> bool" where
  "service_char c \<longleftrightarrow> isalnum c \<or> c = CHR ''-'' \<or> c = CHR ''_'' \<or> c = CHR ''.'' \<or> c = CHR ''@''"

definition is_valid_service_name :: "string \<Rightarrow> bool" where
  "is_valid_service_name name =
     (if name = [] \<or> length name > 128 \<or>
         pos_or_npos (find_str ''.service'' name) \<noteq> word_of_nat (length name) - 8
      then False
      else list_all service_char name)"

definition split_services :: "string \<Rightarrow> string list" where
  "split_services value =
     filter (\<lambda>service. service \<noteq> []) (map trim (getlines CHR '','' value))"

section \<open>The loader\<close>

definition is_absolute :: "string \<Rightarrow> bool" where
  "is_absolute value \<longleftrightarrow> value \<noteq> [] \<and> hd value = CHR ''/''"

definition parse_interval :: "string \<Rightarrow> u64 option" where
  "parse_interval value =
     (case stoul value of
        None \<Rightarrow> None
      | Some (interval, consumed) \<Rightarrow>
          if consumed \<noteq> length value \<or> interval < 100 \<or> interval > 60000 then None
          else Some interval)"

definition apply_key ::
  "nat \<Rightarrow> string \<Rightarrow> string \<Rightarrow> agent_config \<Rightarrow> string + agent_config" where
  "apply_key line_number key value parsed =
     (if key = ''listen_address'' then
        if \<not> is_valid_address value
        then Inl (''invalid listen_address on line '' @ show_nat line_number)
        else Inr (parsed \<lparr> listen_address := value \<rparr>)
      else if key = ''sample_interval_ms'' then
        (case parse_interval value of
           None \<Rightarrow> Inl ''sample_interval_ms must be between 100 and 60000''
         | Some interval \<Rightarrow> Inr (parsed \<lparr> sample_interval := interval \<rparr>))
      else if key = ''log_file'' then
        if \<not> is_absolute value then Inl ''log_file must be an absolute path''
        else Inr (parsed \<lparr> log_file := value \<rparr>)
      else if key = ''diagnostic_directory'' then
        if \<not> is_absolute value then Inl ''diagnostic_directory must be an absolute path''
        else Inr (parsed \<lparr> diagnostic_directory := value \<rparr>)
      else if key = ''allowed_services'' then
        if \<not> list_all is_valid_service_name (split_services value)
        then Inl ''allowed_services contains an invalid service name''
        else Inr (parsed \<lparr> allowed_services := split_services value \<rparr>)
      else Inl (''unknown config key on line '' @ show_nat line_number @ '': '' @ key))"

definition load_line :: "nat \<Rightarrow> string \<Rightarrow> agent_config \<Rightarrow> string + agent_config" where
  "load_line line_number raw parsed =
     (let line = trim raw in
      if line = [] \<or> hd line = CHR ''#'' then Inr parsed
      else (case find_char CHR ''='' line of
              None \<Rightarrow> Inl (''invalid config line '' @ show_nat line_number)
            | Some separator \<Rightarrow>
                apply_key line_number (trim (take separator line))
                  (trim (drop (separator + 1) line)) parsed))"

fun load_lines :: "nat \<Rightarrow> string list \<Rightarrow> agent_config \<Rightarrow> string + agent_config" where
  "load_lines line_number [] parsed = Inr parsed"
| "load_lines line_number (line # rest) parsed =
     (case load_line (line_number + 1) line parsed of
        Inl e \<Rightarrow> Inl e
      | Inr parsed' \<Rightarrow> load_lines (line_number + 1) rest parsed')"

text \<open>
  \<open>AgentConfigLoader::Load(path, config, error)\<close>, from the opened file, the caller's
  configuration and error text to the returned flag and their new values.
\<close>

definition load_config ::
  "path \<Rightarrow> string option \<Rightarrow> agent_config \<Rightarrow> string \<Rightarrow> bool \<times> agent_config \<times> string" where
  "load_config path input config error =
     (case input of
        None \<Rightarrow> (False, config, ''failed to open config file: '' @ path)
      | Some contents \<Rightarrow>
          (case load_lines 0 (getlines CHR 0x0A contents) default_config of
             Inl e \<Rightarrow> (False, config, e)
           | Inr parsed \<Rightarrow> (True, parsed, [])))"

section \<open>Trimming\<close>

definition trimmed :: "string \<Rightarrow> bool" where
  "trimmed s \<longleftrightarrow> s = [] \<or> (\<not> isspace (hd s) \<and> \<not> isspace (last s))"

lemma trim_trimmed: "trimmed s \<Longrightarrow> trim s = s"
proof (cases s)
  case (Cons c r)
  assume "trimmed s"
  then have "\<not> isspace c" and "\<not> isspace (hd (rev s))"
    using Cons by (auto simp: trimmed_def hd_rev simp del: rev.simps)
  then have "dropWhile isspace s = s" and "dropWhile isspace (rev s) = rev s"
    using Cons by (cases "rev s"; simp)+
  then show ?thesis by (simp add: trim_def)
qed (simp add: trim_def)

lemma trimmed_trim: "trimmed (trim s)"
proof (cases "trim s = []")
  case False
  define t where "t = rev (dropWhile isspace s)"
  have t: "trim s = rev (dropWhile isspace t)"
    by (simp add: trim_def t_def)
  with False have d: "dropWhile isspace t \<noteq> []" by simp
  then have "\<not> isspace (last (trim s))"
    using hd_dropWhile [of isspace t] by (simp add: t last_rev)
  moreover have "last (dropWhile isspace t) = last t"
    using d by (metis dropWhile_eq_Nil_conv last_appendR takeWhile_dropWhile_id)
  moreover have "dropWhile isspace s \<noteq> []"
    using d by (auto simp: t_def dest: set_dropWhileD)
  moreover have "last t = hd (dropWhile isspace s)"
    using calculation(3) by (simp add: t_def last_rev)
  ultimately have "\<not> isspace (hd (trim s))"
    using d hd_dropWhile [of isspace s] by (simp add: t hd_rev)
  with \<open>\<not> isspace (last (trim s))\<close> show ?thesis by (simp add: trimmed_def)
qed (simp add: trimmed_def)

lemma trimmed_no_space: "\<forall>c \<in> set s. \<not> isspace c \<Longrightarrow> trimmed s"
  by (cases s) (auto simp: trimmed_def)

section \<open>Addresses\<close>

lemma is_valid_address_split:
  assumes "is_valid_address address"
  obtains host port n where "address = host @ CHR '':'' # port" "host \<noteq> []" "CHR '':'' \<notin> set port"
    "stoul port = Some (n, length port)" "0 < n" "n \<le> 65535"
proof -
  obtain i where i: "rfind_char CHR '':'' address = Some i"
    using assms by (auto simp: is_valid_address_def split: option.splits)
  define host port where "host = take i address" and "port = drop (Suc i) address"
  have split: "address = host @ CHR '':'' # port" "CHR '':'' \<notin> set port" "i < length address"
    using rfind_char_Some_split [OF i] by (auto simp: host_def port_def)
  obtain n k where n: "stoul port = Some (n, k)" "k = length address - i - 1" "0 < n" "n \<le> 65535"
    and "i \<noteq> 0"
    using assms i by (auto simp: is_valid_address_def port_def split: option.splits if_splits)
  then have "host \<noteq> []" and "k = length port"
    using split(3) by (auto simp: port_def host_def)
  with n show ?thesis
    by (intro that [OF split(1) _ split(2)]) auto
qed

lemma is_valid_address_show:
  assumes "host \<noteq> []" "0 < n" "n \<le> 65535"
  shows "is_valid_address (host @ CHR '':'' # show_nat n)"
proof -
  have "CHR '':'' \<notin> set (show_nat n)"
    by (auto dest!: show_nat_digits simp: isdigit_def)
  then have "rfind_char CHR '':'' (host @ CHR '':'' # show_nat n) = Some (length host)"
    by (rule rfind_char_append)
  moreover have "stoul (show_nat n) = Some (word_of_nat n, length (show_nat n))"
    using assms by (intro stoul_show_nat) simp
  moreover have "(0::u64) < word_of_nat n" and "word_of_nat n \<le> (65535::u64)"
    using assms by (simp_all add: word_less_nat_alt word_le_nat_alt unat_of_nat)
  ultimately show ?thesis
    using assms by (simp add: is_valid_address_def)
qed

section \<open>Service names\<close>

lemma word_of_length: "length name \<le> 128 \<Longrightarrow> unat (word_of_nat (length name) :: u64) = length name"
  by (simp add: unat_of_nat)

lemma service_name_position:
  assumes "length name \<le> 128"
  shows "pos_or_npos (find_str ''.service'' name) = word_of_nat (length name) - 8 \<longleftrightarrow>
    (8 \<le> length name \<and> find_str ''.service'' name = Some (length name - 8)) \<or> length name = 7"
proof (cases "find_str ''.service'' name")
  case None
  have "(- 1 :: u64) = word_of_nat (length name) - 8 \<longleftrightarrow> word_of_nat (length name) = (7 :: u64)"
    by (simp add: algebra_simps eq_diff_eq)
  also have "\<dots> \<longleftrightarrow> length name = 7"
    using word_of_length [OF assms] by (auto dest: arg_cong [where f = unat])
  finally show ?thesis
    using None by (simp add: pos_or_npos_def)
next
  case (Some i)
  then have i: "i + 8 \<le> length name"
    using find_str_bound by fastforce
  then have "(word_of_nat (length name) :: u64) - 8 = word_of_nat (length name - 8)"
    by (simp add: of_nat_diff)
  moreover have "unat (word_of_nat i :: u64) = i"
    and "unat (word_of_nat (length name - 8) :: u64) = length name - 8"
    using i assms by (simp_all only: unat_of_nat_u64)
  then have "(word_of_nat i = (word_of_nat (length name - 8) :: u64)) \<longleftrightarrow> i = length name - 8"
    by metis
  ultimately show ?thesis
    using Some i by (auto simp: pos_or_npos_def)
qed

text \<open>What a service name accepted by the check looks like.\<close>

definition ends_in_service :: "string \<Rightarrow> bool" where
  "ends_in_service name \<longleftrightarrow>
     8 \<le> length name \<and> find_str ''.service'' name = Some (length name - 8)"

lemma is_valid_service_name_iff:
  "is_valid_service_name name \<longleftrightarrow>
     name \<noteq> [] \<and> length name \<le> 128 \<and> list_all service_char name \<and>
     (ends_in_service name \<or> length name = 7)"
  using service_name_position [of name]
  by (auto simp: is_valid_service_name_def ends_in_service_def)

section \<open>Configurations the loader can return\<close>

definition config_ok :: "agent_config \<Rightarrow> bool" where
  "config_ok c \<longleftrightarrow>
     is_valid_address (listen_address c) \<and>
     100 \<le> sample_interval c \<and> sample_interval c \<le> 60000 \<and>
     is_absolute (log_file c) \<and> is_absolute (diagnostic_directory c) \<and>
     list_all is_valid_service_name (allowed_services c)"

lemma config_ok_default: "config_ok default_config"
proof -
  have "is_valid_address (''127.0.0.1'' @ CHR '':'' # show_nat 50051)"
    by (rule is_valid_address_show) simp_all
  moreover have "''127.0.0.1'' @ CHR '':'' # show_nat 50051 = ''127.0.0.1:50051''"
    by code_simp
  ultimately have "is_valid_address ''127.0.0.1:50051''"
    by metis
  moreover have "list_all is_valid_service_name [''ssh.service'', ''cron.service'']"
    by code_simp
  ultimately show ?thesis
    by (simp add: config_ok_def default_config_def is_absolute_def)
qed

lemma parse_interval_bounds:
  "parse_interval value = Some interval \<Longrightarrow> 100 \<le> interval \<and> interval \<le> 60000"
  by (auto simp: parse_interval_def not_less split: option.splits if_splits)

lemma apply_key_ok: "config_ok c \<Longrightarrow> apply_key n key value c = Inr c' \<Longrightarrow> config_ok c'"
  by (auto simp: apply_key_def config_ok_def parse_interval_bounds split: if_splits option.splits)

lemma load_line_ok: "config_ok c \<Longrightarrow> load_line n raw c = Inr c' \<Longrightarrow> config_ok c'"
  by (auto simp: load_line_def Let_def split: if_splits option.splits elim: apply_key_ok)

lemma load_lines_ok: "config_ok c \<Longrightarrow> load_lines n ls c = Inr c' \<Longrightarrow> config_ok c'"
  by (induction n ls c rule: load_lines.induct) (auto split: sum.splits dest: load_line_ok)

lemma load_line_error: "load_line n raw c = Inl e \<Longrightarrow> e \<noteq> []"
  by (auto simp: load_line_def apply_key_def Let_def split: if_splits option.splits)

lemma load_lines_error: "load_lines n ls c = Inl e \<Longrightarrow> e \<noteq> []"
  by (induction n ls c rule: load_lines.induct) (auto split: sum.splits dest: load_line_error)

text \<open>
  C38.  A load either succeeds, clears the error text and leaves a configuration in which every
  field has passed its check (whatever the file sets or leaves at its default), or it fails,
  explains the failure and leaves the caller's configuration as it was.
\<close>

theorem load_config_all_or_nothing:
  assumes "load_config path input config error = (ok, config', error')"
  shows "if ok then config_ok config' \<and> error' = [] else config' = config \<and> error' \<noteq> []"
proof (cases input)
  case None
  then show ?thesis using assms by (auto simp: load_config_def)
next
  case (Some contents)
  then show ?thesis
    using assms load_lines_ok [OF config_ok_default] load_lines_error
    by (auto simp: load_config_def split: sum.splits)
qed

theorem load_config_all_or_nothing_witness:
  "load_config ''a.conf'' (Some ''sample_interval_ms = 250'') default_config []
     = (True, default_config \<lparr> sample_interval := 250 \<rparr>, []) \<and>
   config_ok (default_config \<lparr> sample_interval := 250 \<rparr>)"
proof -
  have l: "load_config ''a.conf'' (Some ''sample_interval_ms = 250'') default_config []
     = (True, default_config \<lparr> sample_interval := 250 \<rparr>, [])"
    by code_simp
  show ?thesis using l load_config_all_or_nothing [OF l] by simp
qed

text \<open>
  The names that the service check accepts: at most 128 letters, digits and
  \<open>- _ . @\<close>, and either the only \<open>.service\<close> is at the end or the name has exactly
  seven characters.  In the latter case there is no \<open>.service\<close> in the name at all: the search
  gives \<open>npos\<close>, and so does \<open>name.size() - 8\<close>, which wraps around.
\<close>

theorem is_valid_service_name_exact:
  "is_valid_service_name name \<longleftrightarrow>
     name \<noteq> [] \<and> length name \<le> 128 \<and> list_all service_char name \<and>
     ((8 \<le> length name \<and> find_str ''.service'' name = Some (length name - 8)) \<or> length name = 7)"
  by (simp add: is_valid_service_name_iff ends_in_service_def)

section \<open>Writing a configuration file\<close>

text \<open>The file that sets every field, one \<open>key=value\<close> line each.\<close>

definition config_line :: "string \<Rightarrow> string \<Rightarrow> string" where
  "config_line key value = key @ CHR ''='' # value"

definition config_lines :: "agent_config \<Rightarrow> string list" where
  "config_lines c =
     [config_line ''listen_address'' (listen_address c),
      config_line ''sample_interval_ms'' (show_nat (unat (sample_interval c))),
      config_line ''log_file'' (log_file c),
      config_line ''diagnostic_directory'' (diagnostic_directory c),
      config_line ''allowed_services'' (join '','' (allowed_services c))]"

definition config_text :: "agent_config \<Rightarrow> string" where
  "config_text c = concat (map (\<lambda>l. l @ [CHR 0x0A]) (config_lines c))"

definition plain_value :: "string \<Rightarrow> bool" where
  "plain_value v \<longleftrightarrow> trimmed v \<and> CHR 0x0A \<notin> set v"

lemma service_char_plain:
  "service_char c \<Longrightarrow> \<not> isspace c \<and> c \<noteq> CHR '','' \<and> c \<noteq> CHR 0x0A"
  by (auto simp: service_char_def isalnum_def isalpha_def isdigit_def isspace_def Let_def)

lemma valid_service_name_chars:
  "is_valid_service_name v \<Longrightarrow> v \<noteq> [] \<and> (\<forall>c \<in> set v. \<not> isspace c \<and> c \<noteq> CHR '','' \<and> c \<noteq> CHR 0x0A)"
  by (auto simp: is_valid_service_name_iff list_all_iff dest: service_char_plain)

lemma split_services_join:
  assumes "list_all is_valid_service_name vs"
  shows "split_services (join '','' vs) = vs"
proof -
  have v: "v \<noteq> [] \<and> trim v = v \<and> CHR '','' \<notin> set v" if "v \<in> set vs" for v
    using assms that valid_service_name_chars [of v]
    by (auto simp: list_all_iff intro!: trim_trimmed trimmed_no_space)
  then have "getlines CHR '','' (join '','' vs) = vs"
    by (intro getlines_join) blast
  moreover have "map trim vs = vs"
    using v by (simp add: map_idI)
  moreover have "filter (\<lambda>v. v \<noteq> []) vs = vs"
    using v by (simp add: filter_id_conv)
  ultimately show ?thesis by (simp add: split_services_def)
qed

lemma trimmed_append: "trimmed a \<Longrightarrow> trimmed b \<Longrightarrow> a \<noteq> [] \<Longrightarrow> b \<noteq> [] \<Longrightarrow> trimmed (a @ b)"
  by (auto simp: trimmed_def)

lemma trim_config_line:
  assumes "trimmed key" "key \<noteq> []" "trimmed value"
  shows "trim (config_line key value) = config_line key value"
proof (rule trim_trimmed)
  have "\<not> isspace CHR ''=''"
    by (simp add: isspace_def)
  then show "trimmed (config_line key value)"
    using assms by (auto simp: config_line_def trimmed_def)
qed

lemma load_config_line:
  assumes "trimmed key" "key \<noteq> []" "hd key \<noteq> CHR ''#''" "CHR ''='' \<notin> set key" "trimmed value"
  shows "load_line n (config_line key value) c = apply_key n key value c"
proof -
  have "find_char CHR ''='' (config_line key value) = Some (length key)"
    using assms by (simp add: config_line_def find_char_append)
  then show ?thesis
    using assms
    by (simp add: load_line_def trim_config_line) (simp add: config_line_def trim_trimmed)
qed

lemma parse_interval_show:
  "100 \<le> i \<Longrightarrow> i \<le> 60000 \<Longrightarrow> parse_interval (show_nat (unat i)) = Some i"
  by (simp add: parse_interval_def stoul_show_nat unat_u64_le not_less)

lemma config_keys:
  "trimmed ''listen_address''" "trimmed ''sample_interval_ms''" "trimmed ''log_file''"
  "trimmed ''diagnostic_directory''" "trimmed ''allowed_services''"
  by (simp_all add: trimmed_def isspace_def)

lemma plain_join:
  assumes "list_all is_valid_service_name vs"
  shows "plain_value (join '','' vs)"
proof -
  have "\<not> isspace c" and "c \<noteq> CHR 0x0A" if "c \<in> set (join '','' vs)" for c
  proof -
    have "c = CHR '','' \<or> (\<exists>v \<in> set vs. c \<in> set v)"
      using that set_join [of "'',''" vs] by auto
    then show "\<not> isspace c" and "c \<noteq> CHR 0x0A"
      using assms valid_service_name_chars by (auto simp: list_all_iff isspace_def)
  qed
  then show ?thesis
    using trimmed_no_space by (auto simp: plain_value_def)
qed

lemma plain_show_nat: "plain_value (show_nat n)"
proof -
  have "\<not> isspace c" and "c \<noteq> CHR 0x0A" if "c \<in> set (show_nat n)" for c
    using show_nat_digits [OF that] by (auto simp: isdigit_not_space isdigit_def)
  then show ?thesis
    using trimmed_no_space by (auto simp: plain_value_def)
qed

lemma load_config_lines:
  assumes "config_ok c" "plain_value (listen_address c)" "plain_value (log_file c)"
    "plain_value (diagnostic_directory c)"
  shows "load_lines 0 (config_lines c) d = Inr c"
proof -
  have "trimmed (join '','' (allowed_services c))" and "trimmed (show_nat (unat (sample_interval c)))"
    using assms plain_join plain_show_nat by (auto simp: config_ok_def plain_value_def)
  then show ?thesis
    using assms config_keys
    by (cases c; cases d)
       (simp add: config_lines_def load_config_line apply_key_def parse_interval_show
         split_services_join config_ok_def plain_value_def)
qed

text \<open>
  C39.  Writing a valid configuration to a file and loading that file gives the configuration
  back, whatever configuration the caller had before.  The hypotheses on the three text fields
  are what the line format needs: no newline, no white space at the ends.
\<close>

theorem load_config_text:
  assumes "config_ok c" "plain_value (listen_address c)" "plain_value (log_file c)"
    "plain_value (diagnostic_directory c)"
  shows "load_config path (Some (config_text c)) config error = (True, c, [])"
proof -
  have "CHR 0x0A \<notin> set l" if "l \<in> set (config_lines c)" for l
    using that assms plain_join [of "allowed_services c"] plain_show_nat [of "unat (sample_interval c)"]
    by (auto simp: config_lines_def config_line_def plain_value_def config_ok_def)
  then have "getlines CHR 0x0A (config_text c) = config_lines c"
    using getlines_complete [of "config_lines c" "CHR 0x0A" "[]"] by (simp add: config_text_def)
  with load_config_lines [OF assms] show ?thesis
    by (simp add: load_config_def)
qed

theorem load_config_text_witness:
  "load_config ''a'' (Some (config_text default_config)) (default_config \<lparr> allowed_services := [] \<rparr>) ''x''
     = (True, default_config, [])"
  by (rule load_config_text [OF config_ok_default])
     (simp_all add: default_config_def plain_value_def trimmed_def isspace_def)

end
