(* ===== verification/Metrics_Sampler.thy ===== *)
theory Metrics_Sampler
  imports System_Collector
begin

text \<open>
  \<open>agent/src/MetricsSampler.cpp\<close>: a worker thread that samples the metrics at an interval, and
  the clients that read the latest sample or wait for the next.  Every access to the shared
  fields happens under the mutex, so the program is a transition system whose steps are the
  critical sections: the worker's wait that times out, its call of the collector (outside the
  lock), the publication of the result, the clients' reads, and the destructor.  The contract with
  the collector is the locale \<open>metrics_source\<close>.
\<close>

section \<open>State and operations\<close>

text \<open>Where the worker thread is.\<close>

datatype worker = Waiting | Collecting | Publishing "string + system_metrics" | Exited

record sampler =
  latest_metrics :: system_metrics
  latest_error :: string
  generation :: u64
  has_snapshot :: bool
  stopping :: bool
  collector :: system_collector
  worker :: worker

type_synonym collect_op =
  "file_reader \<Rightarrow> system_collector \<Rightarrow> (system_collector \<times> (string + system_metrics)) option"

type_synonym observation = "u64 \<times> (string + system_metrics)"

text \<open>The critical section of \<open>Sample\<close>.\<close>

definition publish :: "string + system_metrics \<Rightarrow> sampler \<Rightarrow> sampler" where
  "publish r s =
     (let s = s \<lparr> generation := generation s + 1 \<rparr> in
      case r of
        Inr metrics \<Rightarrow> s \<lparr> latest_metrics := metrics, latest_error := [], has_snapshot := True \<rparr>
      | Inl error \<Rightarrow> s \<lparr> latest_error := error \<rparr>)"

definition latest_result :: "sampler \<Rightarrow> string + system_metrics" where
  "latest_result s =
     (if \<not> has_snapshot s \<or> latest_error s \<noteq> [] then Inl (latest_error s)
      else Inr (latest_metrics s))"

definition get_latest :: "sampler \<Rightarrow> observation" where
  "get_latest s = (generation s, latest_result s)"

text \<open>\<open>WaitForNext\<close>: the condition that it waits for, and what it returns then.\<close>

definition wait_ready :: "u64 \<Rightarrow> sampler \<Rightarrow> bool" where
  "wait_ready previous_generation s \<longleftrightarrow> stopping s \<or> generation s > previous_generation"

definition wait_result :: "sampler \<Rightarrow> observation" where
  "wait_result s =
     (generation s,
      if stopping s then Inl ''metrics sampler is stopping'' else latest_result s)"

text \<open>
  The constructor: the collector reads its first counters, then \<open>Sample\<close> runs once before the
  worker starts.
\<close>

definition new_sampler :: "collect_op \<Rightarrow> file_reader \<Rightarrow> file_reader \<Rightarrow> sampler option" where
  "new_sampler coll files0 files1 =
     (case coll files1 (new_system_collector files0) of
        None \<Rightarrow> None
      | Some (c, r) \<Rightarrow>
          Some (publish r
            \<lparr> latest_metrics = empty_metrics, latest_error = [], generation = 0, has_snapshot = False,
              stopping = False, collector = c, worker = Waiting \<rparr>))"

section \<open>Steps\<close>

datatype sampler_event =
    Timeout | Collected file_reader | Published | WorkerExit
  | StopRequested
  | Latest observation
  | Next u64 observation

inductive sampler_step :: "collect_op \<Rightarrow> sampler \<Rightarrow> sampler_event \<Rightarrow> sampler \<Rightarrow> bool"
  for coll :: collect_op where
  timeout: "worker s = Waiting \<Longrightarrow> \<not> stopping s \<Longrightarrow>
    sampler_step coll s Timeout (s \<lparr> worker := Collecting \<rparr>)"
| collected: "worker s = Collecting \<Longrightarrow> coll files (collector s) = Some (c, r) \<Longrightarrow>
    sampler_step coll s (Collected files) (s \<lparr> collector := c, worker := Publishing r \<rparr>)"
| published: "worker s = Publishing r \<Longrightarrow>
    sampler_step coll s Published ((publish r s) \<lparr> worker := Waiting \<rparr>)"
| worker_exit: "worker s = Waiting \<Longrightarrow> stopping s \<Longrightarrow>
    sampler_step coll s WorkerExit (s \<lparr> worker := Exited \<rparr>)"
| stop: "sampler_step coll s StopRequested (s \<lparr> stopping := True \<rparr>)"
| latest: "sampler_step coll s (Latest (get_latest s)) s"
| wait_next: "wait_ready previous s \<Longrightarrow> sampler_step coll s (Next previous (wait_result s)) s"

inductive_cases step_cases: "sampler_step coll s e s'"
inductive_simps latest_simps: "sampler_step coll s (Latest obs) s'"
inductive_simps next_simps: "sampler_step coll s (Next previous obs) s'"

inductive sampler_run :: "collect_op \<Rightarrow> sampler \<Rightarrow> sampler_event list \<Rightarrow> sampler \<Rightarrow> bool"
  for coll :: collect_op where
  run_Nil: "sampler_run coll s [] s"
| run_step: "sampler_run coll s tr s' \<Longrightarrow> sampler_step coll s' e s'' \<Longrightarrow> sampler_run coll s (tr @ [e]) s''"

definition samples :: "sampler_event list \<Rightarrow> nat" where
  "samples tr = length (filter (\<lambda>e. e = Published) tr)"

lemma samples_simps [simp]:
  "samples [] = 0" "samples (tr @ [e]) = samples tr + (if e = Published then 1 else 0)"
  by (simp_all add: samples_def)

section \<open>The contract with the collector\<close>

definition result_ok :: "string + system_metrics \<Rightarrow> bool" where
  "result_ok r \<longleftrightarrow> (case r of Inl e \<Rightarrow> e \<noteq> [] | Inr m \<Rightarrow> metrics_ok m)"

lemma result_ok_simps [simp]: "result_ok (Inl e) \<longleftrightarrow> e \<noteq> []" "result_ok (Inr m) \<longleftrightarrow> metrics_ok m"
  by (simp_all add: result_ok_def)

definition sampler_inv :: "nat \<Rightarrow> sampler \<Rightarrow> bool" where
  "sampler_inv n s \<longleftrightarrow>
     generation s = word_of_nat n \<and> result_ok (latest_result s) \<and>
     (has_snapshot s \<longrightarrow> metrics_ok (latest_metrics s)) \<and>
     (\<forall>r. worker s = Publishing r \<longrightarrow> result_ok r) \<and>
     (worker s = Exited \<longrightarrow> stopping s)"

lemma sampler_inv_publish:
  assumes "sampler_inv n s \<or> (generation s = word_of_nat n \<and> \<not> has_snapshot s)" "result_ok r"
    and "worker s = Exited \<longrightarrow> stopping s"
  shows "sampler_inv (Suc n) ((publish r s) \<lparr> worker := Waiting \<rparr>)"
  using assms
  by (auto simp: sampler_inv_def publish_def latest_result_def Let_def split: sum.splits if_splits)

locale metrics_source =
  fixes coll :: collect_op
  assumes coll_ok: "coll files c = Some (c', Inr m) \<Longrightarrow> metrics_ok m"
    and coll_error: "coll files c = Some (c', Inl e) \<Longrightarrow> e \<noteq> []"
begin

lemma coll_result: "coll files c = Some (c', r) \<Longrightarrow> result_ok r"
  using coll_ok coll_error by (cases r) auto

lemma new_inv:
  assumes "new_sampler coll files0 files1 = Some s"
  shows "sampler_inv 1 s \<and> \<not> stopping s"
proof -
  obtain c r where c: "coll files1 (new_system_collector files0) = Some (c, r)"
    using assms by (auto simp: new_sampler_def split: option.splits)
  let ?s = "\<lparr> latest_metrics = empty_metrics, latest_error = [], generation = 0, has_snapshot = False,
              stopping = False, collector = c, worker = Waiting \<rparr>"
  have s: "s = publish r ?s"
    using assms c by (simp add: new_sampler_def)
  then have "(publish r ?s) \<lparr> worker := Waiting \<rparr> = s" and "\<not> stopping s"
    by (cases r; simp add: publish_def)+
  moreover have "sampler_inv (Suc 0) ((publish r ?s) \<lparr> worker := Waiting \<rparr>)"
    using coll_result [OF c] by (intro sampler_inv_publish) simp_all
  ultimately show ?thesis
    by (simp only: One_nat_def simp_thms)
qed

lemma step_inv:
  assumes "sampler_step coll s e s'" "sampler_inv n s"
  shows "sampler_inv (n + (if e = Published then 1 else 0)) s'"
  using assms
proof cases
  case (collected files c r)
  then show ?thesis
    using assms(2) coll_result by (auto simp: sampler_inv_def latest_result_def)
next
  case (published r)
  then have "sampler_inv (Suc n) ((publish r s) \<lparr> worker := Waiting \<rparr>)"
    using assms(2) by (intro sampler_inv_publish) (auto simp: sampler_inv_def)
  then show ?thesis
    using published by simp
qed (use assms(2) in \<open>auto simp: sampler_inv_def latest_result_def\<close>)

lemma run_inv: "sampler_run coll s tr s' \<Longrightarrow> sampler_inv n s \<Longrightarrow> sampler_inv (n + samples tr) s'"
proof (induction rule: sampler_run.induct)
  case (run_step s tr s' e s'')
  then have "sampler_inv (n + samples tr + (if e = Published then 1 else 0)) s''"
    by (blast intro: step_inv)
  then show ?case by (simp add: add.assoc)
qed simp

lemma observed:
  assumes "sampler_step coll s e s'" "sampler_inv n s" "e = Latest (g, r) \<or> e = Next previous (g, r)"
  shows "g = word_of_nat n \<and> result_ok r"
  using assms by (auto simp: latest_simps next_simps get_latest_def wait_result_def sampler_inv_def)

end

interpretation system: metrics_source collect
  by unfold_locales (rule collect_metrics_ok, assumption, rule collect_error_text, assumption)

section \<open>What clients observe\<close>

lemma run_append_step:
  "sampler_run coll s (tr @ [e]) s'' \<Longrightarrow> \<exists>s'. sampler_run coll s tr s' \<and> sampler_step coll s' e s''"
  by (erule sampler_run.cases) auto

text \<open>
  C14.  Whatever the interleaving of the worker, the clients and the destructor, a client never
  sees metrics that are not consistent, or a failure without an error text; and the
  generation it sees is the number of samples taken so far (modulo \<open>2^64\<close>), the one of the
  constructor included.
\<close>

theorem sampler_observations:
  assumes "new_sampler collect files0 files1 = Some s"
    and "sampler_run collect s (tr @ [e]) s'"
    and "e = Latest (g, r) \<or> e = Next previous (g, r)"
  shows "g = word_of_nat (1 + samples tr) \<and>
    (case r of Inl error \<Rightarrow> error \<noteq> [] | Inr metrics \<Rightarrow> metrics_ok metrics)"
proof -
  obtain t where run: "sampler_run collect s tr t" and step: "sampler_step collect t e s'"
    using run_append_step [OF assms(2)] by blast
  have "sampler_inv (1 + samples tr) t"
    using system.run_inv [OF run] system.new_inv [OF assms(1)] by blast
  then show ?thesis
    using system.observed [OF step _ assms(3)] by (auto simp: result_ok_def)
qed

text \<open>
  C15.  \<open>WaitForNext\<close> returns only what is newer than the generation that the client
  already has, or the error of a sampler that is being destroyed.
\<close>

theorem wait_for_next_fresh:
  assumes "sampler_step coll s (Next previous (g, r)) s'"
  shows "previous < g \<or> r = Inl ''metrics sampler is stopping''"
  using assms by (auto simp: next_simps wait_ready_def wait_result_def)

section \<open>The destructor\<close>

fun worker_steps_left :: "worker \<Rightarrow> nat" where
  "worker_steps_left Waiting = 1"
| "worker_steps_left Collecting = 3"
| "worker_steps_left (Publishing _) = 2"
| "worker_steps_left Exited = 0"

definition worker_event :: "sampler_event \<Rightarrow> bool" where
  "worker_event e \<longleftrightarrow> (case e of Timeout \<Rightarrow> True | Collected _ \<Rightarrow> True | Published \<Rightarrow> True | WorkerExit \<Rightarrow> True | _ \<Rightarrow> False)"

lemma worker_event_simps [simp]:
  "worker_event Timeout" "worker_event (Collected files)" "worker_event Published" "worker_event WorkerExit"
  "\<not> worker_event StopRequested" "\<not> worker_event (Latest obs)" "\<not> worker_event (Next previous obs)"
  by (simp_all add: worker_event_def)

lemma publish_worker [simp]: "worker (publish r s) = worker s" "stopping (publish r s) = stopping s"
  by (cases r; simp add: publish_def Let_def)+

lemma stopping_step:
  assumes "sampler_step coll s e s'" "stopping s"
  shows "stopping s' \<and>
    worker_steps_left (worker s') + (if worker_event e then 1 else 0) = worker_steps_left (worker s)"
  using assms by cases auto

lemma stopping_run:
  "sampler_run coll s tr s' \<Longrightarrow> stopping s \<Longrightarrow>
   stopping s' \<and> worker_steps_left (worker s') + length (filter worker_event tr) = worker_steps_left (worker s)"
proof (induction rule: sampler_run.induct)
  case (run_step s tr s' e s'')
  then show ?case using stopping_step [of coll s' e s''] by auto
qed simp

lemma worker_steps_left_le: "worker_steps_left w \<le> 3"
  by (cases w) simp_all

text \<open>The one content of \<open>/proc/uptime\<close> for which the collector has no defined result.\<close>

definition uptime_overflows :: "file_reader \<Rightarrow> bool" where
  "uptime_overflows files \<longleftrightarrow>
     (\<exists>contents rest. files ''/proc/uptime'' = Inr contents \<and> read_double contents = Some (Fin 18446744073709551616, rest))"

lemma collect_returns: "\<not> uptime_overflows files \<Longrightarrow> \<exists>c r. collect files st = Some (c, r)"
  using collect_undefined_iff [of files st] by (cases "collect files st") (auto simp: uptime_overflows_def)

text \<open>
  C16. Once the destructor has set \<open>stopping_\<close>, the worker takes at most three more steps, so that
  the join returns: it finishes at most the sample that it is in.  An exited worker takes no step,
  and any other has one to take, whatever the files hold at that moment (except an uptime of
  \<open>2^64\<close> seconds, for which the collector's cast is undefined).
\<close>

theorem sampler_stops:
  assumes "sampler_run collect s tr s'" "stopping s"
  shows "length (filter worker_event tr) \<le> 3 \<and>
    (worker s' = Exited \<longrightarrow> \<not> (\<exists>e s''. worker_event e \<and> sampler_step collect s' e s'')) \<and>
    (worker s' \<noteq> Exited \<longrightarrow> (\<forall>files. \<not> uptime_overflows files \<longrightarrow>
       (\<exists>e s''. worker_event e \<and> (\<forall>f. e = Collected f \<longrightarrow> f = files) \<and> sampler_step collect s' e s'')))"
proof (intro conjI impI allI)
  show "length (filter worker_event tr) \<le> 3"
    using stopping_run [OF assms] worker_steps_left_le [of "worker s"] by linarith
  show "\<not> (\<exists>e s''. worker_event e \<and> sampler_step collect s' e s'')" if "worker s' = Exited"
    using that by (auto elim!: step_cases)
  fix files
  assume running: "worker s' \<noteq> Exited" and files: "\<not> uptime_overflows files"
  have stop: "stopping s'"
    using stopping_run [OF assms] by simp
  show "\<exists>e s''. worker_event e \<and> (\<forall>f. e = Collected f \<longrightarrow> f = files) \<and> sampler_step collect s' e s''"
  proof (cases "worker s'")
    case Waiting
    show ?thesis
      using worker_exit [OF Waiting stop] by (intro exI [of _ WorkerExit]) auto
  next
    case Collecting
    then show ?thesis
      using collected [OF Collecting, of collect] collect_returns [OF files, of "collector s'"]
      by (intro exI [of _ "Collected files"]) (simp, blast)
  next
    case (Publishing r)
    show ?thesis
      using published [OF Publishing] by (intro exI [of _ Published]) auto
  qed (use running in simp)
qed

section \<open>Concrete runs\<close>

lemma run_one: "sampler_step coll s e s' \<Longrightarrow> sampler_run coll s [e] s'"
  using run_step [OF run_Nil, of coll s e s'] by simp

lemma run_two: "sampler_step coll s e s' \<Longrightarrow> sampler_step coll s' e' s'' \<Longrightarrow> sampler_run coll s [e, e'] s''"
  using run_step [OF run_one, of coll s e s' e' s''] by simp

lemma first_sample: "\<exists>s. new_sampler collect (\<lambda>_. Inl ENOENT) sample_files = Some s"
proof -
  have "new_system_collector (\<lambda>_. Inl ENOENT) = sample_collector"
    by (simp add: new_system_collector_def read_cpu_times_def sample_collector_def)
  then show ?thesis
    using sample_collect by (auto simp: new_sampler_def)
qed

theorem sampler_observations_witness:
  "\<exists>s. sampler_run collect s [Latest (get_latest s)] s \<and> fst (get_latest s) = 1"
proof -
  obtain s where s: "new_sampler collect (\<lambda>_. Inl ENOENT) sample_files = Some s"
    using first_sample by blast
  have run: "sampler_run collect s [Latest (get_latest s)] s"
    by (rule run_one) (rule latest)
  have "fst (get_latest s) = 1"
    using sampler_observations [OF s, of "[]" "Latest (get_latest s)" s "fst (get_latest s)" "snd (get_latest s)" 0] run
    by simp
  with run show ?thesis by blast
qed

definition idle_sampler :: sampler where
  "idle_sampler = \<lparr> latest_metrics = empty_metrics, latest_error = [], generation = 4, has_snapshot = True,
     stopping = False, collector = sample_collector, worker = Collecting \<rparr>"

theorem wait_for_next_fresh_witness:
  "sampler_step collect idle_sampler (Next 3 (4, Inr empty_metrics)) idle_sampler \<and> (3 :: u64) < 4"
proof -
  have step: "sampler_step collect idle_sampler (Next 3 (4, Inr empty_metrics)) idle_sampler"
    by (simp add: next_simps wait_ready_def wait_result_def latest_result_def idle_sampler_def)
  then show ?thesis using wait_for_next_fresh [OF step] by simp
qed

theorem sampler_stops_witness:
  "\<exists>s'. sampler_run collect (idle_sampler \<lparr> stopping := True \<rparr>) [Collected sample_files, Published] s' \<and>
     worker s' \<noteq> Exited \<and> (\<exists>e s''. worker_event e \<and> sampler_step collect s' e s'')"
proof -
  let ?s = "idle_sampler \<lparr> stopping := True \<rparr>"
  obtain c m where sample: "collect sample_files sample_collector = Some (c, Inr m)"
    using sample_collect by blast
  let ?t = "?s \<lparr> collector := c, worker := Publishing (Inr m) \<rparr>"
  let ?u = "(publish (Inr m) ?t) \<lparr> worker := Waiting \<rparr>"
  have "sampler_step collect ?s (Collected sample_files) ?t"
    by (rule collected) (simp_all add: idle_sampler_def sample)
  moreover have "sampler_step collect ?t Published ?u"
    by (rule published) simp
  ultimately have run: "sampler_run collect ?s [Collected sample_files, Published] ?u"
    by (rule run_two)
  have uptime: "read_double ''0 0'' = Some (Fin 0, '' 0'')"
    by code_simp
  have "\<not> uptime_overflows sample_files"
    using uptime by (simp add: uptime_overflows_def sample_files_def)
  moreover have "stopping ?s" "worker ?u \<noteq> Exited"
    by simp_all
  ultimately have "\<exists>e s''. worker_event e \<and> sampler_step collect ?u e s''"
    using sampler_stops [OF run] by blast
  then show ?thesis
    using run by (intro exI [of _ ?u]) simp
qed

end
