(* ===== verification/Agent_Service.thy ===== *)
theory Agent_Service
  imports Rpc_Messages Agent_Config Metrics_Sampler
begin

text \<open>
  \<open>agent/src/EdgeScopeServiceImpl.cpp\<close>: the calls with one answer.  A handler returns its answer
  along with what it does to the system and the lines that it writes to the Agent's log.  The
  streams are in the theories \<open>Stream_Log\<close>, \<open>Stream_Metrics\<close> and \<open>Bundle_Download\<close>.
\<close>

section \<open>The service\<close>

record agent_service =
  as_sampler :: sampler
  as_logs :: "allowed_log list"
  as_diagnostics :: diagnostic_collector
  as_allowed_services :: "string list"

definition new_agent_service ::
  "collect_op \<Rightarrow> file_reader \<Rightarrow> file_reader \<Rightarrow> agent_config \<Rightarrow> agent_service option" where
  "new_agent_service coll files0 files1 config =
     map_option
       (\<lambda>s. \<lparr> as_sampler = s, as_logs = allowed_logs (log_file config),
              as_diagnostics = new_diagnostic_collector (diagnostic_directory config),
              as_allowed_services = allowed_services config \<rparr>)
       (new_sampler coll files0 files1)"

datatype log_entry = LogInfo string | LogWarn string | LogError string

section \<open>The Agent itself\<close>

definition read_first_line :: "file_reader \<Rightarrow> path \<Rightarrow> string" where
  "read_first_line read_file p =
     (case read_file p of
        Inl _ \<Rightarrow> []
      | Inr contents \<Rightarrow>
          (case getline CHR 0x0A contents of
             None \<Rightarrow> []
           | Some (line, _) \<Rightarrow> rev (dropWhile (\<lambda>c. c = CHR 0x0A \<or> c = CHR 0x0D) (rev line))))"

definition get_hostname :: "(errno \<Rightarrow> string) \<Rightarrow> errno + string \<Rightarrow> string" where
  "get_hostname strerror result =
     (case result of
        Inl error_number \<Rightarrow> ''unknown ('' @ strerror error_number @ '')''
      | Inr name \<Rightarrow> name)"

definition get_kernel_version :: "file_reader \<Rightarrow> string" where
  "get_kernel_version read_file =
     (let version = read_first_line read_file ''/proc/sys/kernel/osrelease''
      in if version = [] then ''unknown'' else version)"

text \<open>The cast of the uptime is not checked: \<open>None\<close> where it is undefined.\<close>

definition get_uptime_seconds :: "file_reader \<Rightarrow> u64 option" where
  "get_uptime_seconds read_file =
     (let line = read_first_line read_file ''/proc/uptime'' in
      if line = [] then Some 0
      else
        (case read_double line of
           None \<Rightarrow> Some 0
         | Some (uptime, _) \<Rightarrow> trunc_u64 uptime))"

definition rpc_get_agent_info ::
  "(errno \<Rightarrow> string) \<Rightarrow> errno + string \<Rightarrow> file_reader \<Rightarrow> agent_info_msg answer option" where
  "rpc_get_agent_info strerror name read_file =
     map_option
       (\<lambda>uptime. Inr \<lparr> ai_hostname = get_hostname strerror name,
                       ai_kernel_version = get_kernel_version read_file,
                       ai_uptime_seconds = uptime, ai_agent_version = ''1.0.0'' \<rparr>)
       (get_uptime_seconds read_file)"

section \<open>Processes\<close>

definition rpc_list_processes ::
  "string + (string \<times> file_reader) list \<Rightarrow> int \<Rightarrow> process_msg list answer" where
  "rpc_list_processes directory ticks_per_second =
     (case list_processes directory ticks_per_second of
        Inl error \<Rightarrow> Inl (Internal, error)
      | Inr processes \<Rightarrow> Inr (map fill_process_info processes))"

definition rpc_get_process_details :: "file_reader \<Rightarrow> int \<Rightarrow> i32 \<Rightarrow> process_msg answer" where
  "rpc_get_process_details read_file ticks_per_second pid =
     (case get_process read_file ticks_per_second pid of
        Inl (error_code, error) \<Rightarrow> Inl (process_collector_status error_code error)
      | Inr process \<Rightarrow> Inr (fill_process_info process))"

text \<open>The numbers of the enumeration \<open>ProcessAction\<close> that stand for an action.\<close>

definition process_action_of :: "int \<Rightarrow> process_control_action option" where
  "process_action_of number =
     (if number = 1 then Some kTerminate else if number = 2 then Some kKill
      else if number = 3 then Some kStop else if number = 4 then Some kContinue else None)"

definition rpc_control_process ::
  "i32 \<Rightarrow> (signal_call \<Rightarrow> errno option) \<Rightarrow> i32 \<Rightarrow> int \<Rightarrow>
   signal_call list \<times> log_entry list \<times> unit answer" where
  "rpc_control_process self kill pid number =
     (case process_action_of number of
        None \<Rightarrow> ([], [], Inl (InvalidArgument, ''a supported process action is required''))
      | Some action \<Rightarrow>
          (case control self kill pid action of
             (calls, Inl (error_code, error)) \<Rightarrow>
               (calls, [LogWarn (''process control failed for pid '' @ show_int (sint pid) @ '': '' @ error)],
                Inl (process_control_status error_code error))
           | (calls, Inr _) \<Rightarrow>
               (calls, [LogInfo (''process control succeeded for pid '' @ show_int (sint pid))], Inr ())))"

section \<open>The network\<close>

definition rpc_get_network_interfaces ::
  "ntop \<Rightarrow> file_reader \<Rightarrow> string + ifaddrs list \<Rightarrow> interface_msg list answer" where
  "rpc_get_network_interfaces inet_ntop read_file getifaddrs =
     (case get_interfaces inet_ntop read_file getifaddrs of
        Inl error \<Rightarrow> Inl (Internal, error)
      | Inr interfaces \<Rightarrow> Inr (map fill_interface interfaces))"

definition rpc_list_tcp_connections ::
  "ntop \<Rightarrow> file_reader \<Rightarrow> (string \<times> string option list) list \<Rightarrow> connection_msg list answer" where
  "rpc_list_tcp_connections inet_ntop read_file proc_entries =
     (case list_tcp_connections inet_ntop read_file proc_entries of
        Inl error \<Rightarrow> Inl (Internal, error)
      | Inr connections \<Rightarrow> Inr (map fill_connection connections))"

section \<open>Logs\<close>

definition rpc_list_logs :: "(path \<Rightarrow> bool) \<Rightarrow> agent_service \<Rightarrow> log_source_msg list answer" where
  "rpc_list_logs is_regular_file srv = Inr (map fill_log_source (list_logs is_regular_file (as_logs srv)))"

definition rpc_read_log ::
  "(path \<Rightarrow> errno + log_file) \<Rightarrow> agent_service \<Rightarrow> string \<Rightarrow> u32 \<Rightarrow> string \<Rightarrow> path list \<times> log_content_msg answer" where
  "rpc_read_log open_file srv log_id max_lines keyword =
     (case read_log (as_logs srv) open_file log_id max_lines keyword of
        (opened, Inl (error_code, error)) \<Rightarrow> (opened, Inl (log_status error_code error))
      | (opened, Inr result) \<Rightarrow>
          (opened, Inr \<lparr> lc_lines = log_lines result, lc_truncated = log_truncated result \<rparr>))"

section \<open>Services\<close>

definition rpc_list_services ::
  "runner \<Rightarrow> agent_service \<Rightarrow> command list \<times> log_entry list \<times> service_msg list answer" where
  "rpc_list_services run srv =
     (case list_services run (as_allowed_services srv) of
        (commands, Inl error) \<Rightarrow> (commands, [LogError (''failed to list services: '' @ error)], Inl (Internal, error))
      | (commands, Inr services) \<Rightarrow> (commands, [], Inr (map fill_service services)))"

definition service_action_of :: "int \<Rightarrow> service_action option" where
  "service_action_of number =
     (if number = 1 then Some SvcStart else if number = 2 then Some SvcStop
      else if number = 3 then Some SvcRestart else None)"

definition rpc_control_service ::
  "runner \<Rightarrow> agent_service \<Rightarrow> string \<Rightarrow> int \<Rightarrow> command list \<times> log_entry list \<times> unit answer" where
  "rpc_control_service run srv name number =
     (case service_action_of number of
        None \<Rightarrow> ([], [], Inl (InvalidArgument, ''a supported service action is required''))
      | Some action \<Rightarrow>
          (case control_service run (as_allowed_services srv) name action of
             (commands, Inl (error_code, error)) \<Rightarrow>
               (commands, [LogWarn (''service control failed for '' @ name @ '': '' @ error)],
                Inl (service_status error_code error))
           | (commands, Inr _) \<Rightarrow>
               (commands, [LogInfo (''service control succeeded for '' @ name)], Inr ())))"

section \<open>Metrics and bundles\<close>

definition rpc_get_system_metrics :: "agent_service \<Rightarrow> metrics_msg answer" where
  "rpc_get_system_metrics srv =
     (case get_latest (as_sampler srv) of
        (_, Inl error) \<Rightarrow> Inl (Internal, error)
      | (_, Inr metrics) \<Rightarrow> Inr (fill_system_metrics_response metrics))"

definition rpc_create_diagnostic_bundle ::
  "tar_gzip \<Rightarrow> faults \<Rightarrow> bundle_inputs \<Rightarrow> sources \<Rightarrow> agent_service \<Rightarrow> world \<Rightarrow>
   bundle_msg answer \<times> log_entry list \<times> agent_service \<times> world" where
  "rpc_create_diagnostic_bundle tar faults inp s srv w =
     (case get_latest (as_sampler srv) of
        (_, Inl error) \<Rightarrow> (Inl (Internal, error), [], srv, w)
      | (_, Inr metrics) \<Rightarrow>
          (case create_bundle tar faults inp s metrics (as_diagnostics srv) w of
             (Inl error, st, w) \<Rightarrow>
               (Inl (Internal, error), [LogError (''failed to create diagnostic bundle: '' @ error)],
                srv \<lparr> as_diagnostics := st \<rparr>, w)
           | (Inr bundle, st, w) \<Rightarrow>
               (Inr (fill_bundle bundle),
                [LogInfo (''created diagnostic bundle '' @ db_id bundle @ '' ('' @
                   show_u64 (db_size_bytes bundle) @ '' bytes)'')],
                srv \<lparr> as_diagnostics := st \<rparr>, w)))"

section \<open>Properties\<close>

lemma process_action_range: "process_action_of number = Some action \<Longrightarrow> 1 \<le> number \<and> number \<le> 4"
  by (auto simp: process_action_of_def split: if_splits)

text \<open>The text of a log entry and its level.\<close>

definition is_info :: "log_entry \<Rightarrow> bool" where
  "is_info entry \<longleftrightarrow> (case entry of LogInfo _ \<Rightarrow> True | _ \<Rightarrow> False)"

lemma is_info_simps [simp]: "is_info (LogInfo m)" "\<not> is_info (LogWarn m)" "\<not> is_info (LogError m)"
  by (simp_all add: is_info_def)

text \<open>
  C23.  The remote call that controls a process: whatever numbers the request carries, at most one
  signal is sent, to that process, and only for one of the four action numbers; a signal never
  goes unrecorded in the Agent's log, and the record and the answer both tell a success exactly
  when the system accepted the signal.
\<close>

theorem rpc_control_process_audited:
  "case rpc_control_process self kill pid number of
     (calls, entries, answer) \<Rightarrow>
       (\<forall>call \<in> set calls. fst call = pid \<and> permitted_call self call) \<and> length calls \<le> 1 \<and>
       (calls \<noteq> [] \<longrightarrow> 1 \<le> number \<and> number \<le> 4 \<and> (\<exists>entry. entries = [entry])) \<and>
       (is_ok answer \<longleftrightarrow> (\<exists>call. calls = [call] \<and> kill call = None)) \<and>
       (is_ok answer \<longleftrightarrow> (\<exists>entry. entries = [entry] \<and> is_info entry)) \<and>
       (\<forall>st. answer = Inl st \<longrightarrow> \<not> status_ok st \<and> snd st \<noteq> [])"
  using signal_of_range process_action_range
  by (auto simp: rpc_control_process_def control_def control_failure_def permitted_call_def status_ok_def
      split: option.splits prod.splits sum.splits if_splits)

lemma rpc_control_process_audited_witness:
  "\<exists>entry. rpc_control_process 77 (\<lambda>_. None) 300 3 = ([(300, SIGSTOP)], [entry], Inr ()) \<and> is_info entry"
  using rpc_control_process_audited [where self = 77 and kill = "\<lambda>_. None" and pid = 300 and number = 3]
  by (simp add: rpc_control_process_def control_def process_action_of_def)

end
