(* ===== verification/Agent_Main.thy ===== *)
theory Agent_Main
  imports Agent_Service
begin

text \<open>
  \<open>agent/src/main.cpp\<close>: the Agent's program.  Its environment are parameters: whether the signals
  can be blocked, the configuration files, the error of the logger for a path, whether a server
  can be started on an address, and the signal that ends it.  A run gives what goes to the standard
  error output and to the log, the configuration that was served, if one was, and the exit code.
\<close>

section \<open>The program\<close>

record agent_run =
  ar_stderr :: "string list"
  ar_log :: "log_entry list"
  ar_served :: "agent_config option"
  ar_exit :: nat

definition agent_config_of ::
  "string \<Rightarrow> string list \<Rightarrow> (path \<Rightarrow> string option) \<Rightarrow> string + agent_config" where
  "agent_config_of program arguments config_files =
     (case arguments of
        [] \<Rightarrow> Inr default_config
      | [flag, p] \<Rightarrow>
          if flag = ''--config''
          then (case load_config p (config_files p) default_config [] of
                  (True, config, _) \<Rightarrow> Inr config
                | (False, _, error) \<Rightarrow> Inl (''Failed to load Agent config: '' @ error))
          else Inl (''Usage: '' @ program @ '' [--config FILE]'')
      | _ \<Rightarrow> Inl (''Usage: '' @ program @ '' [--config FILE]''))"

definition agent_main ::
  "bool \<Rightarrow> string \<Rightarrow> string list \<Rightarrow> (path \<Rightarrow> string option) \<Rightarrow> (path \<Rightarrow> string option) \<Rightarrow> (string \<Rightarrow> bool) \<Rightarrow> int \<Rightarrow>
   agent_run" where
  "agent_main mask_ok program arguments config_files logger_error starts received_signal =
     (if \<not> mask_ok
      then \<lparr> ar_stderr = [''Failed to configure shutdown signal handling''], ar_log = [], ar_served = None, ar_exit = 1 \<rparr>
      else
        (case agent_config_of program arguments config_files of
           Inl error \<Rightarrow> \<lparr> ar_stderr = [error], ar_log = [], ar_served = None, ar_exit = 1 \<rparr>
         | Inr config \<Rightarrow>
             (case logger_error (log_file config) of
                Some error \<Rightarrow>
                  \<lparr> ar_stderr = [''Failed to initialize Agent logging: '' @ error], ar_log = [], ar_served = None,
                    ar_exit = 1 \<rparr>
              | None \<Rightarrow>
                  if \<not> starts (listen_address config)
                  then \<lparr> ar_stderr = [], ar_log = [LogError (''failed to start Agent on '' @ listen_address config)],
                         ar_served = None, ar_exit = 1 \<rparr>
                  else \<lparr> ar_stderr = [],
                         ar_log = [LogInfo (''EdgeScope Agent 1.0.0 listening on '' @ listen_address config),
                                   LogInfo (''shutdown signal received: '' @ show_int received_signal),
                                   LogInfo ''EdgeScope Agent stopped''],
                         ar_served = Some config, ar_exit = 0 \<rparr>)))"

section \<open>Properties\<close>

lemma load_config_ok: "load_config p input default_config [] = (True, config, e) \<Longrightarrow> config_ok config"
  using load_lines_ok [OF config_ok_default]
  by (auto simp: load_config_def split: option.splits sum.splits)

text \<open>
  C40.  The Agent never serves a configuration that has not passed all checks: a run that serves
  ends with exit code 0, the sampler interval of its configuration is at least 100 ms, so that no
  stream of metrics divides by zero, the server could be started at its address, and all the names
  of services that clients can control are valid.  Any other run ends with exit code 1 and a message.
\<close>

theorem agent_main_serves_valid:
  "let run = agent_main mask_ok program arguments config_files logger_error starts received_signal in
   (case ar_served run of
      Some config \<Rightarrow>
        ar_exit run = 0 \<and> config_ok config \<and> 100 \<le> unat (sample_interval config) \<and> starts (listen_address config) \<and>
        list_all is_valid_service_name (allowed_services config)
    | None \<Rightarrow> ar_exit run = 1 \<and> (ar_stderr run \<noteq> [] \<or> ar_log run \<noteq> []))"
proof -
  have ok: "config_ok config" if "agent_config_of program arguments config_files = Inr config" for config
    using that load_config_ok config_ok_default
    by (auto simp: agent_config_of_def split: list.splits if_splits prod.splits bool.splits)
  then have "100 \<le> unat (sample_interval config) \<and> list_all is_valid_service_name (allowed_services config)"
    if "agent_config_of program arguments config_files = Inr config" for config
    using that by (auto simp: config_ok_def word_le_nat_alt)
  with ok show ?thesis
    by (simp add: agent_main_def Let_def split: sum.split option.split)
qed

lemma agent_main_serves_valid_witness:
  "ar_served (agent_main True ''agent'' [] (\<lambda>_. None) (\<lambda>_. None) (\<lambda>_. True) 15) = Some default_config \<and>
   config_ok default_config"
  using agent_main_serves_valid [of True "''agent''" "[]" "\<lambda>_. None" "\<lambda>_. None" "\<lambda>_. True" 15]
  by (simp add: agent_main_def agent_config_of_def)

end
