(* ===== verification/Stream_Log.thy ===== *)
theory Stream_Log
  imports Rpc_Messages
begin

text \<open>
  \<open>EdgeScopeServiceImpl::StreamLog\<close>: following a log.  A pass of the loop sees the file system
  twice, once with \<open>stat\<close> and once, when there is something new, through the opened file; what it
  sees is a \<open>poll\<close>.  The stream's state between two passes is the file it follows (its inode), the
  offset up to which it has read, and the end of the text read that is not yet a whole line.
  Sizes and offsets are those of files, below \<open>2 ^ 63\<close>, so that no sum of them wraps around.
\<close>

section \<open>State and operations\<close>

abbreviation stream_read_size :: nat where "stream_read_size \<equiv> 65536"

record log_stream =
  st_inode :: nat
  st_offset :: nat
  st_partial :: string

record poll =
  pl_cancelled :: bool
  pl_stat :: "(nat \<times> nat) option" \<comment> \<open>inode and size, \<open>None\<close> where \<open>stat\<close> fails\<close>
  pl_content :: "string option" \<comment> \<open>the opened file, \<open>None\<close> where it cannot be opened\<close>

text \<open>
  The loop over the whole lines.  \<open>accepts n\<close> tells whether the \<open>n\<close>th message of the stream can be
  written; a message that cannot ends the call (\<open>None\<close>).  The result is the lines sent and the
  rest of the text.
\<close>

function send_lines :: "string \<Rightarrow> (nat \<Rightarrow> bool) \<Rightarrow> nat \<Rightarrow> string \<Rightarrow> string list \<times> string option" where
  "send_lines keyword accepts sent partial_line =
     (case find_char CHR 0x0A partial_line of
        None \<Rightarrow> ([], Some partial_line)
      | Some k \<Rightarrow>
          (let line = take maximum_line_length (drop_carriage_return (take k partial_line));
               partial_line = drop (k + 1) partial_line
           in if keyword \<noteq> [] \<and> \<not> contains line keyword
              then send_lines keyword accepts sent partial_line
              else if accepts sent
              then (case send_lines keyword accepts (sent + 1) partial_line of
                      (lines, rest) \<Rightarrow> (sanitize_utf8 line # lines, rest))
              else ([], None)))"
  by pat_completeness auto
termination
  by (relation "measure (\<lambda>(_, _, _, s). length s)") (auto simp: find_char_Some)

declare send_lines.simps [simp del]

definition read_at :: "nat \<Rightarrow> string option \<Rightarrow> string" where
  "read_at offset content =
     (case content of None \<Rightarrow> [] | Some text_read \<Rightarrow> take stream_read_size (drop offset text_read))"

text \<open>The file has been replaced or has become shorter: the stream starts again.\<close>

definition check_rotation :: "nat \<Rightarrow> nat \<Rightarrow> log_stream \<Rightarrow> log_stream" where
  "check_rotation ino sz st =
     (if ino \<noteq> st_inode st \<or> sz < st_offset st
      then \<lparr> st_inode = ino, st_offset = 0, st_partial = [] \<rparr> else st)"

definition keep_tail :: "string \<Rightarrow> string" where
  "keep_tail partial_line =
     (if length partial_line > maximum_line_length
      then drop (length partial_line - maximum_line_length) partial_line else partial_line)"

text \<open>One pass of the loop: the lines sent and the next state, \<open>None\<close> where the call is over.\<close>

definition poll_step ::
  "string \<Rightarrow> (nat \<Rightarrow> bool) \<Rightarrow> nat \<Rightarrow> log_stream \<Rightarrow> poll \<Rightarrow> string list \<times> log_stream option" where
  "poll_step keyword accepts sent st p =
     (if pl_cancelled p then ([], None)
      else
        (case pl_stat p of
           None \<Rightarrow> ([], Some st)
         | Some (ino, sz) \<Rightarrow>
             (let st = check_rotation ino sz st in
              if sz > st_offset st then
                (let appended = read_at (st_offset st) (pl_content p);
                     st = st \<lparr> st_offset := st_offset st + length appended \<rparr>
                 in case send_lines keyword accepts sent (st_partial st @ appended) of
                      (lines, None) \<Rightarrow> (lines, None)
                    | (lines, Some partial_line) \<Rightarrow>
                        (lines, Some (st \<lparr> st_partial := keep_tail partial_line \<rparr>)))
              else ([], Some st))))"

fun stream_loop ::
  "string \<Rightarrow> (nat \<Rightarrow> bool) \<Rightarrow> nat \<Rightarrow> log_stream \<Rightarrow> poll list \<Rightarrow> string list \<times> log_stream option" where
  "stream_loop keyword accepts sent st [] = ([], Some st)"
| "stream_loop keyword accepts sent st (p # ps) =
     (case poll_step keyword accepts sent st p of
        (lines, None) \<Rightarrow> (lines, None)
      | (lines, Some st) \<Rightarrow>
          (case stream_loop keyword accepts (sent + length lines) st ps of
             (later, end_state) \<Rightarrow> (lines @ later, end_state)))"

text \<open>
  The call: the files that it looks at and reads, and its outcome, a failure before the stream
  starts, or the stream after some passes: the lines sent and its state, \<open>None\<close> where the call has
  returned \<open>OK\<close>.
\<close>

definition start_offset :: "bool \<Rightarrow> nat \<Rightarrow> nat" where
  "start_offset start_at_end initial_size =
     (if start_at_end then initial_size
      else if initial_size > stream_read_size then initial_size - stream_read_size else 0)"

definition stream_log_call ::
  "allowed_log list \<Rightarrow> (path \<Rightarrow> (nat \<times> nat) option) \<Rightarrow> (nat \<Rightarrow> bool) \<Rightarrow> string \<Rightarrow> string \<Rightarrow> bool \<Rightarrow> poll list \<Rightarrow>
   path list \<times> (string list \<times> log_stream option) answer" where
  "stream_log_call logs stat_of accepts log_id keyword start_at_end polls =
     (if length keyword > maximum_keyword_length then ([], Inl (InvalidArgument, ''keyword is too long''))
      else
        (case resolve_log_path logs log_id of
           Inl (error_code, error) \<Rightarrow> ([], Inl (log_status error_code error))
         | Inr p \<Rightarrow>
             ([p],
              (case stat_of p of
                 None \<Rightarrow> Inl (NotFound, ''log file is not available'')
               | Some (ino, sz) \<Rightarrow>
                   Inr (stream_loop keyword accepts 0
                     \<lparr> st_inode = ino, st_offset = start_offset start_at_end sz, st_partial = [] \<rparr> polls)))))"

definition rpc_stream_log ::
  "allowed_log list \<Rightarrow> (path \<Rightarrow> (nat \<times> nat) option) \<Rightarrow> (nat \<Rightarrow> bool) \<Rightarrow> string \<Rightarrow> string \<Rightarrow> bool \<Rightarrow> poll list \<Rightarrow>
   (string list \<times> log_stream option) answer" where
  "rpc_stream_log logs stat_of accepts log_id keyword start_at_end polls =
     snd (stream_log_call logs stat_of accepts log_id keyword start_at_end polls)"

lemmas rpc_stream_log_defs = rpc_stream_log_def stream_log_call_def

section \<open>The lines of a text that is still growing\<close>

text \<open>The lines that are complete, and what comes after the last newline.\<close>

fun split_text :: "string \<Rightarrow> string \<Rightarrow> string list \<times> string" where
  "split_text acc [] = ([], acc)"
| "split_text acc (c # s) =
     (if c = CHR 0x0A then (case split_text [] s of (ls, r) \<Rightarrow> (acc # ls, r))
      else split_text (acc @ [c]) s)"

definition complete_lines :: "string \<Rightarrow> string list" where
  "complete_lines s = fst (split_text [] s)"

definition unfinished :: "string \<Rightarrow> string" where
  "unfinished s = snd (split_text [] s)"

lemma split_text_append:
  "split_text acc (a @ b) =
     (fst (split_text acc a) @ fst (split_text (snd (split_text acc a)) b), snd (split_text (snd (split_text acc a)) b))"
  by (induction acc a rule: split_text.induct) (auto split: prod.split)

lemma split_text_plain: "CHR 0x0A \<notin> set a \<Longrightarrow> split_text acc (a @ b) = split_text (acc @ a) b"
  by (induction a arbitrary: acc) auto

lemma split_text_rest: "CHR 0x0A \<notin> set acc \<Longrightarrow> CHR 0x0A \<notin> set (snd (split_text acc s))"
  by (induction acc s rule: split_text.induct) (auto split: prod.split)

lemma split_text_unfinished: "split_text [] (unfinished a @ b) = split_text (unfinished a) b"
  using split_text_plain [of "unfinished a" "[]" b] split_text_rest [of "[]" a] by (simp add: unfinished_def)

lemma complete_lines_append: "complete_lines (a @ b) = complete_lines a @ complete_lines (unfinished a @ b)"
  unfolding complete_lines_def split_text_unfinished unfolding unfinished_def by (simp add: split_text_append [of _ a])

lemma unfinished_append: "unfinished (a @ b) = unfinished (unfinished a @ b)"
  unfolding unfinished_def [of "_ @ _"] split_text_unfinished unfolding unfinished_def by (simp add: split_text_append [of _ a])

lemma complete_lines_plain [simp]: "CHR 0x0A \<notin> set s \<Longrightarrow> complete_lines s = []"
  using split_text_plain [of s "[]" "[]"] by (simp add: complete_lines_def)

lemma unfinished_plain [simp]: "CHR 0x0A \<notin> set s \<Longrightarrow> unfinished s = s"
  using split_text_plain [of s "[]" "[]"] by (simp add: unfinished_def)

lemma complete_lines_line [simp]: "CHR 0x0A \<notin> set l \<Longrightarrow> complete_lines (l @ CHR 0x0A # r) = l # complete_lines r"
  using split_text_plain [of l "[]" "CHR 0x0A # r"] by (simp add: complete_lines_def split: prod.split)

lemma unfinished_line [simp]: "CHR 0x0A \<notin> set l \<Longrightarrow> unfinished (l @ CHR 0x0A # r) = unfinished r"
  using split_text_plain [of l "[]" "CHR 0x0A # r"] by (simp add: unfinished_def split: prod.split)

text \<open>The unfinished part is free of newlines and ends the text.\<close>

lemma unfinished_no_newline: "CHR 0x0A \<notin> set (unfinished s)"
  using split_text_rest [of "[]" s] by (simp add: unfinished_def)

lemma text_induct [case_names plain line]:
  assumes "\<And>s. CHR 0x0A \<notin> set s \<Longrightarrow> P s"
    and "\<And>l r. CHR 0x0A \<notin> set l \<Longrightarrow> P r \<Longrightarrow> P (l @ CHR 0x0A # r)"
  shows "P s"
proof (induction "length s" arbitrary: s rule: less_induct)
  case less
  show ?case
  proof (cases "CHR 0x0A \<in> set s")
    case True
    then obtain l r where s: "s = l @ CHR 0x0A # r" "CHR 0x0A \<notin> set l"
      using split_list_first by metis
    then show ?thesis
      using assms(2) less [of r] by simp
  qed (rule assms(1))
qed

lemma unfinished_suffix: "suffix (unfinished s) s"
proof (induction s rule: text_induct)
  case (line l r)
  have "suffix r (l @ CHR 0x0A # r)"
    by (rule suffixI [of _ "l @ [CHR 0x0A]"]) simp
  with line show ?case
    by (simp add: suffix_order.trans)
qed simp

text \<open>What a client should see of a text.\<close>

definition stream_wanted :: "string \<Rightarrow> string \<Rightarrow> bool" where
  "stream_wanted keyword raw \<longleftrightarrow>
     keyword = [] \<or> contains (take maximum_line_length (drop_carriage_return raw)) keyword"

definition stream_view :: "string \<Rightarrow> string \<Rightarrow> string list" where
  "stream_view keyword s = map shown_line (filter (stream_wanted keyword) (complete_lines s))"

lemma stream_view_append: "stream_view keyword (a @ b) = stream_view keyword a @ stream_view keyword (unfinished a @ b)"
  by (simp add: stream_view_def complete_lines_append [of a b])

lemma send_lines_plain: "CHR 0x0A \<notin> set s \<Longrightarrow> send_lines keyword accepts sent s = ([], Some s)"
  by (subst send_lines.simps) (simp add: find_char_None [THEN iffD2])

lemma send_lines_line:
  "CHR 0x0A \<notin> set l \<Longrightarrow> send_lines keyword accepts sent (l @ CHR 0x0A # r) =
     (if \<not> stream_wanted keyword l then send_lines keyword accepts sent r
      else if accepts sent
      then (case send_lines keyword accepts (sent + 1) r of (lines, rest) \<Rightarrow> (shown_line l # lines, rest))
      else ([], None))"
  by (subst send_lines.simps) (simp add: find_char_append stream_wanted_def shown_line_def Let_def)

lemma send_lines_all:
  "\<forall>n. accepts n \<Longrightarrow> send_lines keyword accepts sent s = (stream_view keyword s, Some (unfinished s))"
proof (induction s arbitrary: sent rule: text_induct)
  case (plain s)
  then show ?case by (simp add: send_lines_plain stream_view_def)
next
  case (line l r)
  then show ?case by (simp add: send_lines_line stream_view_def)
qed

section \<open>Files with short lines\<close>

definition short_lines :: "string \<Rightarrow> bool" where
  "short_lines s \<longleftrightarrow>
     list_all (\<lambda>l. length l \<le> maximum_line_length) (complete_lines s) \<and> length (unfinished s) \<le> maximum_line_length"

lemma short_lines_line [simp]: "CHR 0x0A \<notin> set l \<Longrightarrow>
    short_lines (l @ CHR 0x0A # r) \<longleftrightarrow> length l \<le> maximum_line_length \<and> short_lines r"
  by (simp add: short_lines_def)

lemma short_part:
  "short_lines s \<Longrightarrow> s = x @ u @ y \<Longrightarrow> CHR 0x0A \<notin> set u \<Longrightarrow> length u \<le> maximum_line_length"
proof (induction s arbitrary: x rule: text_induct)
  case (plain s)
  then show ?case by (simp add: short_lines_def)
next
  case (line l r)
  have eq: "l @ CHR 0x0A # r = x @ u @ y"
    using line.prems(2) by simp
  then consider us where "x = l @ us" "CHR 0x0A # r = us @ u @ y" | us where "l = x @ us" "us @ CHR 0x0A # r = u @ y"
    using append_eq_append_conv2 [THEN iffD1, OF eq] by blast
  then show ?case
  proof cases
    case (1 us)
    show ?thesis
    proof (cases us)
      case Nil
      then have "u = []"
        using 1(2) line.prems(3) by (cases u) auto
      then show ?thesis by simp
    next
      case (Cons a us')
      then have "r = us' @ u @ y"
        using 1(2) by simp
      then show ?thesis
        using line.IH [of us'] line.prems(1,3) line.hyps by simp
    qed
  next
    case (2 us)
    then consider vs where "u = us @ vs" "CHR 0x0A # r = vs @ y" | vs where "us = u @ vs"
      using append_eq_append_conv2 [THEN iffD1, OF 2(2)] by blast
    then have "length u \<le> length us"
    proof cases
      case (1 vs)
      then have "vs = []"
        using line.prems(3) by (cases vs) auto
      with 1 show ?thesis by simp
    qed simp
    moreover have "length l \<le> maximum_line_length"
      using line.prems(1) line.hyps by simp
    ultimately show ?thesis
      using 2(1) by simp
  qed
qed

text \<open>Of such a file no part of a line is ever cut off.\<close>

lemma keep_tail_short:
  assumes "short_lines c"
  shows "keep_tail (unfinished (take k (drop start c))) = unfinished (take k (drop start c))"
proof -
  let ?t = "take k (drop start c)"
  obtain xs where t: "?t = xs @ unfinished ?t"
    using unfinished_suffix [of ?t] by (auto simp: suffix_def)
  have "c = take start c @ ?t @ drop k (drop start c)"
    by (simp only: append_take_drop_id)
  also have "?t = xs @ unfinished ?t"
    by (rule t)
  finally have "c = (take start c @ xs) @ unfinished ?t @ drop k (drop start c)"
    by simp
  from short_part [OF assms this unfinished_no_newline] show ?thesis
    by (simp add: keep_tail_def)
qed

section \<open>A file that grows\<close>

text \<open>
  What the stream sees of a file that is only appended to: at every pass the file has grown from
  \<open>c\<close>, and \<open>stat\<close> sees it no later than the read.
\<close>

fun growing :: "nat \<Rightarrow> string \<Rightarrow> poll list \<Rightarrow> bool" where
  "growing ino c [] = True"
| "growing ino c (p # ps) =
     (\<not> pl_cancelled p \<and>
      (case (pl_stat p, pl_content p) of
         (Some (i, sz), Some c') \<Rightarrow>
           i = ino \<and> prefix c c' \<and> length c \<le> sz \<and> sz \<le> length c' \<and> growing ino c' ps
       | _ \<Rightarrow> False))"

fun last_content :: "string \<Rightarrow> poll list \<Rightarrow> string" where
  "last_content c [] = c"
| "last_content c (p # ps) = last_content (case pl_content p of None \<Rightarrow> c | Some c' \<Rightarrow> c') ps"

lemma growing_prefix: "growing ino c ps \<Longrightarrow> prefix c (last_content c ps)"
proof (induction ps arbitrary: c)
  case (Cons p ps)
  then obtain c' where "pl_content p = Some c'" "prefix c c'" "growing ino c' ps"
    by (auto split: option.splits prod.splits)
  then show ?case
    using Cons.IH [of c'] by (auto intro: prefix_order.trans)
qed simp

text \<open>The state of the stream when it has consumed \<open>k\<close> bytes of the file after \<open>start\<close>.\<close>

definition followed :: "nat \<Rightarrow> nat \<Rightarrow> nat \<Rightarrow> string \<Rightarrow> log_stream" where
  "followed ino start k c =
     \<lparr> st_inode = ino, st_offset = start + k, st_partial = unfinished (take k (drop start c)) \<rparr>"

lemma take_prefix: "prefix c c' \<Longrightarrow> start + k \<le> length c \<Longrightarrow> take k (drop start c') = take k (drop start c)"
  by (auto simp: prefix_def)

text \<open>One pass consumes up to 64 KiB more.\<close>

lemma poll_step_growing:
  assumes "\<forall>n. accepts n" "short_lines c" "prefix c' c" "start + k \<le> length c'"
    and p: "\<not> pl_cancelled p" "pl_stat p = Some (ino, sz)" "pl_content p = Some c'"
    and sz: "start + k \<le> sz" "sz \<le> length c'"
    and k': "k' = (if sz > start + k then k + min stream_read_size (length c' - (start + k)) else k)"
  shows "poll_step keyword accepts sent (followed ino start k c) p =
      (stream_view keyword (unfinished (take k (drop start c)) @ take (k' - k) (drop (start + k) c)),
       Some (followed ino start k' c))"
    and "k \<le> k'" and "start + k' \<le> length c'"
proof -
  show "k \<le> k'" and bound: "start + k' \<le> length c'"
    using assms(4) sz by (auto simp: k')
  let ?t = "take k (drop start c)"
  show "poll_step keyword accepts sent (followed ino start k c) p =
      (stream_view keyword (unfinished ?t @ take (k' - k) (drop (start + k) c)), Some (followed ino start k' c))"
  proof (cases "sz > start + k")
    case True
    have read: "take stream_read_size (drop (start + k) c') = take (k' - k) (drop (start + k) c)"
    proof -
      have "take stream_read_size (drop (start + k) c') = take (k' - k) (drop (start + k) c')"
        using True by (auto simp: k' min_def)
      then show ?thesis
        using take_prefix [OF assms(3), of "start + k" "k' - k"] bound \<open>k \<le> k'\<close> by simp
    qed
    have len: "length (take (k' - k) (drop (start + k) c)) = k' - k"
      using bound \<open>k \<le> k'\<close> prefix_length_le [OF assms(3)] by simp
    have joined: "?t @ take (k' - k) (drop (start + k) c) = take k' (drop start c)"
      using \<open>k \<le> k'\<close> take_add [of k "k' - k" "drop start c"] by (simp add: add.commute)
    have rest: "keep_tail (unfinished (unfinished ?t @ take (k' - k) (drop (start + k) c))) = unfinished (take k' (drop start c))"
      by (simp only: unfinished_append [symmetric] joined keep_tail_short [OF assms(2)])
    show ?thesis
      using True p \<open>k \<le> k'\<close>
      by (simp add: poll_step_def check_rotation_def followed_def read_at_def read Let_def
          send_lines_all [OF assms(1)] rest len [unfolded length_take length_drop])
  next
    case False
    have "poll_step keyword accepts sent (followed ino start k c) p = ([], Some (followed ino start k c))"
      using False p sz by (simp add: poll_step_def check_rotation_def followed_def Let_def)
    moreover have "stream_view keyword (unfinished ?t) = []"
      by (simp add: stream_view_def unfinished_no_newline)
    ultimately show ?thesis
      using False by (simp add: k')
  qed
qed

text \<open>What has been sent is what the text that has been consumed shows.\<close>

lemma stream_view_consumed:
  "k \<le> k' \<Longrightarrow>
   stream_view keyword (take k (drop start c)) @
     stream_view keyword (unfinished (take k (drop start c)) @ take (k' - k) (drop (start + k) c)) =
   stream_view keyword (take k' (drop start c))"
  using take_add [of k "k' - k" "drop start c"]
  by (simp add: stream_view_append [symmetric] add.commute)

lemma stream_loop_growing:
  assumes "\<forall>n. accepts n" "growing ino c0 ps" "start + k \<le> length c0" "c = last_content c0 ps" "short_lines c"
  shows "\<exists>k' out. stream_loop keyword accepts sent (followed ino start k c) ps = (out, Some (followed ino start k' c)) \<and>
    stream_view keyword (take k (drop start c)) @ out = stream_view keyword (take k' (drop start c)) \<and>
    k \<le> k' \<and> start + k' \<le> length c"
  using assms(2-4)
proof (induction ps arbitrary: c0 k sent)
  case Nil
  then show ?case by (auto intro!: exI [of _ k])
next
  case (Cons p ps)
  obtain sz c' where p: "\<not> pl_cancelled p" "pl_stat p = Some (ino, sz)" "pl_content p = Some c'"
    and g: "prefix c0 c'" "length c0 \<le> sz" "sz \<le> length c'" "growing ino c' ps"
    using Cons.prems(1) by (auto split: option.splits prod.splits)
  have c: "c = last_content c' ps"
    using Cons.prems(3) by (simp add: p)
  have bounds: "start + k \<le> length c'" "start + k \<le> sz"
    using Cons.prems(2) g(2,3) by linarith+
  define k1 where "k1 = (if sz > start + k then k + min stream_read_size (length c' - (start + k)) else k)"
  have pre: "prefix c' c"
    using growing_prefix [OF g(4)] by (simp add: c)
  note step = poll_step_growing [OF assms(1,5) pre bounds(1) p bounds(2) g(3) k1_def]
  obtain k' out where rest:
    "stream_loop keyword accepts
       (sent + length (stream_view keyword (unfinished (take k (drop start c)) @ take (k1 - k) (drop (start + k) c))))
       (followed ino start k1 c) ps = (out, Some (followed ino start k' c))"
    "stream_view keyword (take k1 (drop start c)) @ out = stream_view keyword (take k' (drop start c))"
    "k1 \<le> k'" "start + k' \<le> length c"
    using Cons.IH [OF g(4) step(3) c] by metis
  show ?case
    using rest step(2) stream_view_consumed [OF step(2), of keyword start c]
    by (auto simp: step(1) append_assoc [symmetric] simp del: append_assoc)
qed

section \<open>The stream catches up\<close>

lemma stream_loop_append:
  "stream_loop keyword accepts sent st (ps @ qs) =
     (case stream_loop keyword accepts sent st ps of
        (out, None) \<Rightarrow> (out, None)
      | (out, Some st') \<Rightarrow>
          (case stream_loop keyword accepts (sent + length out) st' qs of (out', st'') \<Rightarrow> (out @ out', st'')))"
  by (induction ps arbitrary: sent st) (auto split: prod.split option.split simp: add.assoc)

text \<open>The file has come to rest with the content \<open>c\<close>.\<close>

definition resting :: "nat \<Rightarrow> string \<Rightarrow> poll \<Rightarrow> bool" where
  "resting ino c p \<longleftrightarrow> \<not> pl_cancelled p \<and> pl_stat p = Some (ino, length c) \<and> pl_content p = Some c"

lemma growing_resting: "list_all (resting ino c) qs \<Longrightarrow> growing ino c qs \<and> last_content c qs = c"
  by (induction qs) (simp_all add: resting_def)

lemma growing_append:
  "growing ino c (ps @ qs) \<longleftrightarrow> growing ino c ps \<and> growing ino (last_content c ps) qs"
  by (induction ps arbitrary: c) (auto split: option.splits prod.splits)

lemma last_content_append: "last_content c (ps @ qs) = last_content (last_content c ps) qs"
  by (induction ps arbitrary: c) auto

lemma stream_loop_resting:
  assumes "\<forall>n. accepts n" "short_lines c"
  shows "list_all (resting ino c) qs \<Longrightarrow> start + k \<le> length c \<Longrightarrow>
    \<exists>k' out. stream_loop keyword accepts sent (followed ino start k c) qs = (out, Some (followed ino start k' c)) \<and>
      k \<le> k' \<and> start + k' \<le> length c \<and> (start + k' = length c \<or> k + stream_read_size * length qs \<le> k')"
proof (induction qs arbitrary: k sent)
  case Nil
  then show ?case by (auto intro!: exI [of _ k])
next
  case (Cons p qs)
  define k1 where "k1 = (if length c > start + k then k + min stream_read_size (length c - (start + k)) else k)"
  have p: "\<not> pl_cancelled p" "pl_stat p = Some (ino, length c)" "pl_content p = Some c"
    using Cons.prems(1) by (simp_all add: resting_def)
  note step = poll_step_growing [OF assms prefix_order.refl Cons.prems(2) p Cons.prems(2) le_refl k1_def]
  obtain k' out where rest:
    "stream_loop keyword accepts
       (sent + length (stream_view keyword (unfinished (take k (drop start c)) @ take (k1 - k) (drop (start + k) c))))
       (followed ino start k1 c) qs = (out, Some (followed ino start k' c))"
    "k1 \<le> k'" "start + k' \<le> length c" "start + k' = length c \<or> k1 + stream_read_size * length qs \<le> k'"
    using Cons.IH [OF _ step(3)] Cons.prems(1) by auto metis
  have "start + k1 = length c \<or> k1 = k + stream_read_size"
    using Cons.prems(2) by (auto simp: k1_def min_def)
  then have progress: "start + k' = length c \<or> k + stream_read_size * length (p # qs) \<le> k'"
    using rest(2-4) by auto
  show ?case
    using rest(1,3) progress step(2) rest(2) by (auto simp: step(1))
qed

definition start_stream :: "nat \<Rightarrow> nat \<Rightarrow> log_stream" where
  "start_stream ino start = \<lparr> st_inode = ino, st_offset = start, st_partial = [] \<rparr>"

lemma followed_start: "followed ino start 0 c = start_stream ino start"
  by (simp add: followed_def start_stream_def)

text \<open>A file at rest is read to its end.\<close>

lemma stream_loop_catches_up:
  assumes "\<forall>n. accepts n" "growing ino c0 polls" "start \<le> length c0" "c = last_content c0 polls" "short_lines c"
    "list_all (resting ino c) quiet" "length c \<le> start + stream_read_size * length quiet"
  shows "stream_loop keyword accepts 0 (start_stream ino start) (polls @ quiet) =
    (stream_view keyword (drop start c), Some (followed ino start (length c - start) c))"
proof -
  have grows: "growing ino c0 (polls @ quiet)" "c = last_content c0 (polls @ quiet)"
    using growing_resting [OF assms(6)] assms(2,4) by (simp_all add: growing_append last_content_append)
  obtain k out where run: "stream_loop keyword accepts 0 (start_stream ino start) (polls @ quiet) =
      (out, Some (followed ino start k c))"
    and view: "out = stream_view keyword (take k (drop start c))" "start + k \<le> length c"
    using stream_loop_growing [OF assms(1) grows(1) _ grows(2) assms(5), where start = start and k = 0 and keyword = keyword and sent = 0] assms(3)
    by (auto simp: followed_start stream_view_def)
  obtain k1 out1 where first: "stream_loop keyword accepts 0 (start_stream ino start) polls =
      (out1, Some (followed ino start k1 c))" "start + k1 \<le> length c"
    using stream_loop_growing [OF assms(1,2) _ assms(4,5), where start = start and k = 0 and keyword = keyword and sent = 0] assms(3)
    by (auto simp: followed_start)
  obtain k2 out2 where "stream_loop keyword accepts (length out1) (followed ino start k1 c) quiet =
      (out2, Some (followed ino start k2 c))" "start + k2 = length c \<or> k1 + stream_read_size * length quiet \<le> k2"
    using stream_loop_resting [OF assms(1,5,6) first(2), of keyword "length out1"] by blast
  then have "k = k2" and "start + k2 = length c \<or> k1 + stream_read_size * length quiet \<le> k2"
    using run first(1) by (auto simp: stream_loop_append followed_def)
  then have "start + k = length c"
    using view(2) assms(7) by linarith
  then have "k = length c - start" "take k (drop start c) = drop start c"
    by simp_all
  then show ?thesis
    using run view(1) by simp
qed

section \<open>Properties\<close>

text \<open>
  C5.  Following a log that is only appended to, with lines of at most 4096 bytes: whatever the
  passes see of it as it grows, the lines sent are those of the file from the starting offset up
  to where the stream has read, each once and in order, filtered by the keyword, and nothing of
  the line that is still being written.
\<close>

theorem stream_log_exact:
  assumes "\<forall>n. accepts n" "growing ino c polls" "start \<le> length c" "short_lines (last_content c polls)"
  shows "\<exists>k. start + k \<le> length (last_content c polls) \<and>
    stream_loop keyword accepts 0 (start_stream ino start) polls =
      (stream_view keyword (take k (drop start (last_content c polls))),
       Some (followed ino start k (last_content c polls)))"
  using stream_loop_growing [OF assms(1,2) _ refl assms(4), where start = start and k = 0 and keyword = keyword and sent = 0] assms(3)
  by (auto simp: followed_start stream_view_def)

definition sample_poll :: "string \<Rightarrow> poll" where
  "sample_poll content = \<lparr> pl_cancelled = False, pl_stat = Some (7, length content), pl_content = Some content \<rparr>"

lemma stream_log_exact_witness:
  "\<exists>k. stream_loop [] (\<lambda>_. True) 0 (start_stream 7 2)
      [sample_poll ''old'', sample_poll (''old'' @ [CHR 0x0A] @ ''new'')] =
    (stream_view [] (take k (drop 2 (''old'' @ [CHR 0x0A] @ ''new''))),
     Some (followed 7 2 k (''old'' @ [CHR 0x0A] @ ''new'')))"
proof -
  let ?polls = "[sample_poll ''old'', sample_poll (''old'' @ [CHR 0x0A] @ ''new'')]"
  have "growing 7 ''old'' ?polls" "short_lines (last_content ''old'' ?polls)"
    by (simp_all add: sample_poll_def short_lines_def complete_lines_def unfinished_def)
  from stream_log_exact [OF _ this(1) _ this(2), where accepts = "\<lambda>_. True" and start = 2 and keyword = "[]"] show ?thesis
    by (auto simp: sample_poll_def)
qed

text \<open>
  C6.  The stream catches up: once such a file rests, a pass for each 64 KiB that are left
  suffices, and every complete line of the file from the starting offset on has been sent.
\<close>

theorem stream_log_catches_up:
  assumes "\<forall>n. accepts n" "growing ino c0 polls" "start \<le> length c0" "c = last_content c0 polls" "short_lines c"
    "list_all (resting ino c) quiet" "length c \<le> start + stream_read_size * length quiet"
  shows "stream_loop keyword accepts 0 (start_stream ino start) (polls @ quiet) =
    (stream_view keyword (drop start c), Some (followed ino start (length c - start) c))"
  by (rule stream_loop_catches_up [OF assms])

lemma stream_log_catches_up_witness:
  "stream_loop [] (\<lambda>_. True) 0 (start_stream 7 2) ([sample_poll ''old''] @ [sample_poll ''old'']) =
    (stream_view [] (drop 2 ''old''), Some (followed 7 2 (length ''old'' - 2) ''old''))"
proof -
  have "growing 7 ''old'' [sample_poll ''old'']" "short_lines ''old''" "list_all (resting 7 ''old'') [sample_poll ''old'']"
    by (simp_all add: sample_poll_def short_lines_def complete_lines_def unfinished_def resting_def)
  from stream_log_catches_up [OF _ this(1) _ _ this(2,3), where accepts = "\<lambda>_. True" and start = 2 and keyword = "[]"]
  show ?thesis by (simp add: sample_poll_def)
qed

text \<open>Any pass, whatever it sees.\<close>

lemma shown_line_ok: "well_formed (shown_line raw) \<and> length (shown_line raw) \<le> 3 * maximum_line_length"
  using sanitize_length [of "take maximum_line_length (drop_carriage_return raw)"]
  by (simp add: shown_line_def sanitize_well_formed)

lemma send_lines_shown:
  "\<forall>line \<in> set (fst (send_lines keyword accepts sent s)). \<exists>raw. line = shown_line raw \<and> stream_wanted keyword raw"
proof (induction s arbitrary: sent rule: text_induct)
  case (plain s)
  then show ?case by (simp add: send_lines_plain)
next
  case (line l r)
  obtain a b where tail: "send_lines keyword accepts (Suc sent) r = (a, b)"
    by fastforce
  show ?case
    using line.IH [of sent] line.IH [of "Suc sent"] line.hyps by (auto simp: send_lines_line tail)
qed

lemma poll_step_shown:
  "\<forall>line \<in> set (fst (poll_step keyword accepts sent st p)). \<exists>raw. line = shown_line raw \<and> stream_wanted keyword raw"
  using send_lines_shown [of keyword accepts sent "st_partial (check_rotation _ _ st) @ _"]
  by (auto simp: poll_step_def Let_def split: option.split prod.split) (metis fst_conv)+

lemma keep_tail_length: "length (keep_tail s) \<le> maximum_line_length"
  by (simp add: keep_tail_def)

lemma poll_step_partial:
  "snd (poll_step keyword accepts sent st p) = Some st' \<Longrightarrow> length (st_partial st) \<le> maximum_line_length \<Longrightarrow>
     length (st_partial st') \<le> maximum_line_length"
  using keep_tail_length
  by (auto simp: poll_step_def check_rotation_def Let_def split: option.splits prod.splits if_splits)

lemma stream_loop_shown:
  "\<forall>line \<in> set (fst (stream_loop keyword accepts sent st ps)). \<exists>raw. line = shown_line raw \<and> stream_wanted keyword raw"
proof (induction ps arbitrary: sent st)
  case (Cons p ps)
  show ?case
    using poll_step_shown [of keyword accepts sent st p] Cons.IH
    by (auto split: prod.split option.split) (metis fst_conv)+
qed simp

lemma stream_loop_partial:
  "snd (stream_loop keyword accepts sent st ps) = Some st' \<Longrightarrow> length (st_partial st) \<le> maximum_line_length \<Longrightarrow>
     length (st_partial st') \<le> maximum_line_length"
proof (induction ps arbitrary: sent st)
  case (Cons p ps)
  obtain out r where step: "poll_step keyword accepts sent st p = (out, r)"
    by fastforce
  show ?case
  proof (cases r)
    case None
    then show ?thesis
      using Cons.prems by (simp add: step)
  next
    case (Some st1)
    then have "length (st_partial st1) \<le> maximum_line_length"
      using poll_step_partial [of keyword accepts sent st p st1] Cons.prems(2) by (simp add: step)
    then show ?thesis
      using Cons.IH [of "sent + length out" st1] Cons.prems(1) Some by (simp add: step split: prod.splits)
  qed
qed simp

text \<open>
  Whatever happens to the file, to the connection or to the directory while a log is
  followed, every line that is sent is well-formed UTF-8 of at most 12288 bytes and passed the
  filter, and what the Agent keeps between two passes is at most 4096 bytes.
\<close>

theorem stream_log_bounds:
  assumes "rpc_stream_log logs stat_of accepts log_id keyword start_at_end polls = Inr (out, state)"
  shows "(\<forall>line \<in> set out. well_formed line \<and> length line \<le> 3 * maximum_line_length \<and>
      (\<exists>raw. line = shown_line raw \<and> stream_wanted keyword raw)) \<and>
    (\<forall>st. state = Some st \<longrightarrow> length (st_partial st) \<le> maximum_line_length)"
proof -
  obtain st where run: "stream_loop keyword accepts 0 st polls = (out, state)" "st_partial st = []"
    using assms by (auto simp: rpc_stream_log_defs split: if_splits sum.splits option.splits)
  then show ?thesis
    using stream_loop_shown [of keyword accepts 0 st polls] stream_loop_partial [of keyword accepts 0 st polls] shown_line_ok
    by fastforce
qed

lemma stream_log_bounds_witness:
  "\<exists>out. rpc_stream_log (allowed_logs []) (\<lambda>_. Some (7, 0)) (\<lambda>_. True) ''system'' [] True
      [sample_poll (''new'' @ [CHR 0x0A])] = Inr (out, Some (followed 7 0 4 (''new'' @ [CHR 0x0A]))) \<and>
    (\<forall>line \<in> set out. well_formed line)"
proof -
  have "rpc_stream_log (allowed_logs []) (\<lambda>_. Some (7, 0)) (\<lambda>_. True) ''system'' [] True
      [sample_poll (''new'' @ [CHR 0x0A])] =
      Inr (stream_loop [] (\<lambda>_. True) 0 (followed 7 0 0 (''new'' @ [CHR 0x0A])) [sample_poll (''new'' @ [CHR 0x0A])])"
    by (simp add: rpc_stream_log_defs resolve_log_path_def find_allowed_log_def allowed_logs_def start_offset_def
        followed_def unfinished_def)
  also have "\<dots> = Inr (stream_view [] (''new'' @ [CHR 0x0A]), Some (followed 7 0 4 (''new'' @ [CHR 0x0A])))"
    using poll_step_growing(1) [of "\<lambda>_. True" "''new'' @ [CHR 0x0A]" "''new'' @ [CHR 0x0A]" 0 0
        "sample_poll (''new'' @ [CHR 0x0A])" 7 4 4 "[]" 0]
    by (simp add: sample_poll_def short_lines_def complete_lines_def unfinished_def)
  finally have run: "rpc_stream_log (allowed_logs []) (\<lambda>_. Some (7, 0)) (\<lambda>_. True) ''system'' [] True
      [sample_poll (''new'' @ [CHR 0x0A])] =
      Inr (stream_view [] (''new'' @ [CHR 0x0A]), Some (followed 7 0 4 (''new'' @ [CHR 0x0A])))" .
  show ?thesis
    using run stream_log_bounds [OF run] by blast
qed

end
