(* ===== verification/Stream_Metrics.thy ===== *)
theory Stream_Metrics
  imports Agent_Service
begin

text \<open>
  \<open>EdgeScopeServiceImpl::StreamSystemMetrics\<close>: a stream of metrics at an interval that the client
  asks for, in units of the sampler's generations.  A pass of the loop looks whether the call is
  cancelled and then waits for a newer generation; what it finds is the sampler at the moment the
  wait ends (the waits are those of \<open>Metrics_Sampler\<close>).
\<close>

section \<open>Operations\<close>

abbreviation min_stream_interval_ms :: u32 where "min_stream_interval_ms \<equiv> 1000"
abbreviation max_stream_interval_ms :: u32 where "max_stream_interval_ms \<equiv> 60000"

definition stream_interval :: "u32 \<Rightarrow> status + u32" where
  "stream_interval requested =
     (let interval_ms = (if requested = 0 then 1000 else requested) in
      if interval_ms < min_stream_interval_ms \<or> interval_ms > max_stream_interval_ms
      then Inl (InvalidArgument, ''interval_ms must be between 1000 and 60000'')
      else Inr interval_ms)"

text \<open>The division is undefined for a sampler interval of zero, which no configuration has.\<close>

definition samples_per_response :: "u32 \<Rightarrow> u64 \<Rightarrow> u64" where
  "samples_per_response interval_ms sampler_interval_ms =
     (ucast interval_ms + sampler_interval_ms - 1) div sampler_interval_ms"

text \<open>
  The loop: the responses that are written, each with the generation that it shows, and the
  status that the call returns, \<open>None\<close> while it goes on.
\<close>

fun metrics_loop ::
  "(nat \<Rightarrow> bool) \<Rightarrow> u64 \<Rightarrow> nat \<Rightarrow> u64 \<Rightarrow> (bool \<times> sampler) list \<Rightarrow> (u64 \<times> metrics_msg) list \<times> status option" where
  "metrics_loop accepts samples_needed sent last_sent_generation [] = ([], None)"
| "metrics_loop accepts samples_needed sent last_sent_generation ((cancelled, s) # rest) =
     (if cancelled then ([], Some ok_status)
      else
        (case wait_result s of
           (_, Inl error) \<Rightarrow> ([], Some (Internal, error))
         | (gen, Inr metrics) \<Rightarrow>
             if gen - last_sent_generation < samples_needed
             then metrics_loop accepts samples_needed sent last_sent_generation rest
             else if accepts sent
             then (case metrics_loop accepts samples_needed (sent + 1) gen rest of
                     (responses, result) \<Rightarrow>
                       ((gen, fill_system_metrics_response metrics) # responses, result))
             else ([], Some ok_status)))"

definition rpc_stream_system_metrics ::
  "(nat \<Rightarrow> bool) \<Rightarrow> u32 \<Rightarrow> u64 \<Rightarrow> sampler \<Rightarrow> (bool \<times> sampler) list \<Rightarrow> (u64 \<times> metrics_msg) list \<times> status option" where
  "rpc_stream_system_metrics accepts requested sampler_interval_ms s passes =
     (case stream_interval requested of
        Inl failure \<Rightarrow> ([], Some failure)
      | Inr interval_ms \<Rightarrow>
          (case get_latest s of
             (_, Inl error) \<Rightarrow> ([], Some (Internal, error))
           | (gen, Inr metrics) \<Rightarrow>
               if \<not> accepts 0 then ([], Some ok_status)
               else
                 (case metrics_loop accepts (samples_per_response interval_ms sampler_interval_ms) 1 gen passes of
                    (responses, result) \<Rightarrow>
                      ((gen, fill_system_metrics_response metrics) # responses, result))))"

section \<open>The number of samples for one response\<close>

lemma stream_interval_range:
  "stream_interval requested = Inr interval_ms \<Longrightarrow> 1000 \<le> unat interval_ms \<and> unat interval_ms \<le> 60000"
  by (auto simp: stream_interval_def Let_def word_less_nat_alt not_less split: if_splits)

lemma ceiling_division:
  fixes a b :: nat
  assumes "0 < a" "0 < b"
  shows "a \<le> ((a + b - 1) div b) * b \<and> ((a + b - 1) div b) * b < a + b \<and> 1 \<le> (a + b - 1) div b"
proof -
  have div: "((a + b - 1) div b) * b + (a + b - 1) mod b = a + b - 1" and mod: "(a + b - 1) mod b < b"
    using assms(2) by simp_all
  have "b div b \<le> (a + b - 1) div b"
    using assms by (intro div_le_mono) simp
  then have "1 \<le> (a + b - 1) div b"
    using assms(2) by simp
  with div mod assms show ?thesis by linarith
qed

lemma samples_per_response_nat:
  assumes "1000 \<le> unat interval_ms" "unat interval_ms \<le> 60000" "100 \<le> unat sampler_ms" "unat sampler_ms \<le> 60000"
  shows "unat (samples_per_response interval_ms sampler_ms) = (unat interval_ms + unat sampler_ms - 1) div unat sampler_ms"
proof -
  have cast: "unat (ucast interval_ms :: u64) = unat interval_ms"
    using unsigned_less [of interval_ms, where ?'a = nat] by (simp add: unsigned_ucast_eq take_bit_nat_eq_self)
  have sum: "unat (ucast interval_ms + sampler_ms) = unat interval_ms + unat sampler_ms"
    using unat_plus_no_wrap [of "ucast interval_ms" sampler_ms] assms by (simp add: cast)
  have "(1 :: u64) \<le> ucast interval_ms + sampler_ms"
    using assms by (simp add: word_le_nat_alt sum)
  then have "unat (ucast interval_ms + sampler_ms - 1) = unat interval_ms + unat sampler_ms - 1"
    by (simp add: unat_sub sum)
  then show ?thesis
    by (simp add: samples_per_response_def unat_div)
qed

section \<open>The generations that are sent\<close>

text \<open>The passes of a stream that has seen generation \<open>g\<close>: each wait ends as \<open>WaitForNext\<close> does.\<close>

fun waits_from :: "u64 \<Rightarrow> (bool \<times> sampler) list \<Rightarrow> bool" where
  "waits_from g [] = True"
| "waits_from g ((cancelled, s) # rest) = (cancelled \<or> (wait_ready g s \<and> waits_from (generation s) rest))"

lemma wait_result_ready:
  "wait_ready g s \<Longrightarrow> wait_result s = (g', Inr m) \<Longrightarrow> g' = generation s \<and> g < generation s \<and> latest_result s = Inr m"
  by (auto simp: wait_ready_def wait_result_def split: if_splits)

lemma metrics_loop_spacing:
  "waits_from g passes \<Longrightarrow> last_sent \<le> g \<Longrightarrow>
     successively (\<lambda>a b. unat a + unat n \<le> unat b) (last_sent # map fst (fst (metrics_loop accepts n sent last_sent passes)))"
proof (induction accepts n sent last_sent passes arbitrary: g rule: metrics_loop.induct)
  case (2 accepts n sent last_sent cancelled s rest)
  show ?case
  proof (cases "cancelled")
    case False
    then have ready: "wait_ready g s" "waits_from (generation s) rest"
      using "2.prems"(1) by simp_all
    obtain gen r where result: "wait_result s = (gen, r)"
      by fastforce
    show ?thesis
    proof (cases r)
      case (Inr m)
      have gen: "gen = generation s" "g < gen"
        using wait_result_ready [OF ready(1)] result Inr by auto
      then have order: "last_sent \<le> gen"
        using "2.prems"(2) by (simp add: word_le_nat_alt word_less_nat_alt)
      show ?thesis
      proof (cases "gen - last_sent < n")
        case True
        then show ?thesis
          using "2.IH"(1) [OF False result [symmetric] Inr True ready(2)] order gen(1) False result Inr by simp
      next
        case far: False
        then have "unat last_sent + unat n \<le> unat gen"
          using unat_sub [OF order] order by (simp add: word_le_nat_alt word_less_nat_alt)
        then show ?thesis
          using "2.IH"(2) [OF False result [symmetric] Inr far _ ready(2)] gen(1) False result Inr far
          by (auto split: prod.split)
      qed
    qed (use False result in simp)
  qed simp
qed simp

text \<open>A stream that goes on: never cancelled, every message written, every wait ended by a sample.\<close>

definition undisturbed :: "(nat \<Rightarrow> bool) \<Rightarrow> (bool \<times> sampler) list \<Rightarrow> bool" where
  "undisturbed accepts passes \<longleftrightarrow>
     (\<forall>k. accepts k) \<and> list_all (\<lambda>(cancelled, s). \<not> cancelled \<and> is_ok (snd (wait_result s))) passes"

text \<open>A sample that is a response or less than \<open>n\<close> samples after one.\<close>

definition timely :: "nat \<Rightarrow> u64 list \<Rightarrow> sampler \<Rightarrow> bool" where
  "timely n sent s \<longleftrightarrow> (\<exists>a \<in> set sent. a \<le> generation s \<and> unat (generation s) < unat a + n)"

lemma timely_Cons: "timely n sent s \<Longrightarrow> timely n (a # sent) s"
  by (auto simp: timely_def)

lemma metrics_loop_prompt:
  "undisturbed accepts passes \<Longrightarrow> waits_from g passes \<Longrightarrow> last_sent \<le> g \<Longrightarrow> 0 < unat n \<Longrightarrow>
     snd (metrics_loop accepts n sent last_sent passes) = None \<and>
     (\<forall>(_, s) \<in> set passes. timely (unat n) (last_sent # map fst (fst (metrics_loop accepts n sent last_sent passes))) s)"
proof (induction accepts n sent last_sent passes arbitrary: g rule: metrics_loop.induct)
  case (2 accepts n sent last_sent cancelled s rest)
  have run: "\<not> cancelled" "is_ok (snd (wait_result s))" "undisturbed accepts rest" "accepts sent"
    using "2.prems"(1) by (simp_all add: undisturbed_def)
  then have ready: "wait_ready g s" "waits_from (generation s) rest"
    using "2.prems"(2) by simp_all
  obtain gen m where result: "wait_result s = (gen, Inr m)"
    using run(2) by (cases "wait_result s") (auto simp: is_ok_iff)
  have gen: "gen = generation s" "g < gen"
    using wait_result_ready [OF ready(1) result] by auto
  then have order: "last_sent \<le> gen"
    using "2.prems"(3) by (simp add: word_le_nat_alt word_less_nat_alt)
  show ?case
  proof (cases "gen - last_sent < n")
    case True
    then have "unat gen < unat last_sent + unat n"
      using unat_sub [OF order] order by (simp add: word_le_nat_alt word_less_nat_alt)
    then have "timely (unat n) (last_sent # sent_later) s" for sent_later
      using order by (simp add: timely_def gen(1))
    then show ?thesis
      using "2.IH"(1) [OF run(1) result [symmetric] refl True run(3) ready(2)] order gen(1) run(1) result True "2.prems"(4)
      by simp
  next
    case False
    obtain responses final where loop: "metrics_loop accepts n (sent + 1) gen rest = (responses, final)"
      by fastforce
    have "final = None" and later: "\<forall>(_, s) \<in> set rest. timely (unat n) (gen # map fst responses) s"
      using "2.IH"(2) [OF run(1) result [symmetric] refl False run(4,3) ready(2)] gen(1) loop "2.prems"(4) by simp_all
    moreover have "timely (unat n) (gen # map fst responses) s"
      using "2.prems"(4) by (simp add: timely_def gen(1))
    ultimately show ?thesis
      using timely_Cons [of "unat n" "gen # map fst responses" _ last_sent] run(1,4) result False loop by auto
  qed
qed simp

text \<open>Every response shows the metrics of the sampler at that moment.\<close>

lemma metrics_loop_results:
  "(gen, msg) \<in> set (fst (metrics_loop accepts n sent last_sent passes)) \<Longrightarrow>
     \<exists>s m. (False, s) \<in> set passes \<and> wait_result s = (gen, Inr m) \<and> msg = fill_system_metrics_response m"
  by (induction accepts n sent last_sent passes rule: metrics_loop.induct)
     (auto split: prod.splits sum.splits if_splits)

section \<open>Properties\<close>

text \<open>
  C24.  The pace of a stream: for any interval that the call accepts and any sampler interval that
  a configuration can have, the number of samples from one response to the next is exactly the
  least that covers the interval, and nothing in its computation wraps around.  No two responses are
  closer; and while the stream goes on, none is late: every sample that the call sees is a response
  or comes less than that number after one.
\<close>

theorem stream_metrics_pace:
  assumes "config_ok config" "stream_interval requested = Inr interval_ms" "waits_from (generation s) passes"
    "samples_needed = (unat interval_ms + unat (sample_interval config) - 1) div unat (sample_interval config)"
    "rpc_stream_system_metrics accepts requested (sample_interval config) s passes = (responses, result)"
  shows "successively (\<lambda>a b. unat a + samples_needed \<le> unat b) (map fst responses) \<and>
    unat interval_ms \<le> samples_needed * unat (sample_interval config) \<and>
    samples_needed * unat (sample_interval config) < unat interval_ms + unat (sample_interval config) \<and>
    (undisturbed accepts passes \<and> is_ok (snd (get_latest s)) \<longrightarrow> result = None \<and>
       (\<forall>(_, s') \<in> set passes. timely samples_needed (map fst responses) s'))"
proof -
  let ?n = "samples_per_response interval_ms (sample_interval config)"
  have interval: "1000 \<le> unat interval_ms" "unat interval_ms \<le> 60000"
    using stream_interval_range [OF assms(2)] by simp_all
  have sampler: "100 \<le> unat (sample_interval config)" "unat (sample_interval config) \<le> 60000"
    using assms(1) by (simp_all add: config_ok_def word_le_nat_alt)
  have n: "unat ?n = samples_needed"
    unfolding assms(4) by (rule samples_per_response_nat [OF interval sampler])
  have cover: "unat interval_ms \<le> samples_needed * unat (sample_interval config) \<and>
      samples_needed * unat (sample_interval config) < unat interval_ms + unat (sample_interval config) \<and> 1 \<le> samples_needed"
    unfolding assms(4) by (rule ceiling_division) (use interval sampler in simp_all)
  have spacing: "successively (\<lambda>a b. unat a + samples_needed \<le> unat b) (map fst responses)"
    using metrics_loop_spacing [OF assms(3), of "generation s" ?n accepts 1] assms(5)
    by (auto simp: rpc_stream_system_metrics_def assms(2) get_latest_def n split: sum.splits prod.splits if_splits)
  have "result = None \<and> (\<forall>(_, s') \<in> set passes. timely samples_needed (map fst responses) s')"
    if going: "undisturbed accepts passes" "is_ok (snd (get_latest s))"
  proof -
    obtain m where latest: "get_latest s = (generation s, Inr m)"
      using going(2) by (auto simp: get_latest_def is_ok_iff)
    have "accepts 0"
      using going(1) by (simp add: undisturbed_def)
    then show ?thesis
      using metrics_loop_prompt [OF going(1) assms(3), of "generation s" ?n 1] cover assms(5)
      by (auto simp: rpc_stream_system_metrics_def assms(2) latest n split: prod.splits)
  qed
  then show ?thesis
    using spacing cover by blast
qed

definition sample_sampler :: "u64 \<Rightarrow> sampler" where
  "sample_sampler g =
     \<lparr> latest_metrics = empty_metrics, latest_error = [], generation = g, has_snapshot = True, stopping = False,
       collector = new_system_collector (\<lambda>_. Inl ENOENT), worker = Waiting \<rparr>"

text \<open>A sampler with an interval of 500 milliseconds: every second sample is a response.\<close>

lemma stream_metrics_pace_witness:
  "map fst (fst (rpc_stream_system_metrics (\<lambda>_. True) 0 500 (sample_sampler 1)
     [(False, sample_sampler 2), (False, sample_sampler 3), (False, sample_sampler 4)])) = [1, 3] \<and>
   successively (\<lambda>a b. unat a + 2 \<le> unat b) [1 :: u64, 3] \<and> unat (4 :: u64) < unat (3 :: u64) + 2"
proof -
  let ?config = "default_config \<lparr> sample_interval := 500 \<rparr>"
  let ?passes = "[(False, sample_sampler 2), (False, sample_sampler 3), (False, sample_sampler 4)]"
  let ?run = "rpc_stream_system_metrics (\<lambda>_. True) 0 (sample_interval ?config) (sample_sampler 1) ?passes"
  have config: "config_ok ?config"
    using config_ok_default by (simp add: config_ok_def)
  have interval: "stream_interval 0 = Inr 1000"
    by (simp add: stream_interval_def Let_def)
  have waits: "waits_from (generation (sample_sampler 1)) ?passes"
    by (simp add: sample_sampler_def wait_ready_def)
  have needed: "2 = (unat (1000 :: u32) + unat (sample_interval ?config) - 1) div unat (sample_interval ?config)"
    by simp
  have sent: "map fst (fst ?run) = [1, 3]"
    by (simp add: rpc_stream_system_metrics_def interval get_latest_def latest_result_def samples_per_response_def
        sample_sampler_def wait_result_def)
  show ?thesis
    using stream_metrics_pace [OF config interval waits needed prod.collapse [symmetric]] sent by auto
qed

end
