(* ===== verification/Bundle_Download.thy ===== *)
theory Bundle_Download
  imports Agent_Service
begin

text \<open>
  \<open>EdgeScopeServiceImpl::DownloadDiagnosticBundle\<close>: an archive in chunks of 64 KiB.  Reading the
  opened archive gives its bytes in order, up to its end or up to an input error (\<open>bad\<close>).  What a
  client makes of the chunks is in the theories \<open>Edge_Client\<close> and \<open>Rpc_Worker\<close>.
\<close>

section \<open>The call\<close>

abbreviation chunk_size :: nat where "chunk_size \<equiv> 65536"

text \<open>How the call ends: a cancelled call and a refused chunk are not errors of the Agent.\<close>

datatype download_end = DownloadCancelled | ChunkRefused | ReadFailed | Downloaded

definition finish_download :: "bool \<Rightarrow> bool \<Rightarrow> u64 \<Rightarrow> u64 \<Rightarrow> download_end" where
  "finish_download cancelled_now bad offset total_size =
     (if cancelled_now then DownloadCancelled
      else if bad \<or> offset \<noteq> total_size then ReadFailed
      else Downloaded)"

definition download_status :: "download_end \<Rightarrow> status" where
  "download_status e =
     (if e = ReadFailed then (Internal, ''failed while reading diagnostic bundle'') else ok_status)"

text \<open>
  The loop in its \<open>n\<close>th pass, with the bytes that are left to read: \<open>cancelled n\<close> is what the
  context says then, \<open>accepts n\<close> whether the \<open>n\<close>th chunk can be written.
\<close>

function download_loop ::
  "(nat \<Rightarrow> bool) \<Rightarrow> (nat \<Rightarrow> bool) \<Rightarrow> u64 \<Rightarrow> bool \<Rightarrow> nat \<Rightarrow> u64 \<Rightarrow> string \<Rightarrow> chunk_msg list \<times> download_end" where
  "download_loop cancelled accepts total_size bad n offset rest =
     (if cancelled n then ([], finish_download True bad offset total_size)
      else
        (let block = take chunk_size rest in
         if block = [] then ([], finish_download (cancelled (n + 1)) bad offset total_size)
         else
           (let next_offset = offset + word_of_nat (length block);
                chunk = \<lparr> ch_data = block, ch_offset = offset, ch_total_size_bytes = total_size,
                          ch_eof = (next_offset = total_size) \<rparr>
            in if \<not> accepts n then ([], ChunkRefused)
               else if length block < chunk_size
               then ([chunk], finish_download (cancelled (n + 1)) bad next_offset total_size)
               else
                 (case download_loop cancelled accepts total_size bad (n + 1) next_offset (drop chunk_size rest) of
                    (chunks, e) \<Rightarrow> (chunk # chunks, e)))))"
  by pat_completeness auto
termination
  by (relation "measure (\<lambda>(_, _, _, _, _, _, rest). length rest)") auto

declare download_loop.simps [simp del]

text \<open>The call: the file that it opens, the chunks, the entries of the log and the status.\<close>

definition download_call ::
  "(nat \<Rightarrow> bool) \<Rightarrow> (nat \<Rightarrow> bool) \<Rightarrow> (path \<Rightarrow> (string \<times> bool) option) \<Rightarrow> agent_service \<Rightarrow> string \<Rightarrow>
   path list \<times> chunk_msg list \<times> log_entry list \<times> status" where
  "download_call cancelled accepts open_archive srv requested_id =
     (if requested_id = [] then ([], [], [], (InvalidArgument, ''bundle_id is required''))
      else
        (case get_bundle_path (as_diagnostics srv) requested_id of
           Inl error \<Rightarrow> ([], [], [], (NotFound, error))
         | Inr (p, total_size) \<Rightarrow>
             ([p],
              (case open_archive p of
                 None \<Rightarrow> ([], [], (Internal, ''failed to open diagnostic bundle''))
               | Some (contents, bad) \<Rightarrow>
                   (case download_loop cancelled accepts total_size bad 0 0 contents of
                      (chunks, e) \<Rightarrow>
                        (chunks,
                         if e = Downloaded then [LogInfo (''downloaded diagnostic bundle '' @ requested_id)] else [],
                         download_status e))))))"

definition rpc_download_diagnostic_bundle ::
  "(nat \<Rightarrow> bool) \<Rightarrow> (nat \<Rightarrow> bool) \<Rightarrow> (path \<Rightarrow> (string \<times> bool) option) \<Rightarrow> agent_service \<Rightarrow> string \<Rightarrow>
   chunk_msg list \<times> log_entry list \<times> status" where
  "rpc_download_diagnostic_bundle cancelled accepts open_archive srv requested_id =
     snd (download_call cancelled accepts open_archive srv requested_id)"

lemmas rpc_download_defs = rpc_download_diagnostic_bundle_def download_call_def

section \<open>What is sent\<close>

text \<open>The chunks of a text: consecutive, of 1 to 64 KiB, each with its offset.\<close>

fun chunks_from :: "u64 \<Rightarrow> u64 \<Rightarrow> chunk_msg list \<Rightarrow> bool" where
  "chunks_from offset total_size [] = True"
| "chunks_from offset total_size (c # cs) =
     (ch_offset c = offset \<and> ch_total_size_bytes c = total_size \<and> ch_data c \<noteq> [] \<and>
      length (ch_data c) \<le> chunk_size \<and>
      (ch_eof c \<longleftrightarrow> offset + word_of_nat (length (ch_data c)) = total_size) \<and>
      chunks_from (offset + word_of_nat (length (ch_data c))) total_size cs)"

abbreviation chunk_data :: "chunk_msg list \<Rightarrow> string" where
  "chunk_data cs \<equiv> concat (map ch_data cs)"

definition chunk_of :: "u64 \<Rightarrow> u64 \<Rightarrow> string \<Rightarrow> chunk_msg" where
  "chunk_of total_size offset block =
     \<lparr> ch_data = block, ch_offset = offset, ch_total_size_bytes = total_size,
       ch_eof = (offset + word_of_nat (length block) = total_size) \<rparr>"

lemma download_loop_cases:
  "cancelled n \<Longrightarrow> download_loop cancelled accepts total_size bad n offset rest = ([], DownloadCancelled)"
  "\<not> cancelled n \<Longrightarrow> download_loop cancelled accepts total_size bad n offset [] =
     ([], finish_download (cancelled (n + 1)) bad offset total_size)"
  "\<not> cancelled n \<Longrightarrow> rest \<noteq> [] \<Longrightarrow> \<not> accepts n \<Longrightarrow>
     download_loop cancelled accepts total_size bad n offset rest = ([], ChunkRefused)"
  "\<not> cancelled n \<Longrightarrow> rest \<noteq> [] \<Longrightarrow> accepts n \<Longrightarrow> length rest < chunk_size \<Longrightarrow>
     download_loop cancelled accepts total_size bad n offset rest =
       ([chunk_of total_size offset rest],
        finish_download (cancelled (n + 1)) bad (offset + word_of_nat (length rest)) total_size)"
  by (subst download_loop.simps, auto simp: finish_download_def chunk_of_def Let_def)+

lemma download_loop_block:
  assumes "length block = chunk_size" "\<not> cancelled n" "accepts n"
  shows "download_loop cancelled accepts total_size bad n offset (block @ rest) =
    (chunk_of total_size offset block # fst (download_loop cancelled accepts total_size bad (Suc n) (offset + 65536) rest),
     snd (download_loop cancelled accepts total_size bad (Suc n) (offset + 65536) rest))"
  using assms by (subst download_loop.simps) (auto simp: chunk_of_def Let_def split: prod.split)

text \<open>A text is at most one short block, or a block and more text.\<close>

lemma block_induct [case_names short block]:
  assumes "\<And>rest n offset. length rest < chunk_size \<Longrightarrow> P n offset rest"
    and "\<And>block rest n offset. length block = chunk_size \<Longrightarrow> (\<And>n offset. P n offset rest) \<Longrightarrow> P n offset (block @ rest)"
  shows "P (n :: nat) (offset :: u64) (rest :: string)"
proof (induction "length rest" arbitrary: rest n offset rule: less_induct)
  case less
  show ?case
  proof (cases "length rest < chunk_size")
    case False
    then have "P n offset (take chunk_size rest @ drop chunk_size rest)"
      using less by (intro assms(2)) simp_all
    then show ?thesis by simp
  qed (rule assms(1))
qed

lemma download_loop_chunks:
  "chunks_from offset total_size (fst (download_loop cancelled accepts total_size bad n offset rest)) \<and>
   prefix (chunk_data (fst (download_loop cancelled accepts total_size bad n offset rest))) rest"
proof (induction n offset rest rule: block_induct)
  case (short rest n offset)
  then show ?case
    by (cases "cancelled n"; cases "rest = []"; cases "accepts n") (simp_all add: download_loop_cases chunk_of_def)
next
  case (block block rest n offset)
  then have "block \<noteq> []" by auto
  then show ?case
    using block by (cases "cancelled n"; cases "accepts n")
      (simp_all add: download_loop_cases(1,3) download_loop_block chunk_of_def)
qed

text \<open>A call that ends well has sent the whole archive.\<close>

lemma download_loop_complete:
  "snd (download_loop cancelled accepts total_size bad n offset rest) = Downloaded \<Longrightarrow>
     chunk_data (fst (download_loop cancelled accepts total_size bad n offset rest)) = rest \<and>
     \<not> bad \<and> offset + word_of_nat (length rest) = total_size"
proof (induction n offset rest rule: block_induct)
  case (short rest n offset)
  then show ?case
    by (cases "cancelled n"; cases "rest = []"; cases "accepts n")
       (auto simp: download_loop_cases chunk_of_def finish_download_def split: if_splits)
next
  case (block block rest n offset)
  then have "block \<noteq> []" by auto
  then show ?case
    using block(1,3) block(2) [of "Suc n" "offset + 65536"] by (cases "cancelled n"; cases "accepts n")
      (auto simp: download_loop_cases(1,3) download_loop_block chunk_of_def add.assoc)
qed

text \<open>An undisturbed call on an intact archive ends well.\<close>

lemma download_loop_ends_well:
  assumes "\<forall>k. \<not> cancelled k" "\<forall>k. accepts k"
  shows "offset + word_of_nat (length rest) = total_size \<Longrightarrow>
     snd (download_loop cancelled accepts total_size False n offset rest) = Downloaded"
proof (induction n offset rest rule: block_induct)
  case (short rest n offset)
  then show ?case
    using assms by (cases "rest = []") (simp_all add: download_loop_cases finish_download_def)
next
  case (block block rest n offset)
  then show ?case
    using assms [rule_format, of n] by (simp add: download_loop_block add.assoc)
qed

lemma download_loop_undisturbed:
  assumes "\<forall>k. \<not> cancelled k" "\<forall>k. accepts k"
  shows "snd (download_loop cancelled accepts total_size bad n offset rest) \<in> {Downloaded, ReadFailed}"
proof (induction n offset rest rule: block_induct)
  case (short rest n offset)
  then show ?case
    using assms by (cases "rest = []") (simp_all add: download_loop_cases finish_download_def)
next
  case (block block rest n offset)
  then show ?case
    using assms [rule_format, of n] by (simp add: download_loop_block)
qed

text \<open>One chunk for every 64 KiB that are begun; fewer when the call is cut short.\<close>

lemma blocks_of_more: "(65536 + n + 65535) div 65536 = Suc ((n + 65535) div (65536 :: nat))"
  by simp

lemma download_loop_length:
  "length (fst (download_loop cancelled accepts total_size bad n offset rest)) \<le> (length rest + 65535) div 65536"
proof (induction n offset rest rule: block_induct)
  case (short rest n offset)
  then show ?case
    by (cases "cancelled n"; cases "rest = []"; cases "accepts n")
       (simp_all add: download_loop_cases Suc_le_eq div_greater_zero_iff)
next
  case (block block rest n offset)
  then have "block \<noteq> []" by auto
  then show ?case
    using block(1) block(2) [of "Suc n" "offset + 65536"] by (cases "cancelled n"; cases "accepts n")
      (simp_all add: download_loop_cases(1,3) download_loop_block blocks_of_more)
qed

lemma download_loop_length_full:
  assumes "\<forall>k. \<not> cancelled k" "\<forall>k. accepts k"
  shows "length (fst (download_loop cancelled accepts total_size bad n offset rest)) = (length rest + 65535) div 65536"
proof (induction n offset rest rule: block_induct)
  case (short rest n offset)
  have "(length rest + 65535) div 65536 = 1" if "rest \<noteq> []"
    using short that by (intro div_nat_eqI) (auto simp: Suc_le_eq)
  then show ?case
    using short assms by (cases "rest = []") (simp_all add: download_loop_cases)
next
  case (block block rest n offset)
  then show ?case
    using assms [rule_format, of n] by (simp add: download_loop_block blocks_of_more)
qed

section \<open>Properties\<close>

text \<open>An archive opened in a world: its bytes, which can all be read.\<close>

definition opened_in :: "world \<Rightarrow> path \<Rightarrow> (string \<times> bool) option" where
  "opened_in w p = (case fs w p of Some (File contents) \<Rightarrow> Some (contents, False) | _ \<Rightarrow> None)"

lemma find_distinct:
  "distinct (map f xs) \<Longrightarrow> x \<in> set xs \<Longrightarrow> find (\<lambda>y. f y = f x) xs = Some x"
  by (induction xs) (auto simp: rev_image_eqI)

lemma stored_bundle_found:
  assumes "collector_inv st w" "b \<in> set (bundles st)"
  shows "get_bundle_path st (db_id (sb_info b)) = Inr (sb_path b, db_size_bytes (sb_info b))"
    and "db_id (sb_info b) \<noteq> []"
    and "\<exists>contents. fs w (sb_path b) = Some (File contents) \<and> db_size_bytes (sb_info b) = word_of_nat (length contents)"
proof -
  show "get_bundle_path st (db_id (sb_info b)) = Inr (sb_path b, db_size_bytes (sb_info b))"
    using find_distinct [of "db_id \<circ> sb_info" "bundles st" b] assms by (simp add: get_bundle_path_def collector_inv_def)
  show "db_id (sb_info b) \<noteq> []"
    using assms by (auto simp: collector_inv_def stored_ok_def bundle_id_def)
  show "\<exists>contents. fs w (sb_path b) = Some (File contents) \<and> db_size_bytes (sb_info b) = word_of_nat (length contents)"
    using assms by (auto simp: collector_inv_def stored_ok_def)
qed

lemma rpc_download_stored:
  assumes "collector_inv (as_diagnostics srv) w" "b \<in> set (bundles (as_diagnostics srv))"
    "\<forall>k. \<not> cancelled k" "\<forall>k. accepts k"
  shows "\<exists>contents chunks. fs w (sb_path b) = Some (File contents) \<and>
    rpc_download_diagnostic_bundle cancelled accepts (opened_in w) srv (db_id (sb_info b)) =
      (chunks, [LogInfo (''downloaded diagnostic bundle '' @ db_id (sb_info b))], ok_status) \<and>
    chunks_from 0 (db_size_bytes (sb_info b)) chunks \<and> chunk_data chunks = contents \<and>
    db_size_bytes (sb_info b) = word_of_nat (length contents)"
proof -
  note stored = stored_bundle_found [OF assms(1,2)]
  obtain contents where contents: "fs w (sb_path b) = Some (File contents)"
      "db_size_bytes (sb_info b) = word_of_nat (length contents)"
    using stored(3) by blast
  define size where "size = db_size_bytes (sb_info b)"
  obtain chunks e where run: "download_loop cancelled accepts size False 0 0 contents = (chunks, e)"
    by fastforce
  have "0 + word_of_nat (length contents) = size"
    by (simp add: size_def contents(2))
  from download_loop_ends_well [OF assms(3,4) this, of 0] have "e = Downloaded"
    by (simp add: run)
  moreover have "chunk_data chunks = contents"
    using download_loop_complete [of cancelled accepts size False 0 0 contents] by (simp add: run calculation)
  moreover have "chunks_from 0 size chunks"
    using download_loop_chunks [of 0 size cancelled accepts False 0 contents] by (simp add: run)
  ultimately show ?thesis
    using contents run stored(1,2)
    by (simp add: rpc_download_defs opened_in_def download_status_def size_def)
qed

text \<open>
  C11.  A download never sends anything but the archive: whatever the cancellation, the refused
  chunks and the input errors, the chunks are consecutive pieces of 1 to 64 KiB that make up a
  beginning of the archive, each with its offset and the announced size, and the end mark is on
  the chunk that reaches that size.  An \<open>OK\<close> of a call that was neither cancelled nor refused
  means that all of it was sent.
\<close>

theorem rpc_download_pieces:
  assumes "rpc_download_diagnostic_bundle cancelled accepts open_archive srv i = (chunks, entries, st)"
    "get_bundle_path (as_diagnostics srv) i = Inr (p, total_size)" "open_archive p = Some (contents, bad)"
  shows "chunks_from 0 total_size chunks \<and> prefix (chunk_data chunks) contents \<and>
    (status_ok st \<and> (\<forall>k. \<not> cancelled k) \<and> (\<forall>k. accepts k) \<longrightarrow>
       i = [] \<or> (chunk_data chunks = contents \<and> word_of_nat (length contents) = total_size))"
proof (cases "i = []")
  case True
  then show ?thesis
    using assms by (auto simp: rpc_download_defs)
next
  case False
  obtain e where run: "download_loop cancelled accepts total_size bad 0 0 contents = (chunks, e)"
    and st: "st = download_status e"
    using assms False by (auto simp: rpc_download_defs split: prod.splits)
  have "e = Downloaded" if "status_ok st" "\<forall>k. \<not> cancelled k" "\<forall>k. accepts k"
    using download_loop_undisturbed [OF that(2,3), of total_size bad 0 0 contents] that(1)
    by (auto simp: run st download_status_def status_ok_def split: if_splits)
  then show ?thesis
    using download_loop_chunks [of 0 total_size cancelled accepts bad 0 contents]
      download_loop_complete [of cancelled accepts total_size bad 0 0 contents] by (auto simp: run)
qed

definition sample_service :: agent_service where
  "sample_service =
     \<lparr> as_sampler = \<lparr> latest_metrics = empty_metrics, latest_error = [], generation = 1, has_snapshot = True,
         stopping = False, collector = new_system_collector (\<lambda>_. Inl ENOENT), worker = Waiting \<rparr>,
       as_logs = [],
       as_diagnostics = \<lparr> root_directory = ''/d'',
         bundles = [\<lparr> sb_info = \<lparr> db_id = ''7'', db_filename = ''a'', db_size_bytes = 3, db_created_at = 0 \<rparr>,
                      sb_path = ''/d/a'' \<rparr>],
         bundle_sequence = 1 \<rparr>,
       as_allowed_services = [] \<rparr>"

lemma rpc_download_pieces_witness:
  "\<exists>chunks. rpc_download_diagnostic_bundle (\<lambda>_. False) (\<lambda>_. True) (\<lambda>_. Some (''abc'', False)) sample_service ''7'' =
       (chunks, [LogInfo (''downloaded diagnostic bundle '' @ ''7'')], ok_status) \<and>
     chunks_from 0 3 chunks \<and> chunk_data chunks = ''abc''"
proof -
  have found: "get_bundle_path (as_diagnostics sample_service) ''7'' = Inr (''/d/a'', 3)"
    by (simp add: sample_service_def get_bundle_path_def)
  obtain chunks where run: "rpc_download_diagnostic_bundle (\<lambda>_. False) (\<lambda>_. True) (\<lambda>_. Some (''abc'', False)) sample_service ''7'' =
      (chunks, [LogInfo (''downloaded diagnostic bundle '' @ ''7'')], ok_status)"
    by (simp add: rpc_download_defs found download_loop_cases finish_download_def download_status_def)
  show ?thesis
    using run rpc_download_pieces [OF run found refl] by (auto simp: status_ok_def)
qed

text \<open>
  C12.  A download ends: the call sends at most one chunk for every 64 KiB of the archive that are
  begun, and exactly as many when it is neither cancelled nor refused; it then has read to the end
  of the file, and it is a failure exactly when the file could not be read or has changed its size
  since the bundle was recorded.
\<close>

theorem rpc_download_ends:
  assumes "rpc_download_diagnostic_bundle cancelled accepts open_archive srv i = (chunks, entries, st)"
    "get_bundle_path (as_diagnostics srv) i = Inr (p, total_size)" "open_archive p = Some (contents, bad)" "i \<noteq> []"
  shows "length chunks \<le> (length contents + 65535) div 65536 \<and>
    ((\<forall>k. \<not> cancelled k) \<and> (\<forall>k. accepts k) \<longrightarrow>
       length chunks = (length contents + 65535) div 65536 \<and>
       (status_ok st \<longleftrightarrow> \<not> bad \<and> word_of_nat (length contents) = total_size))"
proof -
  obtain e where run: "download_loop cancelled accepts total_size bad 0 0 contents = (chunks, e)"
    and st: "st = download_status e"
    using assms by (auto simp: rpc_download_defs split: prod.splits)
  have "status_ok st \<longleftrightarrow> \<not> bad \<and> word_of_nat (length contents) = total_size"
    if calm: "\<forall>k. \<not> cancelled k" "\<forall>k. accepts k"
  proof -
    have "e \<in> {Downloaded, ReadFailed}"
      using download_loop_undisturbed [OF calm, of total_size bad 0 0 contents] by (simp add: run)
    then have "status_ok st \<longleftrightarrow> e = Downloaded"
      by (auto simp: st download_status_def status_ok_def)
    moreover have "\<not> bad \<and> word_of_nat (length contents) = total_size" if "e = Downloaded"
      using that download_loop_complete [of cancelled accepts total_size bad 0 0 contents] by (simp add: run)
    moreover have "e = Downloaded" if intact: "\<not> bad" "word_of_nat (length contents) = total_size"
      using download_loop_ends_well [OF calm, of 0 contents total_size 0] run intact by simp
    ultimately show ?thesis
      by blast
  qed
  then show ?thesis
    using download_loop_length [of cancelled accepts total_size bad 0 0 contents]
      download_loop_length_full [of cancelled accepts total_size bad 0 0 contents] by (simp add: run)
qed

lemma rpc_download_ends_witness:
  "\<exists>chunks. rpc_download_diagnostic_bundle (\<lambda>_. False) (\<lambda>_. True) (\<lambda>_. Some (''abcd'', False)) sample_service ''7'' =
       (chunks, [], (Internal, ''failed while reading diagnostic bundle'')) \<and> length chunks = 1"
proof -
  have found: "get_bundle_path (as_diagnostics sample_service) ''7'' = Inr (''/d/a'', 3)"
    by (simp add: sample_service_def get_bundle_path_def)
  obtain chunks where run: "rpc_download_diagnostic_bundle (\<lambda>_. False) (\<lambda>_. True) (\<lambda>_. Some (''abcd'', False)) sample_service ''7'' =
      (chunks, [], (Internal, ''failed while reading diagnostic bundle''))"
    by (simp add: rpc_download_defs found download_loop_cases finish_download_def download_status_def)
  show ?thesis
    using run rpc_download_ends [OF run found refl] by auto
qed

end
