(* ===== verification/Agent_System.thy ===== *)
theory Agent_System
  imports Agent_Main Stream_Log Stream_Metrics Bundle_Download
begin

text \<open>
  The Agent as a whole (\<open>agent/include/EdgeScopeServiceImpl.h\<close>): requests of any clients in any
  order, interleaved with the steps of the sampler's thread.  A step is one call (or one critical
  section of the sampler) and gives what the Agent does on the machine, as the models of the calls
  report it: the signals that it sends, the commands that it runs, the operations on files and the
  \<open>tar\<close> of a bundle, and the logs and archives that it opens for a client.
\<close>

section \<open>Steps\<close>

datatype agent_effect =
    Signalled signal_call | Ran command | Did fs_op | OpenedLog path | OpenedBundle path

text \<open>The logs that a request for a bundle reads, where it gets that far.\<close>

definition logs_for_bundle :: "(path \<Rightarrow> bool) \<Rightarrow> allowed_log list \<Rightarrow> (path \<Rightarrow> errno + log_file) \<Rightarrow> path list" where
  "logs_for_bundle is_regular logs open_file =
     concat (map (\<lambda>source. if ls_available source
         then fst (read_log logs open_file (ls_id source) recent_log_lines []) else [])
       (list_logs is_regular logs))"

text \<open>A call that only reads \<open>/proc\<close>, \<open>/sys\<close> and the metrics changes nothing and is no step.\<close>

inductive agent_step ::
  "i32 \<Rightarrow> agent_service \<times> world \<Rightarrow> agent_effect list \<Rightarrow> bool \<Rightarrow> agent_service \<times> world \<Rightarrow> bool"
  for self :: i32 where
  sampler_thread: "sampler_step collect (as_sampler srv) e s \<Longrightarrow>
    agent_step self (srv, w) [] False (srv \<lparr> as_sampler := s \<rparr>, w)"
| process_control: "rpc_control_process self kill pid number = (calls, entries, answer) \<Longrightarrow>
    agent_step self (srv, w) (map Signalled calls) False (srv, w)"
| read_a_log: "rpc_read_log open_file srv log_id max_lines keyword = (opened, content) \<Longrightarrow>
    agent_step self (srv, w) (map OpenedLog opened) False (srv, w)"
| follow_a_log: "stream_log_call (as_logs srv) stat_of accepts log_id keyword start_at_end polls = (opened, answer) \<Longrightarrow>
    agent_step self (srv, w) (map OpenedLog opened) False (srv, w)"
| services: "rpc_list_services run srv = (commands, entries, infos) \<Longrightarrow>
    agent_step self (srv, w) (map Ran commands) False (srv, w)"
| service_control: "rpc_control_service run srv name number = (commands, entries, answer) \<Longrightarrow>
    agent_step self (srv, w) (map Ran commands) False (srv, w)"
| bundle_request: "s = gather_sources proc_directory hz inet_ntop read_file getifaddrs proc_entries is_regular (as_logs srv) open_file \<Longrightarrow>
    rpc_create_diagnostic_bundle tar faults inp s srv w = (created, entries, srv', w') \<Longrightarrow>
    ops w' = ops w @ did \<Longrightarrow>
    agent_step self (srv, w)
      (map OpenedLog (logs_for_bundle is_regular (as_logs srv) open_file) @ map Did did) True (srv', w')"
| download: "download_call cancelled accepts open_archive srv i = (opened, chunks, entries, st) \<Longrightarrow>
    agent_step self (srv, w) (map OpenedBundle opened) False (srv, w)"

text \<open>The histories of an Agent: its effects, and how many bundles were asked for.\<close>

inductive agent_history ::
  "i32 \<Rightarrow> agent_config \<Rightarrow> agent_effect list \<Rightarrow> nat \<Rightarrow> agent_service \<times> world \<Rightarrow> bool"
  for self :: i32 and config :: agent_config where
  start: "new_agent_service collect files0 files1 config = Some srv \<Longrightarrow> agent_history self config [] 0 (srv, w)"
| step: "agent_history self config effects n c \<Longrightarrow> agent_step self c more_effects bundle_asked c' \<Longrightarrow>
    agent_history self config (effects @ more_effects) (n + (if bundle_asked then 1 else 0)) c'"

section \<open>The invariant\<close>

text \<open>What an Agent with a configuration may do.\<close>

fun agent_permitted :: "i32 \<Rightarrow> agent_config \<Rightarrow> agent_effect \<Rightarrow> bool" where
  "agent_permitted self config (Signalled call) = permitted_call self call"
| "agent_permitted self config (Ran command) =
     (\<exists>name \<in> set (allowed_services config). command = show_command name \<or> control_command name command)"
| "agent_permitted self config (Did oper) = inside (diagnostic_directory config) oper"
| "agent_permitted self config (OpenedLog p) = (p \<in> al_path ` set (allowed_logs (log_file config)))"
| "agent_permitted self config (OpenedBundle p) = (\<exists>i. p = archive_path (diagnostic_directory config) i)"

definition agent_inv :: "agent_config \<Rightarrow> nat \<Rightarrow> agent_service \<times> world \<Rightarrow> bool" where
  "agent_inv config n c \<longleftrightarrow>
     as_logs (fst c) = allowed_logs (log_file config) \<and>
     as_allowed_services (fst c) = allowed_services config \<and>
     root_directory (as_diagnostics (fst c)) = diagnostic_directory config \<and>
     unat (bundle_sequence (as_diagnostics (fst c))) \<le> n \<and>
     collector_inv (as_diagnostics (fst c)) (snd c) \<and>
     (\<exists>k. sampler_inv k (as_sampler (fst c)))"

lemma agent_inv_start:
  assumes "new_agent_service collect files0 files1 config = Some srv"
  shows "agent_inv config 0 (srv, w)"
proof -
  obtain s where s: "new_sampler collect files0 files1 = Some s"
    and srv: "srv = \<lparr> as_sampler = s, as_logs = allowed_logs (log_file config),
      as_diagnostics = new_diagnostic_collector (diagnostic_directory config),
      as_allowed_services = allowed_services config \<rparr>"
    using assms by (auto simp: new_agent_service_def)
  have "sampler_inv 1 s"
    using system.new_inv [OF s] by simp
  then show ?thesis
    by (auto simp: agent_inv_def srv) (simp_all add: new_diagnostic_collector_def)
qed

text \<open>The sources of a bundle have one log for each of the four ids.\<close>

lemma gathered_ids:
  "distinct (map (ls_id \<circ> fst) (src_logs (gather_sources proc_directory hz inet_ntop read_file getifaddrs proc_entries
     is_regular (allowed_logs p) open_file)))"
  by (simp add: gather_sources_def list_logs_def allowed_logs_def)

lemma create_bundle_constants:
  assumes "create_bundle tar faults inp s m st w = (r, st', w')"
  shows "root_directory st' = root_directory st \<and>
    (bundle_sequence st' = bundle_sequence st \<or> bundle_sequence st' = bundle_sequence st + 1)"
  using assms by (cases rule: create_bundle_cases) (simp_all add: store_bundle_def)

lemma create_bundle_keeps:
  assumes "create_bundle tar faults inp s m st w = (r, st', w')" "collector_inv st w" "bundle_sequence st \<noteq> - 1"
    "distinct (map (ls_id \<circ> fst) (src_logs s))"
  shows "collector_inv st' w'"
  using assms create_bundle_inv_stored create_bundle_inv_failed by (cases r) blast+

lemma rpc_create_keeps:
  assumes "rpc_create_diagnostic_bundle tar faults inp s srv w = (created, entries, srv', w')"
    "agent_inv config n (srv, w)" "n < 2 ^ 64 - 1" "distinct (map (ls_id \<circ> fst) (src_logs s))"
  shows "agent_inv config (n + 1) (srv', w')"
proof (cases "snd (get_latest (as_sampler srv))")
  case (Inl e)
  then have "srv' = srv" "w' = w"
    using assms(1) by (auto simp: rpc_create_diagnostic_bundle_def split: prod.splits)
  then show ?thesis
    using assms(2) by (auto simp: agent_inv_def)
next
  case (Inr m)
  obtain r st where run: "create_bundle tar faults inp s m (as_diagnostics srv) w = (r, st, w')"
    and srv': "srv' = srv \<lparr> as_diagnostics := st \<rparr>"
    using assms(1) Inr
    by (cases "create_bundle tar faults inp s m (as_diagnostics srv) w")
       (auto simp: rpc_create_diagnostic_bundle_def split: prod.splits sum.splits)
  have "unat (bundle_sequence (as_diagnostics srv)) < 2 ^ 64 - 1"
    using assms(2,3) by (simp add: agent_inv_def)
  moreover have "unat (- 1 :: u64) = 2 ^ 64 - 1"
    by (simp add: unsigned_minus_1_eq_mask mask_eq_exp_minus_1)
  ultimately have wrap: "bundle_sequence (as_diagnostics srv) \<noteq> - 1"
    by (metis less_irrefl)
  have "collector_inv st w'"
    using create_bundle_keeps [OF run _ wrap assms(4)] assms(2) by (simp add: agent_inv_def)
  moreover have "unat (bundle_sequence st) \<le> n + 1" "root_directory st = root_directory (as_diagnostics srv)"
    using create_bundle_constants [OF run] unat_next [OF wrap] assms(2) by (auto simp: agent_inv_def)
  ultimately show ?thesis
    using assms(2) by (simp add: agent_inv_def srv')
qed

section \<open>What a call may do\<close>

lemma control_effects: "call \<in> set (fst (control self kill pid action)) \<Longrightarrow> permitted_call self call"
  using signal_of_range [of action] by (auto simp: control_def permitted_call_def split: option.splits if_splits)

lemma process_effects:
  assumes "rpc_control_process self kill pid number = (calls, entries, answer)" "call \<in> set calls"
  shows "permitted_call self call"
proof (cases "process_action_of number")
  case None
  then show ?thesis
    using assms by (simp add: rpc_control_process_def)
next
  case (Some action)
  then have "calls = fst (control self kill pid action)"
    using assms(1) by (cases "control self kill pid action"; cases "snd (control self kill pid action)")
      (auto simp: rpc_control_process_def)
  then show ?thesis
    using assms(2) control_effects by simp
qed

lemma list_services_commands:
  "command \<in> set (fst (list_services run names)) \<Longrightarrow> command \<in> show_command ` set names"
  by (induction names) (auto split: sum.splits prod.splits)

lemma services_effects:
  "rpc_list_services run srv = (commands, entries, infos) \<Longrightarrow> command \<in> set commands \<Longrightarrow>
     command \<in> show_command ` set (as_allowed_services srv)"
  using list_services_commands [of command run "as_allowed_services srv"]
  by (auto simp: rpc_list_services_def split: prod.splits sum.splits)

lemma service_effects:
  assumes "rpc_control_service run srv name number = (commands, entries, answer)" "command \<in> set commands"
  shows "name \<in> set (as_allowed_services srv) \<and> control_command name command"
proof -
  obtain action where "service_action_of number = Some action"
      "command \<in> set (fst (control_service run (as_allowed_services srv) name action))"
    using assms by (auto simp: rpc_control_service_def split: option.splits prod.splits sum.splits)
  then show ?thesis
    using service_whitelist.effect_listed [of command run "as_allowed_services srv" name action] is_allowed_iff by blast
qed

lemma log_effects:
  assumes "rpc_read_log open_file srv log_id max_lines keyword = (opened, content)" "p \<in> set opened"
  shows "p \<in> al_path ` set (as_logs srv)"
proof -
  have "p \<in> set (fst (read_log (as_logs srv) open_file log_id max_lines keyword))"
    using assms by (auto simp: rpc_read_log_def split: prod.splits sum.splits)
  then show ?thesis
    using log_whitelist.effect_listed [of p "as_logs srv" open_file log_id "(max_lines, keyword)"] by auto
qed

lemma follow_effects:
  "stream_log_call logs stat_of accepts log_id keyword start_at_end polls = (opened, answer) \<Longrightarrow> p \<in> set opened \<Longrightarrow>
     p \<in> al_path ` set logs"
  by (auto simp: stream_log_call_def resolve_log_path_def split: option.splits sum.splits if_splits
      dest: find_allowed_log_Some)

lemma download_effects:
  assumes "download_call cancelled accepts open_archive srv i = (opened, chunks, entries, st)" "p \<in> set opened"
    "collector_inv (as_diagnostics srv) w"
  shows "\<exists>i. p = archive_path (root_directory (as_diagnostics srv)) i"
proof -
  obtain total_size where "get_bundle_path (as_diagnostics srv) i = Inr (p, total_size)"
    using assms(1,2) by (auto simp: download_call_def split: sum.splits if_splits)
  then obtain b where "find (\<lambda>b. db_id (sb_info b) = i) (bundles (as_diagnostics srv)) = Some b" "p = sb_path b"
    by (auto simp: get_bundle_path_def split: option.splits)
  then have "b \<in> set (bundles (as_diagnostics srv))" "p = sb_path b"
    by (auto simp: find_Some_iff)
  then show ?thesis
    using collector_inv_path [OF assms(3)] by blast
qed

lemma bundle_log_effects: "p \<in> set (logs_for_bundle is_regular logs open_file) \<Longrightarrow> p \<in> al_path ` set logs"
proof -
  assume "p \<in> set (logs_for_bundle is_regular logs open_file)"
  then obtain i where "p \<in> set (fst (read_log logs open_file i recent_log_lines []))"
    by (auto simp: logs_for_bundle_def split: if_splits)
  then show ?thesis
    using log_whitelist.effect_listed [of p logs open_file i "(recent_log_lines, [])"] by auto
qed

lemma bundle_effects:
  assumes "rpc_create_diagnostic_bundle tar faults inp s srv w = (created, entries, srv', w')" "ops w' = ops w @ did"
    "collector_inv (as_diagnostics srv) w" "oper \<in> set did"
  shows "inside (root_directory (as_diagnostics srv)) oper"
proof (cases "snd (get_latest (as_sampler srv))")
  case (Inl e)
  then have "w' = w"
    using assms(1) by (auto simp: rpc_create_diagnostic_bundle_def split: prod.splits)
  then show ?thesis
    using assms(2,4) by simp
next
  case (Inr m)
  obtain r st where run: "create_bundle tar faults inp s m (as_diagnostics srv) w = (r, st, w')"
    using assms(1) Inr
    by (cases "create_bundle tar faults inp s m (as_diagnostics srv) w")
       (auto simp: rpc_create_diagnostic_bundle_def split: prod.splits sum.splits)
  have "works (root_directory (as_diagnostics srv)) w w'"
    by (rule create_bundle_works [OF run]) (simp add: collector_inv_path [OF assms(3)])
  then show ?thesis
    using assms(2,4) by (auto simp: works_def list_all_iff)
qed

lemma agent_step_permitted:
  assumes "agent_step self c effects asked c'" "agent_inv config n c"
  shows "\<forall>e \<in> set effects. agent_permitted self config e"
  using assms
proof cases
  case (process_control kill pid number calls entries answer srv w)
  then show ?thesis
    using process_effects by auto
next
  case (read_a_log open_file srv log_id max_lines keyword opened content w)
  then show ?thesis
    using log_effects [OF read_a_log(5)] assms(2) by (simp add: agent_inv_def)
next
  case (follow_a_log srv stat_of accepts log_id keyword start_at_end polls opened answer w)
  then show ?thesis
    using follow_effects [OF follow_a_log(5)] assms(2) by (simp add: agent_inv_def)
next
  case (services run srv commands entries infos w)
  then show ?thesis
    using services_effects [OF services(5)] assms(2) by (fastforce simp: agent_inv_def)
next
  case (service_control run srv name number commands entries answer w)
  then show ?thesis
    using service_effects [OF service_control(5)] assms(2) by (auto simp: agent_inv_def)
next
  case (bundle_request s proc_directory hz inet_ntop read_file getifaddrs proc_entries is_regular srv open_file
      tar faults inp w created entries srv' w' did)
  then show ?thesis
    using bundle_effects [OF bundle_request(6,7)] bundle_log_effects [of _ is_regular "as_logs srv" open_file] assms(2)
    by (auto simp: agent_inv_def)
next
  case (download cancelled accepts open_archive srv i opened chunks entries st w)
  then show ?thesis
    using download_effects [OF download(5)] assms(2) by (auto simp: agent_inv_def)
qed simp_all

lemma agent_step_inv:
  assumes "agent_step self c effects asked c'" "agent_inv config n c" "n + (if asked then 1 else 0) < 2 ^ 64"
  shows "agent_inv config (n + (if asked then 1 else 0)) c'"
  using assms
proof cases
  case (sampler_thread srv e s w)
  then show ?thesis
    using assms(2) system.step_inv by (fastforce simp: agent_inv_def)
next
  case (bundle_request s proc_directory hz inet_ntop read_file getifaddrs proc_entries is_regular srv open_file
      tar faults inp w created entries srv' w' did)
  have "as_logs srv = allowed_logs (log_file config)"
    using assms(2) bundle_request(1) by (simp add: agent_inv_def)
  then have "distinct (map (ls_id \<circ> fst) (src_logs s))"
    using bundle_request(5) gathered_ids by simp
  then show ?thesis
    using rpc_create_keeps [OF bundle_request(6), of config n] assms(2,3) bundle_request(1-4) by simp
qed (use assms(2) in simp_all)

lemma agent_history_inv:
  "agent_history self config effects n c \<Longrightarrow> n < 2 ^ 64 \<Longrightarrow>
     agent_inv config n c \<and> (\<forall>e \<in> set effects. agent_permitted self config e)"
proof (induction rule: agent_history.induct)
  case (start files0 files1 srv w)
  then show ?case
    using agent_inv_start by simp
next
  case (step effects n c more_effects bundle_asked c')
  then have "agent_inv config n c" "\<forall>e \<in> set effects. agent_permitted self config e"
    by simp_all
  then show ?case
    using agent_step_inv [OF step(2)] agent_step_permitted [OF step(2)] step.prems by auto
qed

section \<open>Properties\<close>

text \<open>
  C1.  The security promise of the Agent, whatever its clients ask for, in any order and number
  and interleaved in any way with its own thread: it only ever sends one of the four signals to a
  process above 1 that is not itself; as a command it only runs \<open>systemctl\<close> to show, start, stop or
  restart a service of its configuration; every operation on files for a bundle, the \<open>tar\<close> included,
  is within its diagnostic directory (or creates that directory); and it only opens the four logs of
  its list, for a client or a bundle, and archives in its own directory.  All along (and for fewer
  than \<open>2^64\<close> requests for bundles), at most five bundles are stored, each with its own identifier
  and its archive on disk in the recorded size, and the metrics that it reports are consistent.
\<close>

theorem agent_history_safe:
  assumes "agent_history self config effects n (srv, w)" "n < 2 ^ 64"
  shows "(\<forall>e \<in> set effects. agent_permitted self config e) \<and>
    length (bundles (as_diagnostics srv)) \<le> maximum_bundles \<and>
    distinct (map (db_id \<circ> sb_info) (bundles (as_diagnostics srv))) \<and>
    (\<forall>b \<in> set (bundles (as_diagnostics srv)). \<exists>contents. fs w (sb_path b) = Some (File contents) \<and>
       db_size_bytes (sb_info b) = word_of_nat (length contents)) \<and>
    (case rpc_get_system_metrics srv of
       Inl st \<Rightarrow> \<not> status_ok st \<and> snd st \<noteq> []
     | Inr msg \<Rightarrow> \<exists>m. metrics_ok m \<and> msg = fill_system_metrics_response m)"
proof -
  note history = agent_history_inv [OF assms]
  then have inv: "collector_inv (as_diagnostics srv) w"
    by (simp add: agent_inv_def)
  have "result_ok (latest_result (as_sampler srv))"
    using history by (auto simp: agent_inv_def sampler_inv_def)
  then have metrics: "case rpc_get_system_metrics srv of
       Inl st \<Rightarrow> \<not> status_ok st \<and> snd st \<noteq> []
     | Inr msg \<Rightarrow> \<exists>m. metrics_ok m \<and> msg = fill_system_metrics_response m"
    by (auto simp: rpc_get_system_metrics_def get_latest_def result_ok_def status_ok_def split: sum.splits)
  have stored: "\<exists>contents. fs w (sb_path b) = Some (File contents) \<and>
      db_size_bytes (sb_info b) = word_of_nat (length contents)" if "b \<in> set (bundles (as_diagnostics srv))" for b
    by (rule stored_bundle_found(3) [OF inv that])
  show ?thesis
    using history inv metrics stored by (simp add: collector_inv_def)
qed

lemma agent_history_safe_witness:
  "\<forall>w. \<exists>srv. agent_history 77 default_config [Signalled (300, SIGSTOP)] 0 (srv, w) \<and>
     agent_permitted 77 default_config (Signalled (300, SIGSTOP)) \<and> length (bundles (as_diagnostics srv)) \<le> 5"
proof
  fix w
  obtain s where "new_sampler collect (\<lambda>_. Inl ENOENT) sample_files = Some s"
    using first_sample by blast
  then obtain srv where "new_agent_service collect (\<lambda>_. Inl ENOENT) sample_files default_config = Some srv"
    by (simp add: new_agent_service_def)
  note start = agent_history.start [OF this]
  have "agent_step 77 (srv, w) (map Signalled [(300, SIGSTOP)]) False (srv, w)"
    by (rule agent_step.process_control [where kill = "\<lambda>_. None" and pid = 300 and number = 3])
       (simp add: rpc_control_process_def control_def process_action_of_def)
  from agent_history.step [OF start this]
  have run: "agent_history 77 default_config [Signalled (300, SIGSTOP)] 0 (srv, w)"
    by simp
  show "\<exists>srv. agent_history 77 default_config [Signalled (300, SIGSTOP)] 0 (srv, w) \<and>
     agent_permitted 77 default_config (Signalled (300, SIGSTOP)) \<and> length (bundles (as_diagnostics srv)) \<le> 5"
    using agent_history_safe [OF run] run by auto
qed

end
