(* ===== verification/Agent_Logger.thy ===== *)
theory Agent_Logger
  imports Agent_Service
begin

text \<open>
  \<open>agent/src/AgentLogger.cpp\<close>: the Agent's log.  spdlog is not part of the repository: its
  objects and operations are parameters (\<open>spdlog\<close>), and what the code relies on of their
  documentation is \<open>spdlog_documented\<close>.
\<close>

section \<open>Levels\<close>

datatype log_level = LevelInfo | LevelWarn | LevelError

fun level_rank :: "log_level \<Rightarrow> nat" where
  "level_rank LevelInfo = 2"
| "level_rank LevelWarn = 3"
| "level_rank LevelError = 4"

lemma level_rank_inj: "level_rank a = level_rank b \<Longrightarrow> a = b"
  by (cases a; cases b) simp_all

instantiation log_level :: linorder
begin

definition less_eq_log_level :: "log_level \<Rightarrow> log_level \<Rightarrow> bool" where
  "a \<le> b \<longleftrightarrow> level_rank a \<le> level_rank b"

definition less_log_level :: "log_level \<Rightarrow> log_level \<Rightarrow> bool" where
  "a < b \<longleftrightarrow> level_rank a < level_rank b"

instance
  by standard (auto simp: less_eq_log_level_def less_log_level_def intro: level_rank_inj)

end

lemma level_order [simp]: "LevelInfo \<le> v" "LevelWarn \<le> LevelError" "\<not> LevelWarn \<le> LevelInfo"
  by (cases v) (simp_all add: less_eq_log_level_def)

section \<open>The logger\<close>

abbreviation maximum_log_size :: nat where "maximum_log_size \<equiv> 5 * 1024 * 1024"
abbreviation rotated_file_count :: nat where "rotated_file_count \<equiv> 3"

text \<open>A constructor that throws gives the text of the exception.\<close>

record ('s, 'l) spdlog =
  sp_stdout_sink :: "string + 's"
  sp_rotating_sink :: "path \<Rightarrow> nat \<Rightarrow> nat \<Rightarrow> string + 's"
  sp_logger :: "string \<Rightarrow> 's list \<Rightarrow> string + 'l"
  sp_set_pattern :: "string \<Rightarrow> 'l \<Rightarrow> 'l"
  sp_flush_on :: "log_level \<Rightarrow> 'l \<Rightarrow> 'l"
  sp_log :: "log_level \<Rightarrow> string \<Rightarrow> 'l \<Rightarrow> 'l"
  sp_flush :: "'l \<Rightarrow> 'l"

definition initialize_logger :: "('s, 'l) spdlog \<Rightarrow> path \<Rightarrow> string + 'l" where
  "initialize_logger sp p =
     (case sp_stdout_sink sp of
        Inl error \<Rightarrow> Inl error
      | Inr console \<Rightarrow>
          (case sp_rotating_sink sp p maximum_log_size rotated_file_count of
             Inl error \<Rightarrow> Inl error
           | Inr file \<Rightarrow>
               (case sp_logger sp ''edgescope-agent'' [console, file] of
                  Inl error \<Rightarrow> Inl error
                | Inr l \<Rightarrow>
                    Inr (sp_flush_on sp LevelWarn (sp_set_pattern sp ''[%Y-%m-%d %H:%M:%S.%e] [%l] [%t] %v'' l)))))"

definition logger_info :: "('s, 'l) spdlog \<Rightarrow> string \<Rightarrow> 'l \<Rightarrow> 'l" where
  "logger_info sp message l = sp_flush sp (sp_log sp LevelInfo message l)"

definition logger_warn :: "('s, 'l) spdlog \<Rightarrow> string \<Rightarrow> 'l \<Rightarrow> 'l" where
  "logger_warn sp message l = sp_log sp LevelWarn message l"

definition logger_error :: "('s, 'l) spdlog \<Rightarrow> string \<Rightarrow> 'l \<Rightarrow> 'l" where
  "logger_error sp message l = sp_log sp LevelError message l"

text \<open>The entries that the calls of the Agent give, written to the log.\<close>

fun write_entry :: "('s, 'l) spdlog \<Rightarrow> log_entry \<Rightarrow> 'l \<Rightarrow> 'l" where
  "write_entry sp (LogInfo message) l = logger_info sp message l"
| "write_entry sp (LogWarn message) l = logger_warn sp message l"
| "write_entry sp (LogError message) l = logger_error sp message l"

section \<open>What spdlog documents\<close>

text \<open>
  \<open>logged\<close> are the messages that a logger has passed to its sinks and \<open>durable\<close> those that its
  files hold for sure: all of them after a flush, and after a message of at least the level of
  \<open>flush_on\<close>.
\<close>

definition spdlog_documented ::
  "('s, 'l) spdlog \<Rightarrow> ('l \<Rightarrow> (log_level \<times> string) list) \<Rightarrow> ('l \<Rightarrow> (log_level \<times> string) list) \<Rightarrow> ('l \<Rightarrow> log_level) \<Rightarrow> bool" where
  "spdlog_documented sp logged durable flush_level \<longleftrightarrow>
     (\<forall>name sinks l. sp_logger sp name sinks = Inr l \<longrightarrow> logged l = [] \<and> durable l = []) \<and>
     (\<forall>pattern l. logged (sp_set_pattern sp pattern l) = logged l \<and> durable (sp_set_pattern sp pattern l) = durable l) \<and>
     (\<forall>v l. logged (sp_flush_on sp v l) = logged l \<and> durable (sp_flush_on sp v l) = durable l \<and>
        flush_level (sp_flush_on sp v l) = v) \<and>
     (\<forall>v m l. logged (sp_log sp v m l) = logged l @ [(v, m)] \<and> flush_level (sp_log sp v m l) = flush_level l \<and>
        (flush_level l \<le> v \<longrightarrow> durable (sp_log sp v m l) = logged l @ [(v, m)])) \<and>
     (\<forall>l. logged (sp_flush sp l) = logged l \<and> durable (sp_flush sp l) = logged l \<and>
        flush_level (sp_flush sp l) = flush_level l)"

fun entry_message :: "log_entry \<Rightarrow> log_level \<times> string" where
  "entry_message (LogInfo message) = (LevelInfo, message)"
| "entry_message (LogWarn message) = (LevelWarn, message)"
| "entry_message (LogError message) = (LevelError, message)"

lemma write_entry_durable:
  assumes "spdlog_documented sp logged durable flush_level" "flush_level l = LevelWarn"
  shows "logged (write_entry sp entry l) = logged l @ [entry_message entry] \<and>
    durable (write_entry sp entry l) = logged l @ [entry_message entry] \<and>
    flush_level (write_entry sp entry l) = LevelWarn"
  using assms
  by (cases entry) (simp_all add: spdlog_documented_def logger_info_def logger_warn_def logger_error_def)

lemma initialize_logger_fresh:
  assumes "spdlog_documented sp logged durable flush_level" "initialize_logger sp p = Inr l"
  shows "logged l = [] \<and> durable l = [] \<and> flush_level l = LevelWarn"
  using assms by (auto simp: initialize_logger_def spdlog_documented_def split: sum.splits)

text \<open>
  Nothing that the Agent logs is lost in a buffer: at any time, every entry that it has written is
  in the files, in the order in which they were written.
\<close>

theorem agent_log_durable:
  assumes "spdlog_documented sp logged durable flush_level" "initialize_logger sp p = Inr l"
  shows "durable (fold (write_entry sp) entries l) = map entry_message entries"
proof -
  have "logged (fold (write_entry sp) entries l) = logged l @ map entry_message entries \<and>
      (entries \<noteq> [] \<longrightarrow> durable (fold (write_entry sp) entries l) = logged l @ map entry_message entries)"
    if "flush_level l = LevelWarn" for l
    using that write_entry_durable [OF assms(1)]
  proof (induction entries arbitrary: l)
    case (Cons entry entries)
    then show ?case by (cases entries) simp_all
  qed simp
  then show ?thesis
    using initialize_logger_fresh [OF assms] by (cases entries) simp_all
qed

text \<open>A backend that keeps its messages in memory until they are flushed.\<close>

definition buffered_spdlog :: "(path option, (log_level \<times> string) list \<times> (log_level \<times> string) list \<times> log_level) spdlog" where
  "buffered_spdlog =
     \<lparr> sp_stdout_sink = Inr None,
       sp_rotating_sink = (\<lambda>p _ _. if p = [] then Inl ''Failed opening file'' else Inr (Some p)),
       sp_logger = (\<lambda>_ _. Inr ([], [], LevelError)),
       sp_set_pattern = (\<lambda>_ l. l),
       sp_flush_on = (\<lambda>v (logged, durable, _). (logged, durable, v)),
       sp_log = (\<lambda>v m (logged, durable, flush_level).
         (logged @ [(v, m)], if flush_level \<le> v then logged @ [(v, m)] else durable, flush_level)),
       sp_flush = (\<lambda>(logged, _, flush_level). (logged, logged, flush_level)) \<rparr>"

lemma agent_log_durable_witness:
  "\<exists>l. initialize_logger buffered_spdlog ''/tmp/a.log'' = Inr l \<and>
     fst (snd (fold (write_entry buffered_spdlog) [LogInfo ''a'', LogWarn ''b''] l)) = [(LevelInfo, ''a''), (LevelWarn, ''b'')]"
proof -
  have "spdlog_documented buffered_spdlog fst (fst \<circ> snd) (snd \<circ> snd)"
    by (auto simp: spdlog_documented_def buffered_spdlog_def)
  moreover obtain l where l: "initialize_logger buffered_spdlog ''/tmp/a.log'' = Inr l"
    by (simp add: initialize_logger_def buffered_spdlog_def)
  ultimately have "(fst \<circ> snd) (fold (write_entry buffered_spdlog) [LogInfo ''a'', LogWarn ''b''] l) =
      map entry_message [LogInfo ''a'', LogWarn ''b'']"
    by (rule agent_log_durable)
  then show ?thesis
    using l by auto
qed

end
