(* ===== verification/Edge_Client.thy ===== *)
theory Edge_Client
  imports Rpc_Messages
begin

text \<open>
  \<open>client/src/EdgeScopeClient.cpp\<close>: the calls as a client makes them.  The generated stub and the
  transport below it are parameters (a record of functions from the deadline and the request to
  the answer; a failed call gives its status).  A stream gives the messages that arrive before it
  ends and the status of \<open>Finish\<close>, which depends on whether the client cancelled the call.
\<close>

section \<open>The stub\<close>

abbreviation unary_deadline_ms :: nat where "unary_deadline_ms \<equiv> 3000"
abbreviation bundle_deadline_ms :: nat where "bundle_deadline_ms \<equiv> 30000"
abbreviation download_deadline_ms :: nat where "download_deadline_ms \<equiv> 300000"

type_synonym 'm stream = "'m list \<times> (bool \<Rightarrow> status)"

record stub =
  stub_get_agent_info :: "nat \<Rightarrow> agent_info_msg answer"
  stub_get_system_metrics :: "nat \<Rightarrow> metrics_msg answer"
  stub_stream_system_metrics :: "u32 \<Rightarrow> metrics_msg stream"
  stub_list_processes :: "nat \<Rightarrow> process_msg list answer"
  stub_get_process_details :: "nat \<Rightarrow> i32 \<Rightarrow> process_msg answer"
  stub_control_process :: "nat \<Rightarrow> i32 \<Rightarrow> int \<Rightarrow> unit answer"
  stub_get_network_interfaces :: "nat \<Rightarrow> interface_msg list answer"
  stub_list_tcp_connections :: "nat \<Rightarrow> connection_msg list answer"
  stub_list_logs :: "nat \<Rightarrow> log_source_msg list answer"
  stub_read_log :: "nat \<Rightarrow> string \<Rightarrow> u32 \<Rightarrow> string \<Rightarrow> log_content_msg answer"
  stub_stream_log :: "string \<Rightarrow> string \<Rightarrow> bool \<Rightarrow> string stream"
  stub_list_services :: "nat \<Rightarrow> service_msg list answer"
  stub_control_service :: "nat \<Rightarrow> string \<Rightarrow> int \<Rightarrow> unit answer"
  stub_create_diagnostic_bundle :: "nat \<Rightarrow> bundle_msg answer"
  stub_download_diagnostic_bundle :: "nat \<Rightarrow> string \<Rightarrow> chunk_msg stream"

section \<open>Calls with one answer\<close>

definition client_get_agent_info :: "stub \<Rightarrow> agent_info_msg answer" where
  "client_get_agent_info stb = stub_get_agent_info stb unary_deadline_ms"

definition client_get_system_metrics :: "stub \<Rightarrow> metrics_msg answer" where
  "client_get_system_metrics stb = stub_get_system_metrics stb unary_deadline_ms"

definition client_list_processes :: "stub \<Rightarrow> process_msg list answer" where
  "client_list_processes stb = stub_list_processes stb unary_deadline_ms"

definition client_get_process_details :: "stub \<Rightarrow> i32 \<Rightarrow> process_msg answer" where
  "client_get_process_details stb pid = stub_get_process_details stb unary_deadline_ms pid"

definition client_control_process :: "stub \<Rightarrow> i32 \<Rightarrow> int \<Rightarrow> unit answer" where
  "client_control_process stb pid action = stub_control_process stb unary_deadline_ms pid action"

definition client_get_network_interfaces :: "stub \<Rightarrow> interface_msg list answer" where
  "client_get_network_interfaces stb = stub_get_network_interfaces stb unary_deadline_ms"

definition client_list_tcp_connections :: "stub \<Rightarrow> connection_msg list answer" where
  "client_list_tcp_connections stb = stub_list_tcp_connections stb unary_deadline_ms"

definition client_list_logs :: "stub \<Rightarrow> log_source_msg list answer" where
  "client_list_logs stb = stub_list_logs stb unary_deadline_ms"

definition client_read_log :: "stub \<Rightarrow> string \<Rightarrow> u32 \<Rightarrow> string \<Rightarrow> log_content_msg answer" where
  "client_read_log stb log_id max_lines keyword = stub_read_log stb unary_deadline_ms log_id max_lines keyword"

definition client_list_services :: "stub \<Rightarrow> service_msg list answer" where
  "client_list_services stb = stub_list_services stb unary_deadline_ms"

definition client_control_service :: "stub \<Rightarrow> string \<Rightarrow> int \<Rightarrow> unit answer" where
  "client_control_service stb name action = stub_control_service stb unary_deadline_ms name action"

definition client_create_diagnostic_bundle :: "stub \<Rightarrow> bundle_msg answer" where
  "client_create_diagnostic_bundle stb = stub_create_diagnostic_bundle stb bundle_deadline_ms"

section \<open>Streams\<close>

text \<open>The messages handed to the callback, and whether the limit was reached (zero: no limit).\<close>

fun sample_loop :: "nat \<Rightarrow> nat \<Rightarrow> metrics_msg list \<Rightarrow> metrics_msg list \<times> bool" where
  "sample_loop max_samples sample_count [] = ([], False)"
| "sample_loop max_samples sample_count (response # rest) =
     (let sample_count = sample_count + 1 in
      if max_samples \<noteq> 0 \<and> sample_count \<ge> max_samples then ([response], True)
      else (case sample_loop max_samples sample_count rest of
              (handled, cancelled_after_limit) \<Rightarrow> (response # handled, cancelled_after_limit)))"

definition client_stream_system_metrics :: "stub \<Rightarrow> u32 \<Rightarrow> nat \<Rightarrow> metrics_msg list \<times> status" where
  "client_stream_system_metrics stb interval_ms max_samples =
     (let (responses, finish) = stub_stream_system_metrics stb interval_ms;
          (handled, cancelled_after_limit) = sample_loop max_samples 0 responses;
          st = finish cancelled_after_limit
      in (handled, if cancelled_after_limit \<and> fst st = Cancelled then ok_status else st))"

text \<open>
  A log is followed from its end.  The callback may cancel the call through the context; the
  lines that arrive after that are handed to it as well.  \<open>on_line\<close> folds over the callback's own
  state and tells whether the call is cancelled.
\<close>

definition client_stream_log :: "stub \<Rightarrow> string \<Rightarrow> string \<Rightarrow> (string \<Rightarrow> 's \<Rightarrow> 's) \<Rightarrow> ('s \<Rightarrow> bool) \<Rightarrow> 's \<Rightarrow> 's \<times> status" where
  "client_stream_log stb log_id keyword on_line cancels s =
     (let (lines, finish) = stub_stream_log stb log_id keyword True;
          s = fold on_line lines s
      in (s, finish (cancels s)))"

text \<open>Chunks go to the callback until it refuses one, which cancels the call.\<close>

fun chunk_loop :: "(chunk_msg \<Rightarrow> 's \<Rightarrow> 's \<times> bool) \<Rightarrow> 's \<Rightarrow> chunk_msg list \<Rightarrow> 's \<times> bool" where
  "chunk_loop on_chunk s [] = (s, False)"
| "chunk_loop on_chunk s (chunk # rest) =
     (case on_chunk chunk s of
        (s, True) \<Rightarrow> chunk_loop on_chunk s rest
      | (s, False) \<Rightarrow> (s, True))"

definition client_download_diagnostic_bundle ::
  "stub \<Rightarrow> string \<Rightarrow> (chunk_msg \<Rightarrow> 's \<Rightarrow> 's \<times> bool) \<Rightarrow> 's \<Rightarrow> 's \<times> status" where
  "client_download_diagnostic_bundle stb requested_id on_chunk s =
     (let (chunks, finish) = stub_download_diagnostic_bundle stb download_deadline_ms requested_id;
          (s, cancelled) = chunk_loop on_chunk s chunks
      in (s, finish cancelled))"

section \<open>Receivers of chunks\<close>

text \<open>
  The contract of the callbacks that store a download: a chunk that is accepted starts where the
  last one ended, and its data is added to what is stored.
\<close>

locale chunk_receiver =
  fixes on_chunk :: "chunk_msg \<Rightarrow> 's \<Rightarrow> 's \<times> bool"
    and stored :: "'s \<Rightarrow> string"
    and received :: "'s \<Rightarrow> u64"
  assumes accepted: "on_chunk c s = (s', True) \<Longrightarrow>
      ch_offset c = received s \<and> stored s' = stored s @ ch_data c \<and>
      received s' = received s + word_of_nat (length (ch_data c))"
begin

text \<open>What is stored after a download that no chunk of was refused.\<close>

lemma chunk_loop_stored:
  "chunk_loop on_chunk s cs = (s', False) \<Longrightarrow>
     stored s' = stored s @ concat (map ch_data cs) \<and>
     received s' = received s + word_of_nat (length (concat (map ch_data cs)))"
proof (induction cs arbitrary: s)
  case (Cons c cs)
  obtain s1 where step: "on_chunk c s = (s1, True)" and rest: "chunk_loop on_chunk s1 cs = (s', False)"
    using Cons.prems by (auto split: prod.splits bool.splits)
  show ?case
    using accepted [OF step] Cons.IH [OF rest] by (simp add: add.assoc)
qed simp

text \<open>What is stored counts as what is received, from an empty file on.\<close>

lemma stored_received:
  "chunk_loop on_chunk s cs = (s', False) \<Longrightarrow> received s = word_of_nat (length (stored s)) \<Longrightarrow>
     received s' = word_of_nat (length (stored s'))"
  using chunk_loop_stored [of s cs s'] by simp

end

section \<open>The limit on samples\<close>

lemma sample_loop_take:
  "sample_count < max_samples \<Longrightarrow>
     sample_loop max_samples sample_count responses =
       (take (max_samples - sample_count) responses, max_samples - sample_count \<le> length responses)"
proof (induction responses arbitrary: sample_count)
  case (Cons response rest)
  then show ?case
    by (cases "Suc sample_count = max_samples") (auto simp: Let_def Suc_diff_Suc take_Cons')
qed simp

lemma sample_loop_unlimited: "sample_loop 0 sample_count responses = (responses, False)"
  by (induction responses arbitrary: sample_count) (simp_all add: Let_def)

end
