(* ===== verification/Rpc_Worker.thy ===== *)
theory Rpc_Worker
  imports Edge_Client
begin

text \<open>
  \<open>client/include/ClientModels.h\<close> and \<open>client/src/RpcWorker.cpp\<close>: the thread of the desktop client
  that makes the calls.  A slot takes the worker's state and gives the next state and the signals
  that it emits, in order.  A \<open>QString\<close> is the \<open>string\<close> of its UTF-8 bytes (the texts of the
  messages are well-formed UTF-8, so that the conversions lose nothing).  \<open>connect\<close> gives the stub
  for an address, and the local file system is a map from paths to contents.
\<close>

section \<open>Data of the client\<close>

record agent_info_data =
  aid_hostname :: string
  aid_kernel_version :: string
  aid_uptime_seconds :: u64
  aid_agent_version :: string

record metrics_data =
  md_cpu_usage_percent :: double
  md_memory_total_bytes :: u64
  md_memory_available_bytes :: u64
  md_memory_used_bytes :: u64
  md_load_average_1m :: double
  md_load_average_5m :: double
  md_load_average_15m :: double
  md_uptime_seconds :: u64

record process_data =
  pd_pid :: i32
  pd_ppid :: i32
  pd_name :: string
  pd_state :: string
  pd_command_line :: string
  pd_cpu_usage_percent :: double
  pd_resident_memory_bytes :: u64
  pd_virtual_memory_bytes :: u64
  pd_thread_count :: u32
  pd_read_bytes :: u64
  pd_write_bytes :: u64
  pd_start_time_ticks :: u64

record interface_data =
  nd_name :: string
  nd_ipv4_addresses :: string
  nd_ipv6_addresses :: string
  nd_rx_bytes :: u64
  nd_tx_bytes :: u64
  nd_state :: string

record connection_data =
  cd_protocol :: string
  cd_local_endpoint :: string
  cd_remote_endpoint :: string
  cd_state :: string
  cd_inode :: u64
  cd_pid :: i32

record log_source_data =
  ld_id :: string
  ld_display_name :: string
  ld_available :: bool

record service_data =
  sd_name :: string
  sd_description :: string
  sd_load_state :: string
  sd_active_state :: string
  sd_sub_state :: string

definition convert_agent_info :: "agent_info_msg \<Rightarrow> agent_info_data" where
  "convert_agent_info r =
     \<lparr> aid_hostname = ai_hostname r, aid_kernel_version = ai_kernel_version r,
       aid_uptime_seconds = ai_uptime_seconds r, aid_agent_version = ai_agent_version r \<rparr>"

definition convert_metrics :: "metrics_msg \<Rightarrow> metrics_data" where
  "convert_metrics r =
     \<lparr> md_cpu_usage_percent = mm_cpu_usage_percent r,
       md_memory_total_bytes = mm_memory_total_bytes r,
       md_memory_available_bytes = mm_memory_available_bytes r,
       md_memory_used_bytes = mm_memory_used_bytes r,
       md_load_average_1m = mm_load_average_1m r,
       md_load_average_5m = mm_load_average_5m r,
       md_load_average_15m = mm_load_average_15m r,
       md_uptime_seconds = mm_uptime_seconds r \<rparr>"

definition convert_process :: "process_msg \<Rightarrow> process_data" where
  "convert_process p =
     \<lparr> pd_pid = pm_pid p, pd_ppid = pm_ppid p, pd_name = pm_name p, pd_state = pm_state p,
       pd_command_line = pm_command_line p, pd_cpu_usage_percent = pm_cpu_usage_percent p,
       pd_resident_memory_bytes = pm_resident_memory_bytes p,
       pd_virtual_memory_bytes = pm_virtual_memory_bytes p, pd_thread_count = pm_thread_count p,
       pd_read_bytes = pm_read_bytes p, pd_write_bytes = pm_write_bytes p,
       pd_start_time_ticks = pm_start_time_ticks p \<rparr>"

definition convert_interface :: "interface_msg \<Rightarrow> interface_data" where
  "convert_interface i =
     \<lparr> nd_name = im_name i,
       nd_ipv4_addresses = join '', '' (im_ipv4_addresses i),
       nd_ipv6_addresses = join '', '' (im_ipv6_addresses i),
       nd_rx_bytes = im_rx_bytes i, nd_tx_bytes = im_tx_bytes i, nd_state = im_state i \<rparr>"

text \<open>An address has no percent sign, so that the two arguments of \<open>"%1:%2"\<close> are put in one after the other.\<close>

definition convert_connection :: "connection_msg \<Rightarrow> connection_data" where
  "convert_connection c =
     \<lparr> cd_protocol = cm_protocol c,
       cd_local_endpoint = cm_local_address c @ '':'' @ show_u32 (cm_local_port c),
       cd_remote_endpoint = cm_remote_address c @ '':'' @ show_u32 (cm_remote_port c),
       cd_state = cm_state c, cd_inode = cm_inode c, cd_pid = cm_pid c \<rparr>"

definition convert_log_source :: "log_source_msg \<Rightarrow> log_source_data" where
  "convert_log_source l =
     \<lparr> ld_id = lm_id l, ld_display_name = lm_display_name l, ld_available = lm_available l \<rparr>"

definition convert_service :: "service_msg \<Rightarrow> service_data" where
  "convert_service s =
     \<lparr> sd_name = sm_name s, sd_description = sm_description s, sd_load_state = sm_load_state s,
       sd_active_state = sm_active_state s, sd_sub_state = sm_sub_state s \<rparr>"

section \<open>The worker\<close>

record rpc_worker =
  rw_client :: "stub option"
  rw_stream :: "(stub \<times> string \<times> string) option" \<comment> \<open>the stream that the second thread follows\<close>

datatype worker_signal =
    Connected agent_info_data | Disconnected
  | MetricsReady metrics_data | ProcessesReady "process_data list" | ProcessDetailsReady process_data
  | NetworkReady "interface_data list" "connection_data list"
  | LogsReady "log_source_data list" | LogContentReady "string list" bool
  | LogLineReady string | LogStreamStopped
  | ServicesReady "service_data list"
  | DiagnosticProgress u64 u64 | DiagnosticReady path u64
  | OperationSucceeded string
  | RpcError string string bool

datatype worker_request =
    RequestConnect string "16 word" | RequestDisconnect
  | RequestMetrics | RequestProcesses | RequestProcessDetails i32 | RequestProcessControl i32 int
  | RequestNetwork | RequestLogs | RequestLogContent string u32 string
  | RequestStartLogStream string string | RequestStopLogStream
  | RequestServices | RequestServiceControl string int

type_synonym slot = "rpc_worker \<Rightarrow> rpc_worker \<times> worker_signal list"

definition new_worker :: rpc_worker where
  "new_worker = \<lparr> rw_client = None, rw_stream = None \<rparr>"

text \<open>A lost connection drops the client.\<close>

definition connection_lost :: "status \<Rightarrow> bool" where
  "connection_lost st \<longleftrightarrow> fst st = Unavailable \<or> fst st = DeadlineExceeded"

definition emit_rpc_error :: "string \<Rightarrow> status \<Rightarrow> slot" where
  "emit_rpc_error operation st w =
     (if connection_lost st then w \<lparr> rw_client := None \<rparr> else w,
      [RpcError operation (snd st) (connection_lost st)])"

text \<open>Stopping cancels the stream and joins its thread.\<close>

definition stop_log_stream :: "rpc_worker \<Rightarrow> rpc_worker" where
  "stop_log_stream w = w \<lparr> rw_stream := None \<rparr>"

definition start_log_stream :: "string \<Rightarrow> string \<Rightarrow> slot" where
  "start_log_stream log_id keyword w =
     (let w = stop_log_stream w in
      case rw_client w of
        None \<Rightarrow> (w, [])
      | Some stb \<Rightarrow> (w \<lparr> rw_stream := Some (stb, log_id, keyword) \<rparr>, []))"

text \<open>What the second thread emits over its life; \<open>cancelled\<close> tells whether it was stopped.\<close>

definition stream_thread_signals :: "stub \<Rightarrow> string \<Rightarrow> string \<Rightarrow> bool \<Rightarrow> worker_signal list" where
  "stream_thread_signals stb log_id keyword cancelled =
     (let (emitted, st) =
            client_stream_log stb log_id keyword (\<lambda>line emitted. emitted @ [LogLineReady line]) (\<lambda>_. cancelled) []
      in emitted @
         (if \<not> status_ok st \<and> fst st \<noteq> Cancelled
          then [RpcError ''StreamLog'' (snd st) (fst st = Unavailable)] else []) @
         [LogStreamStopped])"

definition connect_to_agent :: "(string \<Rightarrow> stub) \<Rightarrow> string \<Rightarrow> 16 word \<Rightarrow> slot" where
  "connect_to_agent connect host port w =
     (let w = stop_log_stream w;
          target = host @ '':'' @ show_nat (unat port);
          stb = connect target;
          w = w \<lparr> rw_client := Some stb \<rparr>
      in case client_get_agent_info stb of
           Inl st \<Rightarrow> emit_rpc_error ''Connect'' st (w \<lparr> rw_client := None \<rparr>)
         | Inr response \<Rightarrow> (w, [Connected (convert_agent_info response)]))"

definition disconnect_from_agent :: slot where
  "disconnect_from_agent w = (stop_log_stream w \<lparr> rw_client := None \<rparr>, [Disconnected])"

definition refresh_metrics :: slot where
  "refresh_metrics w =
     (case rw_client w of
        None \<Rightarrow> (w, [])
      | Some stb \<Rightarrow>
          (case client_get_system_metrics stb of
             Inl st \<Rightarrow> emit_rpc_error ''GetSystemMetrics'' st w
           | Inr response \<Rightarrow> (w, [MetricsReady (convert_metrics response)])))"

definition refresh_processes :: slot where
  "refresh_processes w =
     (case rw_client w of
        None \<Rightarrow> (w, [])
      | Some stb \<Rightarrow>
          (case client_list_processes stb of
             Inl st \<Rightarrow> emit_rpc_error ''ListProcesses'' st w
           | Inr processes \<Rightarrow> (w, [ProcessesReady (map convert_process processes)])))"

definition get_process_details :: "i32 \<Rightarrow> slot" where
  "get_process_details pid w =
     (case rw_client w of
        None \<Rightarrow> (w, [])
      | Some stb \<Rightarrow>
          (case client_get_process_details stb pid of
             Inl st \<Rightarrow> emit_rpc_error ''GetProcessDetails'' st w
           | Inr process \<Rightarrow> (w, [ProcessDetailsReady (convert_process process)])))"

definition control_process :: "i32 \<Rightarrow> int \<Rightarrow> slot" where
  "control_process pid action w =
     (case rw_client w of
        None \<Rightarrow> (w, [])
      | Some stb \<Rightarrow>
          (case client_control_process stb pid action of
             Inl st \<Rightarrow> emit_rpc_error ''ControlProcess'' st w
           | Inr _ \<Rightarrow>
               (case refresh_processes w of
                  (w, signals) \<Rightarrow>
                    (w, OperationSucceeded (''Process '' @ show_int (sint pid) @ '' operation succeeded'') # signals))))"

definition refresh_network :: slot where
  "refresh_network w =
     (case rw_client w of
        None \<Rightarrow> (w, [])
      | Some stb \<Rightarrow>
          (case client_get_network_interfaces stb of
             Inl st \<Rightarrow> emit_rpc_error ''GetNetworkInterfaces'' st w
           | Inr interfaces \<Rightarrow>
               (case client_list_tcp_connections stb of
                  Inl st \<Rightarrow> emit_rpc_error ''ListTcpConnections'' st w
                | Inr connections \<Rightarrow>
                    (w, [NetworkReady (map convert_interface interfaces) (map convert_connection connections)]))))"

definition worker_list_logs :: slot where
  "worker_list_logs w =
     (case rw_client w of
        None \<Rightarrow> (w, [])
      | Some stb \<Rightarrow>
          (case client_list_logs stb of
             Inl st \<Rightarrow> emit_rpc_error ''ListLogs'' st w
           | Inr logs \<Rightarrow> (w, [LogsReady (map convert_log_source logs)])))"

definition worker_read_log :: "string \<Rightarrow> u32 \<Rightarrow> string \<Rightarrow> slot" where
  "worker_read_log log_id max_lines keyword w =
     (case rw_client w of
        None \<Rightarrow> (w, [])
      | Some stb \<Rightarrow>
          (case client_read_log stb log_id max_lines keyword of
             Inl st \<Rightarrow> emit_rpc_error ''ReadLog'' st w
           | Inr response \<Rightarrow> (w, [LogContentReady (lc_lines response) (lc_truncated response)])))"

definition refresh_services :: slot where
  "refresh_services w =
     (case rw_client w of
        None \<Rightarrow> (w, [])
      | Some stb \<Rightarrow>
          (case client_list_services stb of
             Inl st \<Rightarrow> emit_rpc_error ''ListServices'' st w
           | Inr services \<Rightarrow> (w, [ServicesReady (map convert_service services)])))"

definition worker_control_service :: "string \<Rightarrow> int \<Rightarrow> slot" where
  "worker_control_service name action w =
     (case rw_client w of
        None \<Rightarrow> (w, [])
      | Some stb \<Rightarrow>
          (case client_control_service stb name action of
             Inl st \<Rightarrow> emit_rpc_error ''ControlService'' st w
           | Inr _ \<Rightarrow>
               (case refresh_services w of
                  (w, signals) \<Rightarrow> (w, OperationSucceeded (''Service operation succeeded: '' @ name) # signals))))"

text \<open>The slot of each request of the window.\<close>

fun worker_step :: "(string \<Rightarrow> stub) \<Rightarrow> worker_request \<Rightarrow> slot" where
  "worker_step connect (RequestConnect host port) w = connect_to_agent connect host port w"
| "worker_step connect RequestDisconnect w = disconnect_from_agent w"
| "worker_step connect RequestMetrics w = refresh_metrics w"
| "worker_step connect RequestProcesses w = refresh_processes w"
| "worker_step connect (RequestProcessDetails pid) w = get_process_details pid w"
| "worker_step connect (RequestProcessControl pid action) w = control_process pid action w"
| "worker_step connect RequestNetwork w = refresh_network w"
| "worker_step connect RequestLogs w = worker_list_logs w"
| "worker_step connect (RequestLogContent log_id max_lines keyword) w = worker_read_log log_id max_lines keyword w"
| "worker_step connect (RequestStartLogStream log_id keyword) w = start_log_stream log_id keyword w"
| "worker_step connect RequestStopLogStream w = (stop_log_stream w, [])"
| "worker_step connect RequestServices w = refresh_services w"
| "worker_step connect (RequestServiceControl name action) w = worker_control_service name action w"

section \<open>Creating and downloading a bundle\<close>

text \<open>
  The local file: whether it can be opened, whether a write that brings it to a size succeeds,
  what is on disk of what was written when it is closed, and whether it can be removed (the results
  of \<open>close\<close> and \<open>QFile::remove\<close> are not checked).
\<close>

record local_disk =
  dk_opens :: bool
  dk_takes :: "nat \<Rightarrow> bool"
  dk_closed :: "string \<Rightarrow> string"
  dk_removes :: bool

type_synonym local_files = "path \<Rightarrow> string option"

record gui_download =
  gd_written :: string
  gd_received :: u64
  gd_local_write_failed :: bool
  gd_progress :: "worker_signal list"

definition gui_on_chunk :: "local_disk \<Rightarrow> u64 \<Rightarrow> chunk_msg \<Rightarrow> gui_download \<Rightarrow> gui_download \<times> bool" where
  "gui_on_chunk disk announced chunk g =
     (if ch_offset chunk \<noteq> gd_received g \<or> ch_total_size_bytes chunk \<noteq> announced
      then (g \<lparr> gd_local_write_failed := True \<rparr>, False)
      else if \<not> dk_takes disk (length (gd_written g) + length (ch_data chunk))
      then (g \<lparr> gd_local_write_failed := True \<rparr>, False)
      else
        (let now_received = gd_received g + word_of_nat (length (ch_data chunk)) in
         (g \<lparr> gd_written := gd_written g @ ch_data chunk, gd_received := now_received,
              gd_progress := gd_progress g @ [DiagnosticProgress now_received (ch_total_size_bytes chunk)] \<rparr>,
          True)))"

definition new_gui_download :: gui_download where
  "new_gui_download = \<lparr> gd_written = [], gd_received = 0, gd_local_write_failed = False, gd_progress = [] \<rparr>"

definition create_and_download_diagnostic ::
  "local_disk \<Rightarrow> path \<Rightarrow> local_files \<Rightarrow> rpc_worker \<Rightarrow> rpc_worker \<times> local_files \<times> worker_signal list" where
  "create_and_download_diagnostic disk destination files w =
     (case rw_client w of
        None \<Rightarrow> (w, files, [])
      | Some stb \<Rightarrow>
     (case client_create_diagnostic_bundle stb of
        Inl st \<Rightarrow>
          (case emit_rpc_error ''CreateDiagnosticBundle'' st w of (w, signals) \<Rightarrow> (w, files, signals))
      | Inr created \<Rightarrow>
          if \<not> dk_opens disk
          then (w, files, [RpcError ''DownloadDiagnosticBundle'' ''Cannot open the selected local file'' False])
          else
            (let (g, st) = client_download_diagnostic_bundle stb (bm_bundle_id created)
                   (gui_on_chunk disk (bm_total_size_bytes created)) new_gui_download
             in if gd_local_write_failed g \<or> \<not> status_ok st \<or> gd_received g \<noteq> bm_total_size_bytes created
                then
                  (let files = files(destination :=
                         (if dk_removes disk then None else Some (dk_closed disk (gd_written g)))) in
                   if gd_local_write_failed g
                   then (w, files, gd_progress g @
                          [RpcError ''DownloadDiagnosticBundle'' ''Local write failed or chunk sequence was invalid'' False])
                   else if \<not> status_ok st
                   then (case emit_rpc_error ''DownloadDiagnosticBundle'' st w of
                           (w, signals) \<Rightarrow> (w, files, gd_progress g @ signals))
                   else (w, files, gd_progress g @
                          [RpcError ''DownloadDiagnosticBundle'' ''Downloaded size does not match bundle size'' False]))
                else (w, files(destination \<mapsto> dk_closed disk (gd_written g)),
                      gd_progress g @ [DiagnosticReady destination (gd_received g)]))))"

section \<open>The client and the connection\<close>

lemmas slot_defs =
  connect_to_agent_def disconnect_from_agent_def refresh_metrics_def refresh_processes_def
  get_process_details_def control_process_def refresh_network_def worker_list_logs_def
  worker_read_log_def refresh_services_def worker_control_service_def start_log_stream_def
  stop_log_stream_def emit_rpc_error_def

fun opens_or_closes :: "worker_request \<Rightarrow> bool" where
  "opens_or_closes (RequestConnect _ _) = True"
| "opens_or_closes RequestDisconnect = True"
| "opens_or_closes _ = False"

text \<open>The signals that say that there is no connection any more.\<close>

fun tells_lost :: "worker_signal \<Rightarrow> bool" where
  "tells_lost Disconnected = True"
| "tells_lost (RpcError operation _ lost) = (lost \<or> operation = ''Connect'')"
| "tells_lost _ = False"

lemma worker_step_lost:
  "worker_step connect request w = (w', signals) \<Longrightarrow>
     (rw_client w = None \<and> \<not> opens_or_closes request \<longrightarrow> signals = [] \<and> rw_client w' = None) \<and>
     (list_ex tells_lost signals \<longrightarrow> rw_client w' = None) \<and>
     (rw_client w' = None \<longrightarrow> rw_client w = None \<or> list_ex tells_lost signals)"
  by (cases request) (auto simp: slot_defs Let_def split: option.splits sum.splits if_splits)

section \<open>Receiving a download\<close>

interpretation gui_receiver: chunk_receiver "gui_on_chunk disk announced" gd_written gd_received
  for disk announced
  by unfold_locales (auto simp: gui_on_chunk_def Let_def split: if_splits)

lemma gui_on_chunk_failed:
  "gui_on_chunk disk announced c g = (g', going_on) \<Longrightarrow> gd_local_write_failed g' \<longleftrightarrow> gd_local_write_failed g \<or> \<not> going_on"
  by (auto simp: gui_on_chunk_def Let_def split: if_splits)

lemma chunk_loop_failed:
  "chunk_loop (gui_on_chunk disk announced) g cs = (g', cancelled) \<Longrightarrow>
     gd_local_write_failed g' \<longleftrightarrow> gd_local_write_failed g \<or> cancelled"
proof (induction cs arbitrary: g)
  case (Cons c cs)
  obtain g1 going_on where step: "gui_on_chunk disk announced c g = (g1, going_on)"
    by fastforce
  show ?case
    using gui_on_chunk_failed [OF step] Cons by (cases going_on) (auto simp: step)
qed simp

text \<open>The progress reports of a download are never the last word.\<close>

definition is_progress :: "worker_signal \<Rightarrow> bool" where
  "is_progress s \<longleftrightarrow> (case s of DiagnosticProgress _ _ \<Rightarrow> True | _ \<Rightarrow> False)"

lemma gui_on_chunk_progress:
  "gui_on_chunk disk announced c g = (g', going_on) \<Longrightarrow> list_all is_progress (gd_progress g) \<Longrightarrow>
     list_all is_progress (gd_progress g')"
  by (auto simp: gui_on_chunk_def Let_def is_progress_def split: if_splits)

lemma chunk_loop_progress:
  "chunk_loop (gui_on_chunk disk announced) g cs = (g', cancelled) \<Longrightarrow> list_all is_progress (gd_progress g) \<Longrightarrow>
     list_all is_progress (gd_progress g')"
proof (induction cs arbitrary: g)
  case (Cons c cs)
  obtain g1 going_on where step: "gui_on_chunk disk announced c g = (g1, going_on)"
    by fastforce
  show ?case
    using gui_on_chunk_progress [OF step Cons.prems(2)] Cons by (cases going_on) (auto simp: step)
qed simp

text \<open>A download in which nothing failed locally has stored every chunk.\<close>

lemma gui_download_stored:
  assumes "client_download_diagnostic_bundle stb i (gui_on_chunk disk announced) new_gui_download = (g, st)"
    "\<not> gd_local_write_failed g"
  shows "gd_written g = concat (map ch_data (fst (stub_download_diagnostic_bundle stb download_deadline_ms i))) \<and>
    gd_received g = word_of_nat (length (gd_written g)) \<and>
    st = snd (stub_download_diagnostic_bundle stb download_deadline_ms i) False"
proof -
  obtain chunks finish where reader: "stub_download_diagnostic_bundle stb download_deadline_ms i = (chunks, finish)"
    by fastforce
  obtain cancelled where run: "chunk_loop (gui_on_chunk disk announced) new_gui_download chunks = (g, cancelled)"
      "st = finish cancelled"
    using assms(1) by (auto simp: client_download_diagnostic_bundle_def reader split: prod.splits)
  then have "\<not> cancelled"
    using chunk_loop_failed [OF run(1)] assms(2) by (simp add: new_gui_download_def)
  then show ?thesis
    using gui_receiver.chunk_loop_stored [of disk announced new_gui_download chunks g] run
    by (simp add: reader new_gui_download_def)
qed

text \<open>A disk that takes the rest of the buffer when a file is closed.\<close>

definition closes_fully :: "local_disk \<Rightarrow> bool" where
  "closes_fully disk \<longleftrightarrow> (\<forall>contents. dk_closed disk contents = contents)"

lemma create_and_download_cases:
  assumes run: "create_and_download_diagnostic disk destination files w = (w', files', signals)" and "rw_client w \<noteq> None"
  shows "\<exists>progress verdict. signals = progress @ [verdict] \<and> list_all is_progress progress \<and>
    (case verdict of
       DiagnosticReady p n \<Rightarrow>
         p = destination \<and>
         (\<exists>stb created chunks finish. rw_client w = Some stb \<and> client_create_diagnostic_bundle stb = Inr created \<and>
            stub_download_diagnostic_bundle stb download_deadline_ms (bm_bundle_id created) = (chunks, finish) \<and>
            status_ok (finish False) \<and> n = bm_total_size_bytes created \<and>
            n = word_of_nat (length (concat (map ch_data chunks))) \<and>
            files' = files(destination \<mapsto> dk_closed disk (concat (map ch_data chunks))) \<and>
            (closes_fully disk \<longrightarrow> files' destination = Some (concat (map ch_data chunks))))
     | RpcError _ _ _ \<Rightarrow>
         files' = files \<or>
         (if dk_removes disk then files' = files(destination := None) else (\<exists>part. files' = files(destination \<mapsto> part)))
     | _ \<Rightarrow> False)"
proof -
  obtain stb where stb: "rw_client w = Some stb"
    using assms(2) by blast
  show ?thesis
  proof (cases "client_create_diagnostic_bundle stb")
    case (Inl st)
    then show ?thesis
      using run by (auto simp: create_and_download_diagnostic_def stb emit_rpc_error_def)
  next
    case (Inr created)
    obtain g st where download: "client_download_diagnostic_bundle stb (bm_bundle_id created)
        (gui_on_chunk disk (bm_total_size_bytes created)) new_gui_download = (g, st)"
      using prod.exhaust by blast
    obtain chunks finish where reader:
        "stub_download_diagnostic_bundle stb download_deadline_ms (bm_bundle_id created) = (chunks, finish)"
      by fastforce
    have progress: "list_all is_progress (gd_progress g)"
      using download chunk_loop_progress [of disk "bm_total_size_bytes created" new_gui_download chunks]
      by (auto simp: client_download_diagnostic_bundle_def reader new_gui_download_def split: prod.splits)
    have stored: "gd_written g = concat (map ch_data chunks)" "gd_received g = word_of_nat (length (concat (map ch_data chunks)))"
        "st = finish False" if "\<not> gd_local_write_failed g"
      using gui_download_stored [OF download that] by (simp_all add: reader)
    consider "\<not> dk_opens disk"
      | "dk_opens disk" "gd_local_write_failed g \<or> \<not> status_ok st \<or> gd_received g \<noteq> bm_total_size_bytes created"
      | "dk_opens disk" "\<not> gd_local_write_failed g" "status_ok st" "gd_received g = bm_total_size_bytes created"
      by blast
    then show ?thesis
    proof cases
      case 1
      then show ?thesis
        using run by (auto simp: create_and_download_diagnostic_def stb Inr)
    next
      case 2
      then have "\<exists>e. signals = gd_progress g @ [e] \<and> (\<exists>a b c. e = RpcError a b c)" "files' = files(destination :=
          (if dk_removes disk then None else Some (dk_closed disk (gd_written g))))"
        using run by (auto simp: create_and_download_diagnostic_def stb Inr download Let_def emit_rpc_error_def split: if_splits)
      with progress show ?thesis
        by (cases "dk_removes disk") fastforce+
    next
      case 3
      then have "signals = gd_progress g @ [DiagnosticReady destination (gd_received g)]"
          "files' = files(destination \<mapsto> dk_closed disk (gd_written g))"
        using run by (auto simp: create_and_download_diagnostic_def stb Inr download Let_def)
      with progress show ?thesis
        using stored [OF 3(2)] 3(3,4) stb Inr reader by (fastforce simp: closes_fully_def)
    qed
  qed
qed

section \<open>Properties\<close>

text \<open>An Agent that cannot be reached, and one that has a bundle of three bytes.\<close>

definition offline_stub :: stub where
  "offline_stub =
     \<lparr> stub_get_agent_info = (\<lambda>_. Inl (Unavailable, ''down'')),
       stub_get_system_metrics = (\<lambda>_. Inl (Unavailable, ''down'')),
       stub_stream_system_metrics = (\<lambda>_. ([], \<lambda>_. (Unavailable, ''down''))),
       stub_list_processes = (\<lambda>_. Inl (Unavailable, ''down'')),
       stub_get_process_details = (\<lambda>_ _. Inl (Unavailable, ''down'')),
       stub_control_process = (\<lambda>_ _ _. Inl (Unavailable, ''down'')),
       stub_get_network_interfaces = (\<lambda>_. Inl (Unavailable, ''down'')),
       stub_list_tcp_connections = (\<lambda>_. Inl (Unavailable, ''down'')),
       stub_list_logs = (\<lambda>_. Inl (Unavailable, ''down'')),
       stub_read_log = (\<lambda>_ _ _ _. Inl (Unavailable, ''down'')),
       stub_stream_log = (\<lambda>_ _ _. ([], \<lambda>_. (Unavailable, ''down''))),
       stub_list_services = (\<lambda>_. Inl (Unavailable, ''down'')),
       stub_control_service = (\<lambda>_ _ _. Inl (Unavailable, ''down'')),
       stub_create_diagnostic_bundle = (\<lambda>_. Inl (Unavailable, ''down'')),
       stub_download_diagnostic_bundle = (\<lambda>_ _. ([], \<lambda>_. (Unavailable, ''down''))) \<rparr>"

definition bundle_stub :: stub where
  "bundle_stub = offline_stub
     \<lparr> stub_create_diagnostic_bundle := (\<lambda>_. Inr \<lparr> bm_bundle_id = ''7'', bm_filename = ''a'',
         bm_total_size_bytes = 3, bm_created_at_unix_seconds = 0 \<rparr>),
       stub_download_diagnostic_bundle := (\<lambda>_ _.
         ([\<lparr> ch_data = ''abc'', ch_offset = 0, ch_total_size_bytes = 3, ch_eof = True \<rparr>], \<lambda>_. ok_status)) \<rparr>"

lemma bundle_stub_download:
  "create_and_download_diagnostic \<lparr> dk_opens = True, dk_takes = (\<lambda>_. True), dk_closed = on_close, dk_removes = True \<rparr> ''f'' files
     (new_worker \<lparr> rw_client := Some bundle_stub \<rparr>) =
   (new_worker \<lparr> rw_client := Some bundle_stub \<rparr>, files(''f'' \<mapsto> on_close ''abc''),
    [DiagnosticProgress 3 3, DiagnosticReady ''f'' 3])"
  by (simp add: create_and_download_diagnostic_def client_create_diagnostic_bundle_def
      client_download_diagnostic_bundle_def bundle_stub_def new_gui_download_def gui_on_chunk_def status_ok_def Let_def)

text \<open>
  The result of closing the local file is not looked at: on a disk that cannot take what is still
  buffered then, the worker reports a bundle of three bytes as ready when the file is empty.
\<close>

lemma download_ready_unflushed:
  "\<exists>disk files'. snd (create_and_download_diagnostic disk ''f'' Map.empty (new_worker \<lparr> rw_client := Some bundle_stub \<rparr>)) =
     (files', [DiagnosticProgress 3 3, DiagnosticReady ''f'' 3]) \<and> files' ''f'' = Some []"
  by (rule exI [of _ "\<lparr> dk_opens = True, dk_takes = (\<lambda>_. True), dk_closed = (\<lambda>_. []), dk_removes = True \<rparr>"])
     (simp add: bundle_stub_download)

text \<open>
  The window never has to guess: a request to a worker without connection does nothing and
  is silent, unless it opens or closes one; and the worker drops its connection exactly when it
  emits a signal that says so.
\<close>

theorem worker_step_tells_lost:
  assumes "worker_step connect request w = (w', signals)"
  shows "(rw_client w = None \<and> \<not> opens_or_closes request \<longrightarrow> signals = [] \<and> rw_client w' = None) \<and>
    (list_ex tells_lost signals \<longrightarrow> rw_client w' = None) \<and>
    (rw_client w' = None \<longrightarrow> rw_client w = None \<or> list_ex tells_lost signals)"
  by (rule worker_step_lost [OF assms])

lemma worker_step_tells_lost_witness:
  "rw_client (fst (worker_step (\<lambda>_. offline_stub) RequestMetrics (new_worker \<lparr> rw_client := Some offline_stub \<rparr>))) = None"
proof -
  let ?step = "worker_step (\<lambda>_. offline_stub) RequestMetrics (new_worker \<lparr> rw_client := Some offline_stub \<rparr>)"
  have "list_ex tells_lost (snd ?step)"
    by (simp add: refresh_metrics_def client_get_system_metrics_def offline_stub_def emit_rpc_error_def connection_lost_def)
  then show ?thesis
    using worker_step_tells_lost [where w = "new_worker \<lparr> rw_client := Some offline_stub \<rparr>" and request = RequestMetrics,
      OF prod.collapse [symmetric]] by blast
qed

text \<open>
  C13.  A download on the desktop ends with exactly one verdict, after its progress reports.  When
  the verdict is that the bundle is ready, every chunk that the Agent sent has been written in order,
  in the announced size, and the Agent said \<open>OK\<close>; the file holds what the disk took of that when it
  was closed, which is all of it unless the last buffer was lost (\<open>closes_fully\<close>; the code does not
  look).  With any other verdict either nothing was touched, or the file at the destination is gone
  if it could be removed, and a part of a bundle may be left if not.
\<close>

theorem create_and_download_verdict:
  assumes "create_and_download_diagnostic disk destination files w = (w', files', signals)" "rw_client w \<noteq> None"
  shows "\<exists>progress verdict. signals = progress @ [verdict] \<and> list_all is_progress progress \<and>
    (case verdict of
       DiagnosticReady p n \<Rightarrow>
         p = destination \<and>
         (\<exists>stb created chunks finish. rw_client w = Some stb \<and> client_create_diagnostic_bundle stb = Inr created \<and>
            stub_download_diagnostic_bundle stb download_deadline_ms (bm_bundle_id created) = (chunks, finish) \<and>
            status_ok (finish False) \<and> n = bm_total_size_bytes created \<and>
            n = word_of_nat (length (concat (map ch_data chunks))) \<and>
            files' = files(destination \<mapsto> dk_closed disk (concat (map ch_data chunks))) \<and>
            (closes_fully disk \<longrightarrow> files' destination = Some (concat (map ch_data chunks))))
     | RpcError _ _ _ \<Rightarrow>
         files' = files \<or>
         (if dk_removes disk then files' = files(destination := None) else (\<exists>part. files' = files(destination \<mapsto> part)))
     | _ \<Rightarrow> False)"
  by (rule create_and_download_cases [OF assms])

lemma create_and_download_verdict_witness:
  "snd (snd (create_and_download_diagnostic \<lparr> dk_opens = True, dk_takes = (\<lambda>_. True), dk_closed = id, dk_removes = True \<rparr> ''f'' Map.empty
      (new_worker \<lparr> rw_client := Some bundle_stub \<rparr>))) = [DiagnosticProgress 3 3, DiagnosticReady ''f'' 3] \<and>
   (\<exists>progress verdict. [DiagnosticProgress 3 3, DiagnosticReady ''f'' 3] = progress @ [verdict] \<and> list_all is_progress progress)"
  using create_and_download_verdict [OF bundle_stub_download [where on_close = id and files = Map.empty]]
  by (auto simp: bundle_stub_download)

end
