(* ===== verification/Process_Table.thy ===== *)
theory Process_Table
  imports Rpc_Worker
begin

text \<open>
  \<open>client/src/ProcessTableModel.cpp\<close>: the processes as a table of six columns.  A \<open>QVariant\<close> is
  a value of the types that the table uses, \<open>Invalid\<close> without a value.  An index is valid when
  its row and column are those of a cell (the views pass no other, or none at all).
\<close>

datatype variant = Invalid | VInt int | VString string | VDouble double | VU64 u64 | VU32 u32

datatype table_role = DisplayRole | UserRole | OtherRole

abbreviation table_columns :: int where "table_columns \<equiv> 6"

definition row_count :: "bool \<Rightarrow> process_data list \<Rightarrow> int" where
  "row_count parent_valid processes = (if parent_valid then 0 else int (length processes))"

definition column_count :: "bool \<Rightarrow> int" where
  "column_count parent_valid = (if parent_valid then 0 else table_columns)"

definition bytes_per_mebibyte :: double where "bytes_per_mebibyte = Fin 1048576"
definition bytes_per_gibibyte :: double where "bytes_per_gibibyte = Fin 1073741824"

definition user_value :: "process_data \<Rightarrow> int \<Rightarrow> variant" where
  "user_value p column =
     (if column = 0 then VInt (sint (pd_pid p))
      else if column = 1 then VString (pd_name p)
      else if column = 2 then VDouble (pd_cpu_usage_percent p)
      else if column = 3 then VU64 (pd_resident_memory_bytes p)
      else if column = 4 then VString (pd_state p)
      else if column = 5 then VU32 (pd_thread_count p)
      else Invalid)"

definition display_value :: "process_data \<Rightarrow> int \<Rightarrow> variant" where
  "display_value p column =
     (if column = 0 then VInt (sint (pd_pid p))
      else if column = 1 then VString (pd_name p)
      else if column = 2 then VString (show_double_fixed 1 (pd_cpu_usage_percent p) @ ''%'')
      else if column = 3 then
        VString (show_double_fixed 1 (ddiv (double_of_u64 (pd_resident_memory_bytes p)) bytes_per_mebibyte) @ '' MiB'')
      else if column = 4 then VString (pd_state p)
      else if column = 5 then VU32 (pd_thread_count p)
      else Invalid)"

definition table_data :: "process_data list \<Rightarrow> bool \<Rightarrow> int \<Rightarrow> int \<Rightarrow> table_role \<Rightarrow> variant" where
  "table_data processes index_valid row column role =
     (if \<not> index_valid \<or> row < 0 \<or> row \<ge> int (length processes) then Invalid
      else
        (let p = processes ! nat row in
         case role of
           UserRole \<Rightarrow> user_value p column
         | DisplayRole \<Rightarrow> display_value p column
         | OtherRole \<Rightarrow> Invalid))"

text \<open>The default header of the base class is a parameter.\<close>

definition header_data :: "(int \<Rightarrow> bool \<Rightarrow> table_role \<Rightarrow> variant) \<Rightarrow> int \<Rightarrow> bool \<Rightarrow> table_role \<Rightarrow> variant" where
  "header_data base section_number horizontal role =
     (if \<not> horizontal \<or> role \<noteq> DisplayRole then base section_number horizontal role
      else if section_number = 0 then VString ''PID''
      else if section_number = 1 then VString ''Name''
      else if section_number = 2 then VString ''CPU''
      else if section_number = 3 then VString ''Memory''
      else if section_number = 4 then VString ''State''
      else if section_number = 5 then VString ''Threads''
      else Invalid)"

definition process_at :: "process_data list \<Rightarrow> int \<Rightarrow> process_data option" where
  "process_at processes row =
     (if row < 0 \<or> row \<ge> int (length processes) then None else Some (processes ! nat row))"

text \<open>Every cell of the table has a value to show and a value to sort by, and no other place has.\<close>

lemma table_data_cells:
  assumes "role \<noteq> OtherRole"
  shows "table_data processes True row column role \<noteq> Invalid \<longleftrightarrow>
    0 \<le> row \<and> row < row_count False processes \<and> 0 \<le> column \<and> column < column_count False"
  using assms
  by (cases role) (auto simp: table_data_def user_value_def display_value_def row_count_def column_count_def Let_def)

lemma process_at_set: "process_at processes row = Some p \<Longrightarrow> p \<in> set processes"
  by (auto simp: process_at_def split: if_splits)

end
