(* ===== verification/Main_Window.thy ===== *)
theory Main_Window
  imports Process_Table Agent_Config Bounded_Store
begin

text \<open>
  \<open>client/src/MainWindow.cpp\<close>: the window of the desktop client.  The state are the contents of
  the widgets that the code changes and which of them can be used; a click, an edit, a timer or a
  signal of the worker is an event.  An event gives the next state and what the window asks for
  or shows.  The view of the processes is sorted and filtered by Qt, so that an event that needs
  the selected process has the row of the model that the view maps the selection to.
\<close>

section \<open>The window\<close>

record window =
  w_status :: string
  w_host :: string
  w_port :: "16 word"
  w_connect_enabled :: bool
  w_disconnect_enabled :: bool
  w_reconnect_enabled :: bool
  w_network_refresh_enabled :: bool
  w_log_refresh_enabled :: bool
  w_stream_start_enabled :: bool
  w_stream_stop_enabled :: bool
  w_service_refresh_enabled :: bool
  w_diagnostic_enabled :: bool
  w_host_enabled :: bool
  w_port_enabled :: bool
  w_metrics_timer :: bool
  w_processes_timer :: bool
  w_hostname :: string
  w_kernel :: string
  w_agent_version :: string
  w_uptime :: string
  w_cpu :: string
  w_memory :: string
  w_available_memory :: string
  w_load :: string
  w_process_filter :: string
  w_processes :: "process_data list"
  w_details :: string
  w_interface_rows :: "string list list"
  w_connection_rows :: "string list list"
  w_log_items :: "(string \<times> string) list" \<comment> \<open>label and id\<close>
  w_log_lines :: u32
  w_log_keyword :: string
  w_log_output :: "string list"
  w_service_rows :: "string list list"
  w_progress :: int
  w_diagnostic_status :: string
  w_message :: string
  w_boxes :: nat \<comment> \<open>open boxes about a connection that has failed\<close>

text \<open>What an event leads to: a request to the worker, or a box on the screen.\<close>

datatype window_effect =
    Request worker_request | DownloadTo path
  | Warning string string | Information string string

type_synonym handler = "window \<Rightarrow> window \<times> window_effect list"

abbreviation maximum_log_blocks :: nat where "maximum_log_blocks \<equiv> 2000"

section \<open>Texts\<close>

definition format_bytes :: "u64 \<Rightarrow> string" where
  "format_bytes bytes =
     (if \<not> dless (double_of_u64 bytes) bytes_per_gibibyte
      then show_double_fixed 1 (ddiv (double_of_u64 bytes) bytes_per_gibibyte) @ '' GiB''
      else show_double_fixed 1 (ddiv (double_of_u64 bytes) bytes_per_mebibyte) @ '' MiB'')"

definition interface_cells :: "interface_data \<Rightarrow> string list" where
  "interface_cells i =
     [nd_name i, nd_ipv4_addresses i, nd_ipv6_addresses i, nd_state i,
      format_bytes (nd_rx_bytes i), format_bytes (nd_tx_bytes i)]"

definition connection_cells :: "connection_data \<Rightarrow> string list" where
  "connection_cells c =
     [cd_protocol c, cd_local_endpoint c, cd_remote_endpoint c, cd_state c,
      if cd_pid c = 0 then ''-'' else show_int (sint (cd_pid c)), show_u64 (cd_inode c)]"

definition service_cells :: "service_data \<Rightarrow> string list" where
  "service_cells s = [sd_name s, sd_description s, sd_load_state s, sd_active_state s, sd_sub_state s]"

text \<open>The headers of the tables, as they are built; a row has a cell for each of them.\<close>

definition interface_headers :: "string list" where
  "interface_headers = [''Interface'', ''IPv4'', ''IPv6'', ''State'', ''RX'', ''TX'']"

definition connection_headers :: "string list" where
  "connection_headers = [''Protocol'', ''Local'', ''Remote'', ''State'', ''PID'', ''Inode'']"

definition service_headers :: "string list" where
  "service_headers = [''Service'', ''Description'', ''Load'', ''Active'', ''Sub-state'']"

lemma cells_match_headers:
  "length (interface_cells i) = length interface_headers"
  "length (connection_cells c) = length connection_headers"
  "length (service_cells s) = length service_headers"
  by (simp_all add: interface_cells_def interface_headers_def connection_cells_def connection_headers_def
      service_cells_def service_headers_def)

section \<open>Connected or not\<close>

definition set_connected :: "bool \<Rightarrow> window \<Rightarrow> window" where
  "set_connected is_connected w =
     (let w = w \<lparr> w_status := (if is_connected then ''Connected'' else ''Disconnected''),
                  w_connect_enabled := \<not> is_connected, w_disconnect_enabled := is_connected,
                  w_reconnect_enabled := is_connected, w_network_refresh_enabled := is_connected,
                  w_log_refresh_enabled := is_connected, w_stream_start_enabled := is_connected,
                  w_stream_stop_enabled := False, w_service_refresh_enabled := is_connected,
                  w_diagnostic_enabled := is_connected, w_host_enabled := \<not> is_connected,
                  w_port_enabled := \<not> is_connected \<rparr>
      in if is_connected then w else w \<lparr> w_metrics_timer := False, w_processes_timer := False \<rparr>)"

text \<open>The widgets as they are built, and the state after the constructor.\<close>

definition built_window :: window where
  "built_window =
     \<lparr> w_status = ''Disconnected'', w_host = ''127.0.0.1'', w_port = 50051,
       w_connect_enabled = True, w_disconnect_enabled = True, w_reconnect_enabled = True,
       w_network_refresh_enabled = True, w_log_refresh_enabled = True, w_stream_start_enabled = True,
       w_stream_stop_enabled = True, w_service_refresh_enabled = True, w_diagnostic_enabled = True,
       w_host_enabled = True, w_port_enabled = True, w_metrics_timer = False, w_processes_timer = False,
       w_hostname = ''-'', w_kernel = ''-'', w_agent_version = ''-'', w_uptime = ''-'', w_cpu = ''-'',
       w_memory = ''-'', w_available_memory = ''-'', w_load = ''-'',
       w_process_filter = [], w_processes = [], w_details = [], w_interface_rows = [], w_connection_rows = [], w_log_items = [],
       w_log_lines = 200, w_log_keyword = [], w_log_output = [], w_service_rows = [], w_progress = 0,
       w_diagnostic_status = ''No diagnostic bundle downloaded.'', w_message = [], w_boxes = 0 \<rparr>"

definition new_window :: window where
  "new_window = set_connected False built_window"

definition stop_timers :: "window \<Rightarrow> window" where
  "stop_timers w = w \<lparr> w_metrics_timer := False, w_processes_timer := False \<rparr>"

definition show_message :: "string \<Rightarrow> window \<Rightarrow> window" where
  "show_message text_shown w = w \<lparr> w_message := text_shown \<rparr>"

section \<open>The buttons\<close>

definition click_connect :: handler where
  "click_connect w =
     (let host = trim (w_host w) in
      if host = [] then (w, [Warning ''Invalid address'' ''Agent address cannot be empty.''])
      else (w \<lparr> w_status := ''Connecting...'', w_connect_enabled := False \<rparr>,
            [Request (RequestConnect host (w_port w))]))"

definition click_disconnect :: handler where
  "click_disconnect w = (stop_timers w, [Request RequestStopLogStream, Request RequestDisconnect])"

definition click_reconnect :: handler where
  "click_reconnect w =
     ((stop_timers w) \<lparr> w_status := ''Reconnecting...'' \<rparr>,
      [Request RequestStopLogStream, Request RequestDisconnect,
       Request (RequestConnect (trim (w_host w)) (w_port w))])"

text \<open>The destructor stops the timers and waits until the worker has disconnected.\<close>

definition close_window :: handler where
  "close_window w = (stop_timers w, [Request RequestDisconnect])"

text \<open>The process of the row that is selected (of the unsorted table; none is a negative row).\<close>

definition selected_pid :: "int \<Rightarrow> window \<Rightarrow> i32" where
  "selected_pid row w =
     (case process_at (w_processes w) row of None \<Rightarrow> 0 | Some p \<Rightarrow> pd_pid p)"

definition show_selected_process_details :: "int \<Rightarrow> handler" where
  "show_selected_process_details row w =
     (let pid = selected_pid row w in
      if sint pid \<le> 0 then (w, [Information ''Process details'' ''Select a process first.''])
      else (w, [Request (RequestProcessDetails pid)]))"

text \<open>\<open>confirmed\<close> is the answer to the question, whose text names the process.\<close>

definition confirm_process_control :: "int \<Rightarrow> (string \<Rightarrow> bool) \<Rightarrow> string \<Rightarrow> int \<Rightarrow> handler" where
  "confirm_process_control action confirmed action_name row w =
     (let pid = selected_pid row w in
      if sint pid \<le> 0 then (w, [Information ''Process control'' ''Select a process first.''])
      else if confirmed (''Really '' @ action_name @ '' process '' @ show_int (sint pid) @ ''?'')
      then (w, [Request (RequestProcessControl pid action)]) else (w, []))"

definition confirm_service_control :: "int \<Rightarrow> (string \<Rightarrow> bool) \<Rightarrow> string \<Rightarrow> int \<Rightarrow> handler" where
  "confirm_service_control action confirmed action_name row w =
     (if row < 0 \<or> row \<ge> int (length (w_service_rows w)) \<or> w_service_rows w ! nat row = []
      then (w, [Information ''Service control'' ''Select an allowed service first.''])
      else
        (let name = hd (w_service_rows w ! nat row) in
         if confirmed (''Really '' @ action_name @ '' '' @ name @ ''?'')
         then (w, [Request (RequestServiceControl name action)]) else (w, [])))"

text \<open>The id of the log that is chosen: empty without a choice.\<close>

definition chosen_log :: "int \<Rightarrow> window \<Rightarrow> string" where
  "chosen_log index w =
     (if index < 0 \<or> index \<ge> int (length (w_log_items w)) then [] else snd (w_log_items w ! nat index))"

definition click_read_log :: "int \<Rightarrow> handler" where
  "click_read_log index w =
     (let log_id = chosen_log index w in
      if log_id = [] then (w, [Information ''Logs'' ''No log source selected.''])
      else (w, [Request (RequestLogContent log_id (w_log_lines w) (w_log_keyword w))]))"

definition click_start_stream :: "int \<Rightarrow> handler" where
  "click_start_stream index w =
     (let log_id = chosen_log index w in
      if log_id = [] then (w, [Information ''Logs'' ''No log source selected.''])
      else (w \<lparr> w_stream_start_enabled := False, w_stream_stop_enabled := True \<rparr>,
            [Request (RequestStartLogStream log_id (w_log_keyword w))]))"

definition create_diagnostic :: "path \<Rightarrow> handler" where
  "create_diagnostic destination w =
     (if destination = [] then (w, [])
      else (w \<lparr> w_diagnostic_enabled := False, w_progress := 0,
                w_diagnostic_status := ''Creating diagnostic bundle on Agent...'' \<rparr>,
            [DownloadTo destination]))"

section \<open>The signals of the worker\<close>

definition handle_connected :: "agent_info_data \<Rightarrow> handler" where
  "handle_connected agent_info w =
     (let w = w \<lparr> w_hostname := aid_hostname agent_info, w_kernel := aid_kernel_version agent_info,
                  w_agent_version := aid_agent_version agent_info,
                  w_uptime := show_u64 (aid_uptime_seconds agent_info) @ '' s'' \<rparr>
      in ((set_connected True w) \<lparr> w_metrics_timer := True, w_processes_timer := True \<rparr>,
          [Request RequestMetrics, Request RequestProcesses, Request RequestNetwork, Request RequestLogs,
           Request RequestServices]))"

definition handle_disconnected :: "window \<Rightarrow> window" where
  "handle_disconnected w = show_message ''Disconnected from Agent'' (set_connected False w)"

definition update_metrics :: "metrics_data \<Rightarrow> window \<Rightarrow> window" where
  "update_metrics m w =
     w \<lparr> w_cpu := show_double_fixed 1 (md_cpu_usage_percent m) @ ''%'',
         w_memory := format_bytes (md_memory_used_bytes m) @ '' / '' @ format_bytes (md_memory_total_bytes m),
         w_available_memory := format_bytes (md_memory_available_bytes m),
         w_load := show_double_fixed 2 (md_load_average_1m m) @ '' / '' @ show_double_fixed 2 (md_load_average_5m m) @
           '' / '' @ show_double_fixed 2 (md_load_average_15m m),
         w_uptime := show_u64 (md_uptime_seconds m) @ '' s'' \<rparr>"

definition update_processes :: "process_data list \<Rightarrow> window \<Rightarrow> window" where
  "update_processes processes w =
     show_message (''Loaded '' @ show_nat (length processes) @ '' processes'') (w \<lparr> w_processes := processes \<rparr>)"

text \<open>
  The template of the details and its values in order; \<open>arg\<close> is the \<open>QString::arg\<close> of Qt, which
  replaces one place of the template.
\<close>

definition details_template :: string where
  "details_template =
     ''PID: %1'' @ newline @ ''PPID: %2'' @ newline @ ''Name: %3'' @ newline @ ''State: %4'' @ newline @
     ''Command: %5'' @ newline @ ''CPU: %6%'' @ newline @ ''RSS: %7'' @ newline @ ''VmSize: %8'' @ newline @
     ''Threads: %9'' @ newline @ ''Read bytes: %10'' @ newline @ ''Write bytes: %11'' @ newline @ ''Start ticks: %12''"

definition update_process_details :: "(string \<Rightarrow> string \<Rightarrow> string) \<Rightarrow> process_data \<Rightarrow> window \<Rightarrow> window" where
  "update_process_details arg p w =
     w \<lparr> w_details := foldl arg details_template
           [show_int (sint (pd_pid p)), show_int (sint (pd_ppid p)), pd_name p, pd_state p, pd_command_line p,
            show_double_fixed 1 (pd_cpu_usage_percent p), format_bytes (pd_resident_memory_bytes p),
            format_bytes (pd_virtual_memory_bytes p), show_u32 (pd_thread_count p), show_u64 (pd_read_bytes p),
            show_u64 (pd_write_bytes p), show_u64 (pd_start_time_ticks p)] \<rparr>"

definition update_network :: "interface_data list \<Rightarrow> connection_data list \<Rightarrow> window \<Rightarrow> window" where
  "update_network interfaces connections w =
     show_message (''Loaded '' @ show_nat (length interfaces) @ '' interfaces and '' @
         show_nat (length connections) @ '' TCP connections'')
       (w \<lparr> w_interface_rows := map interface_cells interfaces,
            w_connection_rows := map connection_cells connections \<rparr>)"

definition update_logs :: "log_source_data list \<Rightarrow> window \<Rightarrow> window" where
  "update_logs logs w =
     w \<lparr> w_log_items :=
           map (\<lambda>l. (ld_display_name l @ (if ld_available l then [] else '' (unavailable)''), ld_id l)) logs \<rparr>"

definition update_log_content :: "string list \<Rightarrow> bool \<Rightarrow> window \<Rightarrow> window" where
  "update_log_content lines truncated w =
     show_message (''Loaded '' @ show_nat (length lines) @ '' log lines'' @
         (if truncated then '' (result truncated)'' else []))
       (w \<lparr> w_log_output := take_last maximum_log_blocks lines \<rparr>)"

definition append_log_line :: "string \<Rightarrow> window \<Rightarrow> window" where
  "append_log_line line w = w \<lparr> w_log_output := take_last maximum_log_blocks (w_log_output w @ [line]) \<rparr>"

definition handle_log_stream_stopped :: "window \<Rightarrow> window" where
  "handle_log_stream_stopped w =
     w \<lparr> w_stream_stop_enabled := False, w_stream_start_enabled := (w_status w = ''Connected'') \<rparr>"

definition update_services :: "service_data list \<Rightarrow> window \<Rightarrow> window" where
  "update_services services w =
     show_message (''Loaded '' @ show_nat (length services) @ '' allowed services'')
       (w \<lparr> w_service_rows := map service_cells services \<rparr>)"

text \<open>The bar shows values from 0 to 100 and ignores others; the product may wrap around.\<close>

definition set_progress :: "int \<Rightarrow> window \<Rightarrow> window" where
  "set_progress n w = (if 0 \<le> n \<and> n \<le> 100 then w \<lparr> w_progress := n \<rparr> else w)"

definition update_diagnostic_progress :: "u64 \<Rightarrow> u64 \<Rightarrow> window \<Rightarrow> window" where
  "update_diagnostic_progress received_bytes total_bytes w =
     (let percent = (if total_bytes = 0 then 0 else sint (ucast ((received_bytes * 100) div total_bytes) :: i32))
      in (set_progress percent w)
           \<lparr> w_diagnostic_status := ''Downloading: '' @ format_bytes received_bytes @ '' / '' @ format_bytes total_bytes \<rparr>)"

definition diagnostic_completed :: "path \<Rightarrow> u64 \<Rightarrow> window \<Rightarrow> window" where
  "diagnostic_completed p size_bytes w =
     show_message ''Diagnostic bundle downloaded''
       ((set_progress 100 w)
          \<lparr> w_diagnostic_enabled := True,
            w_diagnostic_status := ''Saved '' @ format_bytes size_bytes @ '' to '' @ p \<rparr>)"

text \<open>
  A box is modal, but signals of the worker and timers are handled while it is open.  After the box
  about a failed \<open>Connect\<close> the window is set to disconnected, when the user has closed it; after the
  others nothing is left to do.
\<close>

definition handle_rpc_error :: "string \<Rightarrow> string \<Rightarrow> bool \<Rightarrow> handler" where
  "handle_rpc_error operation message connection_is_lost w =
     (let w = (if operation = ''CreateDiagnosticBundle'' \<or> operation = ''DownloadDiagnosticBundle''
               then w \<lparr> w_diagnostic_enabled := True \<rparr> else w);
          w = show_message (operation @ '': '' @ message) w
      in if connection_is_lost
         then (set_connected False (stop_timers w),
               [Request RequestStopLogStream, Warning ''Agent connection lost'' message])
         else (if operation = ''Connect'' then w \<lparr> w_boxes := w_boxes w + 1 \<rparr> else w,
               [Warning (operation @ '' failed'') message]))"

definition close_connect_box :: "window \<Rightarrow> window" where
  "close_connect_box w = (set_connected False w) \<lparr> w_boxes := w_boxes w - 1 \<rparr>"

fun handle_signal :: "(string \<Rightarrow> string \<Rightarrow> string) \<Rightarrow> worker_signal \<Rightarrow> handler" where
  "handle_signal arg (Connected agent_info) w = handle_connected agent_info w"
| "handle_signal arg Disconnected w = (handle_disconnected w, [])"
| "handle_signal arg (MetricsReady m) w = (update_metrics m w, [])"
| "handle_signal arg (ProcessesReady processes) w = (update_processes processes w, [])"
| "handle_signal arg (ProcessDetailsReady p) w = (update_process_details arg p w, [])"
| "handle_signal arg (NetworkReady interfaces connections) w = (update_network interfaces connections w, [])"
| "handle_signal arg (LogsReady logs) w = (update_logs logs w, [])"
| "handle_signal arg (LogContentReady lines truncated) w = (update_log_content lines truncated w, [])"
| "handle_signal arg (LogLineReady line) w = (append_log_line line w, [])"
| "handle_signal arg LogStreamStopped w = (handle_log_stream_stopped w, [])"
| "handle_signal arg (ServicesReady services) w = (update_services services w, [])"
| "handle_signal arg (DiagnosticProgress received_bytes total_bytes) w =
     (update_diagnostic_progress received_bytes total_bytes w, [])"
| "handle_signal arg (DiagnosticReady p size_bytes) w = (diagnostic_completed p size_bytes w, [])"
| "handle_signal arg (OperationSucceeded message) w = (show_message message w, [])"
| "handle_signal arg (RpcError operation message connection_is_lost) w =
     handle_rpc_error operation message connection_is_lost w"

section \<open>Events\<close>

datatype process_button = TerminateButton | KillButton | StopButton | ContinueButton
datatype service_button = StartButton | StopServiceButton | RestartButton

fun process_button_action :: "process_button \<Rightarrow> int \<times> string" where
  "process_button_action TerminateButton = (1, ''terminate'')"
| "process_button_action KillButton = (2, ''kill'')"
| "process_button_action StopButton = (3, ''stop'')"
| "process_button_action ContinueButton = (4, ''continue'')"

fun service_button_action :: "service_button \<Rightarrow> int \<times> string" where
  "service_button_action StartButton = (1, ''start'')"
| "service_button_action StopServiceButton = (2, ''stop'')"
| "service_button_action RestartButton = (3, ''restart'')"

datatype window_event =
    EditHost string | EditPort "16 word" | EditLogLines u32 | EditKeyword string
  | EditProcessFilter string
  | ClickConnect | ClickDisconnect | ClickReconnect
  | MetricsTimeout | ProcessesTimeout
  | ClickDetails int | ClickProcess process_button "string \<Rightarrow> bool" int
  | ClickRefreshNetwork | ClickReadLog int | ClickStartStream int | ClickStopStream
  | ClickRefreshServices | ClickService service_button "string \<Rightarrow> bool" int
  | ClickDiagnostic path | CloseConnectBox

text \<open>
  Qt delivers no click to a disabled widget, and no timeout of a stopped timer.  While a box is open
  the user can only close it.
\<close>

fun widget_enabled :: "window_event \<Rightarrow> window \<Rightarrow> bool" where
  "widget_enabled (EditHost _) w = w_host_enabled w"
| "widget_enabled (EditPort p) w = (w_port_enabled w \<and> p \<noteq> 0)"
| "widget_enabled (EditLogLines n) w = (1 \<le> n \<and> n \<le> 1000)"
| "widget_enabled ClickConnect w = w_connect_enabled w"
| "widget_enabled ClickDisconnect w = w_disconnect_enabled w"
| "widget_enabled ClickReconnect w = w_reconnect_enabled w"
| "widget_enabled ClickRefreshNetwork w = w_network_refresh_enabled w"
| "widget_enabled (ClickReadLog _) w = w_log_refresh_enabled w"
| "widget_enabled (ClickStartStream _) w = w_stream_start_enabled w"
| "widget_enabled ClickStopStream w = w_stream_stop_enabled w"
| "widget_enabled ClickRefreshServices w = w_service_refresh_enabled w"
| "widget_enabled (ClickDiagnostic _) w = w_diagnostic_enabled w"
| "widget_enabled _ w = True"

fun event_enabled :: "window_event \<Rightarrow> window \<Rightarrow> bool" where
  "event_enabled CloseConnectBox w = (0 < w_boxes w)"
| "event_enabled MetricsTimeout w = w_metrics_timer w"
| "event_enabled ProcessesTimeout w = w_processes_timer w"
| "event_enabled ev w = (w_boxes w = 0 \<and> widget_enabled ev w)"

fun handle_event :: "window_event \<Rightarrow> handler" where
  "handle_event (EditHost host) w = (w \<lparr> w_host := host \<rparr>, [])"
| "handle_event (EditPort port) w = (w \<lparr> w_port := port \<rparr>, [])"
| "handle_event (EditLogLines n) w = (w \<lparr> w_log_lines := n \<rparr>, [])"
| "handle_event (EditKeyword keyword) w = (w \<lparr> w_log_keyword := keyword \<rparr>, [])"
| "handle_event (EditProcessFilter pattern) w = (w \<lparr> w_process_filter := pattern \<rparr>, [])"
| "handle_event ClickConnect w = click_connect w"
| "handle_event ClickDisconnect w = click_disconnect w"
| "handle_event ClickReconnect w = click_reconnect w"
| "handle_event MetricsTimeout w = (w, [Request RequestMetrics])"
| "handle_event ProcessesTimeout w = (w, [Request RequestProcesses])"
| "handle_event (ClickDetails row) w = show_selected_process_details row w"
| "handle_event (ClickProcess button confirmed row) w =
     (case process_button_action button of
        (action, action_name) \<Rightarrow> confirm_process_control action confirmed action_name row w)"
| "handle_event ClickRefreshNetwork w = (w, [Request RequestNetwork])"
| "handle_event (ClickReadLog index) w = click_read_log index w"
| "handle_event (ClickStartStream index) w = click_start_stream index w"
| "handle_event ClickStopStream w = (w, [Request RequestStopLogStream])"
| "handle_event ClickRefreshServices w = (w, [Request RequestServices])"
| "handle_event (ClickService button confirmed row) w =
     (case service_button_action button of
        (action, action_name) \<Rightarrow> confirm_service_control action confirmed action_name row w)"
| "handle_event (ClickDiagnostic destination) w = create_diagnostic destination w"
| "handle_event CloseConnectBox w = (close_connect_box w, [])"

text \<open>The steps of the window and the states that it can reach.\<close>

inductive window_step :: "(string \<Rightarrow> string \<Rightarrow> string) \<Rightarrow> window \<Rightarrow> window_effect list \<Rightarrow> window \<Rightarrow> bool"
  for arg :: "string \<Rightarrow> string \<Rightarrow> string" where
  event: "event_enabled ev w \<Longrightarrow> handle_event ev w = (w', effects) \<Longrightarrow> window_step arg w effects w'"
| signal: "handle_signal arg s w = (w', effects) \<Longrightarrow> window_step arg w effects w'"

inductive window_reachable :: "(string \<Rightarrow> string \<Rightarrow> string) \<Rightarrow> window \<Rightarrow> bool"
  for arg :: "string \<Rightarrow> string \<Rightarrow> string" where
  start: "window_reachable arg new_window"
| step: "window_reachable arg w \<Longrightarrow> window_step arg w effects w' \<Longrightarrow> window_reachable arg w'"

inductive_cases window_step_cases: "window_step arg w effects w'"

section \<open>What the widgets say together\<close>

lemmas handler_defs =
  click_connect_def click_disconnect_def click_reconnect_def show_selected_process_details_def
  confirm_process_control_def confirm_service_control_def click_read_log_def click_start_stream_def
  create_diagnostic_def stop_timers_def

lemmas signal_defs =
  handle_connected_def handle_disconnected_def update_metrics_def update_processes_def
  update_process_details_def update_network_def update_logs_def update_log_content_def
  append_log_line_def handle_log_stream_stopped_def update_services_def set_progress_def
  update_diagnostic_progress_def diagnostic_completed_def handle_rpc_error_def close_connect_box_def show_message_def
  set_connected_def stop_timers_def

text \<open>Connected or not is what the \<open>Disconnect\<close> button shows; it follows the signals.\<close>

abbreviation window_connected :: "window \<Rightarrow> bool" where
  "window_connected \<equiv> w_disconnect_enabled"

definition window_ok :: "window \<Rightarrow> bool" where
  "window_ok w \<longleftrightarrow>
     w_reconnect_enabled w = window_connected w \<and>
     w_network_refresh_enabled w = window_connected w \<and>
     w_log_refresh_enabled w = window_connected w \<and>
     w_service_refresh_enabled w = window_connected w \<and>
     w_host_enabled w = (\<not> window_connected w) \<and>
     w_port_enabled w = (\<not> window_connected w) \<and>
     w_processes_timer w = w_metrics_timer w \<and>
     (w_connect_enabled w \<longrightarrow> \<not> window_connected w) \<and>
     (w_metrics_timer w \<longrightarrow> window_connected w) \<and>
     (w_stream_start_enabled w \<longrightarrow> window_connected w \<and> \<not> w_stream_stop_enabled w) \<and>
     (w_stream_stop_enabled w \<longrightarrow> window_connected w) \<and>
     (window_connected w \<longrightarrow> w_status w = ''Connected'' \<or> w_status w = ''Reconnecting...'') \<and>
     (\<not> window_connected w \<longrightarrow>
        w_status w = (if w_connect_enabled w then ''Disconnected'' else ''Connecting...'')) \<and>
     length (w_log_output w) \<le> maximum_log_blocks \<and> 0 \<le> w_progress w \<and> w_progress w \<le> 100"

lemma window_ok_set_connected:
  "window_ok (set_connected c w) \<longleftrightarrow> length (w_log_output w) \<le> maximum_log_blocks \<and> 0 \<le> w_progress w \<and> w_progress w \<le> 100
     \<and> (c \<longrightarrow> w_processes_timer w = w_metrics_timer w)"
  by (auto simp: window_ok_def set_connected_def Let_def)

text \<open>What a text or a table on the screen shows does not matter to it.\<close>

lemma window_ok_update [simp]:
  "window_ok (w \<lparr> w_host := a \<rparr>) = window_ok w"
  "window_ok (w \<lparr> w_port := b \<rparr>) = window_ok w"
  "window_ok (w \<lparr> w_hostname := a \<rparr>) = window_ok w"
  "window_ok (w \<lparr> w_kernel := a \<rparr>) = window_ok w"
  "window_ok (w \<lparr> w_agent_version := a \<rparr>) = window_ok w"
  "window_ok (w \<lparr> w_uptime := a \<rparr>) = window_ok w"
  "window_ok (w \<lparr> w_cpu := a \<rparr>) = window_ok w"
  "window_ok (w \<lparr> w_memory := a \<rparr>) = window_ok w"
  "window_ok (w \<lparr> w_available_memory := a \<rparr>) = window_ok w"
  "window_ok (w \<lparr> w_load := a \<rparr>) = window_ok w"
  "window_ok (w \<lparr> w_process_filter := a \<rparr>) = window_ok w"
  "window_ok (w \<lparr> w_processes := ps \<rparr>) = window_ok w"
  "window_ok (w \<lparr> w_details := a \<rparr>) = window_ok w"
  "window_ok (w \<lparr> w_interface_rows := rows \<rparr>) = window_ok w"
  "window_ok (w \<lparr> w_connection_rows := rows \<rparr>) = window_ok w"
  "window_ok (w \<lparr> w_log_items := items \<rparr>) = window_ok w"
  "window_ok (w \<lparr> w_log_lines := n \<rparr>) = window_ok w"
  "window_ok (w \<lparr> w_log_keyword := a \<rparr>) = window_ok w"
  "window_ok (w \<lparr> w_service_rows := rows \<rparr>) = window_ok w"
  "window_ok (w \<lparr> w_diagnostic_enabled := c \<rparr>) = window_ok w"
  "window_ok (w \<lparr> w_diagnostic_status := a \<rparr>) = window_ok w"
  "window_ok (w \<lparr> w_message := a \<rparr>) = window_ok w"
  "window_ok (w \<lparr> w_boxes := k \<rparr>) = window_ok w"
  by (simp_all add: window_ok_def)

lemma window_ok_new: "window_ok new_window"
  by (simp add: new_window_def window_ok_set_connected built_window_def)

lemma window_ok_stop_timers: "window_ok w \<Longrightarrow> window_ok (stop_timers w)"
  by (simp add: window_ok_def stop_timers_def)

lemma window_ok_progress: "window_ok w \<Longrightarrow> window_ok (set_progress n w)"
  by (simp add: window_ok_def set_progress_def)

lemma click_connect_ok: "window_ok w \<Longrightarrow> w_connect_enabled w \<Longrightarrow> window_ok (fst (click_connect w))"
  by (auto simp: click_connect_def window_ok_def Let_def)

lemma click_reconnect_ok: "window_ok w \<Longrightarrow> w_reconnect_enabled w \<Longrightarrow> window_ok (fst (click_reconnect w))"
  by (auto simp: click_reconnect_def stop_timers_def window_ok_def Let_def)

lemma click_start_stream_ok:
  "window_ok w \<Longrightarrow> w_stream_start_enabled w \<Longrightarrow> window_ok (fst (click_start_stream index w))"
  by (auto simp: click_start_stream_def window_ok_def Let_def)

lemma create_diagnostic_ok: "window_ok w \<Longrightarrow> window_ok (fst (create_diagnostic destination w))"
  by (simp add: create_diagnostic_def window_ok_def)

lemma handle_connected_ok: "window_ok w \<Longrightarrow> window_ok (fst (handle_connected i w))"
  by (simp add: handle_connected_def window_ok_def set_connected_def Let_def)

lemma append_log_line_ok: "window_ok w \<Longrightarrow> window_ok (append_log_line line w)"
  by (simp add: append_log_line_def window_ok_def length_take_last)

lemma update_log_content_ok: "window_ok w \<Longrightarrow> window_ok (update_log_content lines truncated w)"
  by (simp add: update_log_content_def show_message_def window_ok_def length_take_last)

lemma handle_log_stream_stopped_ok: "window_ok w \<Longrightarrow> window_ok (handle_log_stream_stopped w)"
  by (cases "window_connected w") (auto simp: handle_log_stream_stopped_def window_ok_def split: if_splits)

lemma window_ok_connected: "window_ok w \<Longrightarrow> window_ok (set_connected c w)"
  by (simp add: window_ok_set_connected) (simp add: window_ok_def)

lemma close_connect_box_ok: "window_ok w \<Longrightarrow> window_ok (close_connect_box w)"
  by (simp add: close_connect_box_def window_ok_connected)

lemma handle_rpc_error_ok: "window_ok w \<Longrightarrow> window_ok (fst (handle_rpc_error operation message lost w))"
  by (simp add: handle_rpc_error_def show_message_def Let_def window_ok_connected window_ok_stop_timers)

lemmas handlers_ok =
  window_ok_stop_timers window_ok_progress click_connect_ok click_reconnect_ok click_start_stream_ok
  create_diagnostic_ok handle_connected_ok append_log_line_ok update_log_content_ok
  handle_log_stream_stopped_ok window_ok_connected handle_rpc_error_ok close_connect_box_ok

lemma handle_event_ok: "window_ok w \<Longrightarrow> event_enabled ev w \<Longrightarrow> window_ok (fst (handle_event ev w))"
  by (cases ev) (simp_all add: handlers_ok click_disconnect_def show_selected_process_details_def
      confirm_process_control_def confirm_service_control_def click_read_log_def Let_def split: prod.split)

lemma handle_signal_ok: "window_ok w \<Longrightarrow> window_ok (fst (handle_signal arg s w))"
  by (cases s) (simp_all add: handlers_ok handle_disconnected_def update_metrics_def update_processes_def
      update_process_details_def update_network_def update_logs_def update_services_def
      update_diagnostic_progress_def diagnostic_completed_def show_message_def Let_def)

lemma window_step_ok: "window_step arg w effects w' \<Longrightarrow> window_ok w \<Longrightarrow> window_ok w'"
  by (erule window_step_cases) (metis handle_event_ok fst_conv, metis handle_signal_ok fst_conv)

section \<open>The lines of the log\<close>

interpretation log_output: bounded_store append_log_line w_log_output maximum_log_blocks
  by unfold_locales (simp_all add: append_log_line_def)

section \<open>Properties\<close>

text \<open>
  C18.  The state machine of the window: in every state that it can reach, the buttons that connect,
  disconnect and reconnect, those that refresh the network and the services, read a log and start
  or stop a stream, the address fields and the timers agree with one another and with the status
  text.  The timers only run, and those refreshes and log actions can only be clicked, while it is
  connected, a stream can be started or stopped but not both, and the log view and the progress bar
  stay within their bounds.  The buttons for processes and for the control of services, which are
  always enabled, and the button for bundles are not among them: see \<open>diagnostic_button_stays\<close>.
\<close>

theorem window_reachable_ok:
  assumes "window_reachable arg w"
  shows "window_ok w"
  using assms by (induction) (auto intro: window_ok_new window_step_ok)

lemma window_reachable_ok_witness:
  "window_ok (fst (click_connect new_window)) \<and> w_status (fst (click_connect new_window)) = ''Connecting...''"
proof -
  have "trim ''127.0.0.1'' \<noteq> []"
    by code_simp
  then have status: "w_status (fst (click_connect new_window)) = ''Connecting...''"
    by (simp add: click_connect_def new_window_def built_window_def set_connected_def Let_def)
  have "window_step (\<lambda>s _. s) new_window (snd (click_connect new_window)) (fst (click_connect new_window))"
    by (rule window_step.event [of ClickConnect]) (simp_all add: new_window_def built_window_def set_connected_def Let_def)
  from window_reachable_ok [OF window_reachable.step [OF window_reachable.start this]] status show ?thesis
    by simp
qed

text \<open>
  The button for bundles is enabled again by the end of a download, connected or not: when the log
  stream has reported a lost connection during a download, the window shows \<open>Disconnected\<close> with the
  button enabled afterwards.
\<close>

lemma diagnostic_button_stays:
  "\<exists>w. window_reachable arg w \<and> w_status w = ''Disconnected'' \<and> \<not> window_connected w \<and> w_diagnostic_enabled w"
proof -
  let ?w = "fst (handle_signal arg (RpcError ''DownloadDiagnosticBundle'' [] False) new_window)"
  have "window_step arg new_window [Warning ''DownloadDiagnosticBundle failed'' []] ?w"
    by (rule window_step.signal [where s = "RpcError ''DownloadDiagnosticBundle'' [] False"])
       (simp add: handle_rpc_error_def Let_def)
  then have "window_reachable arg ?w"
    by (rule window_reachable.step [OF window_reachable.start])
  moreover have "w_status ?w = ''Disconnected'' \<and> \<not> window_connected ?w \<and> w_diagnostic_enabled ?w"
    by (simp add: handle_rpc_error_def show_message_def new_window_def set_connected_def Let_def)
  ultimately show ?thesis
    by (intro exI [of _ ?w]) blast
qed

text \<open>
  C19.  Nothing that changes the other machine happens without a question: the window only asks for
  a signal to a process when a click on one of the four buttons was followed by \<open>Yes\<close> to the
  question that names the process and the action, and then for the process of the selected row,
  which has a positive pid; it only asks for an action on a service after \<open>Yes\<close> to the question
  about the service that the selected row shows; and no signal of the worker makes it ask.
\<close>

theorem window_control_confirmed:
  "(Request (RequestProcessControl pid action) \<in> set (snd (handle_event ev w)) \<longrightarrow>
      (\<exists>button confirmed row name p. ev = ClickProcess button confirmed row \<and>
         process_button_action button = (action, name) \<and> process_at (w_processes w) row = Some p \<and>
         pd_pid p = pid \<and> 0 < sint pid \<and>
         confirmed (''Really '' @ name @ '' process '' @ show_int (sint pid) @ ''?''))) \<and>
   (Request (RequestServiceControl service number) \<in> set (snd (handle_event ev w)) \<longrightarrow>
      (\<exists>button confirmed row name. ev = ClickService button confirmed row \<and>
         service_button_action button = (number, name) \<and> 0 \<le> row \<and> row < int (length (w_service_rows w)) \<and>
         hd (w_service_rows w ! nat row) = service \<and> confirmed (''Really '' @ name @ '' '' @ service @ ''?''))) \<and>
   Request (RequestProcessControl pid action) \<notin> set (snd (handle_signal arg s w)) \<and>
   Request (RequestServiceControl service number) \<notin> set (snd (handle_signal arg s w))"
proof (intro conjI)
  show "Request (RequestProcessControl pid action) \<in> set (snd (handle_event ev w)) \<longrightarrow>
      (\<exists>button confirmed row name p. ev = ClickProcess button confirmed row \<and>
         process_button_action button = (action, name) \<and> process_at (w_processes w) row = Some p \<and>
         pd_pid p = pid \<and> 0 < sint pid \<and>
         confirmed (''Really '' @ name @ '' process '' @ show_int (sint pid) @ ''?''))"
    by (cases ev) (auto simp: handler_defs selected_pid_def Let_def split: prod.splits option.splits if_splits)
  show "Request (RequestServiceControl service number) \<in> set (snd (handle_event ev w)) \<longrightarrow>
      (\<exists>button confirmed row name. ev = ClickService button confirmed row \<and>
         service_button_action button = (number, name) \<and> 0 \<le> row \<and> row < int (length (w_service_rows w)) \<and>
         hd (w_service_rows w ! nat row) = service \<and> confirmed (''Really '' @ name @ '' '' @ service @ ''?''))"
    by (cases ev) (auto simp: handler_defs Let_def split: prod.splits option.splits if_splits)
  show "Request (RequestProcessControl pid action) \<notin> set (snd (handle_signal arg s w))"
    and "Request (RequestServiceControl service number) \<notin> set (snd (handle_signal arg s w))"
    by (cases s; simp add: handle_connected_def handle_rpc_error_def Let_def)+
qed

definition sample_row :: process_data where
  "sample_row =
     \<lparr> pd_pid = 300, pd_ppid = 1, pd_name = ''sh'', pd_state = ''S'', pd_command_line = ''sh'',
       pd_cpu_usage_percent = Fin 0, pd_resident_memory_bytes = 0, pd_virtual_memory_bytes = 0, pd_thread_count = 1,
       pd_read_bytes = 0, pd_write_bytes = 0, pd_start_time_ticks = 9 \<rparr>"

lemma window_control_confirmed_witness:
  "Request (RequestProcessControl 300 2) \<in>
     set (snd (handle_event (ClickProcess KillButton (\<lambda>_. True) 0) (new_window \<lparr> w_processes := [sample_row] \<rparr>))) \<and>
   0 < sint (300 :: i32)"
proof -
  let ?w = "new_window \<lparr> w_processes := [sample_row] \<rparr>"
  have asked: "Request (RequestProcessControl 300 2) \<in> set (snd (handle_event (ClickProcess KillButton (\<lambda>_. True) 0) ?w))"
    by (simp add: confirm_process_control_def selected_pid_def process_at_def sample_row_def)
  then show ?thesis
    using window_control_confirmed [where ev = "ClickProcess KillButton (\<lambda>_. True) 0" and w = ?w and pid = 300
      and action = 2] by blast
qed

end
