(* ===== verification/Client_System.thy ===== *)
theory Client_System
  imports Main_Window
begin

text \<open>
  The desktop client as a whole: the window and the worker run on two threads and talk through
  two queues (\<open>Qt::QueuedConnection\<close>, the wiring in the constructor of \<open>MainWindow\<close>), and the
  thread of a log stream emits signals of its own.  Any interleaving of their steps is a run.
\<close>

section \<open>State and steps\<close>

text \<open>
  The worker works on one request at a time; \<open>cs_pending\<close> are the signals that the slot under way has
  still to emit, between which the stream's thread can emit its own.  \<open>cs_cut_off\<close> is no variable of
  the program but a note about the run: since the worker was last asked to connect or to disconnect,
  something else than the worker has set the window to disconnected, a stream that found its
  connection lost, or the end of a box about a connection that had failed before.
\<close>

record client_system =
  cs_window :: window
  cs_requests :: "window_effect list"
  cs_worker :: rpc_worker
  cs_pending :: "worker_signal list"
  cs_signals :: "worker_signal list"
  cs_files :: local_files
  cs_cut_off :: bool

definition new_client :: "local_files \<Rightarrow> client_system" where
  "new_client files =
     \<lparr> cs_window = new_window, cs_requests = [], cs_worker = new_worker, cs_pending = [], cs_signals = [],
       cs_files = files, cs_cut_off = False \<rparr>"

text \<open>The effects that go to the worker; boxes stay on the screen.\<close>

definition sent_to_worker :: "window_effect list \<Rightarrow> window_effect list" where
  "sent_to_worker = filter (\<lambda>e. case e of Request _ \<Rightarrow> True | DownloadTo _ \<Rightarrow> True | _ \<Rightarrow> False)"

text \<open>What the stream's thread can emit, and its report of a lost connection.\<close>

fun stream_signal :: "worker_signal \<Rightarrow> bool" where
  "stream_signal (LogLineReady _) = True"
| "stream_signal LogStreamStopped = True"
| "stream_signal (RpcError operation _ _) = (operation = ''StreamLog'')"
| "stream_signal _ = False"

fun stream_lost :: "worker_signal \<Rightarrow> bool" where
  "stream_lost (RpcError _ _ lost) = lost"
| "stream_lost _ = False"

inductive client_step :: "(string \<Rightarrow> string \<Rightarrow> string) \<Rightarrow> client_system \<Rightarrow> client_system \<Rightarrow> bool"
  for arg :: "string \<Rightarrow> string \<Rightarrow> string" where
  user: "event_enabled ev (cs_window c) \<Longrightarrow> handle_event ev (cs_window c) = (w, effects) \<Longrightarrow>
    client_step arg c
      (c \<lparr> cs_window := w, cs_requests := cs_requests c @ sent_to_worker effects,
           cs_cut_off := cs_cut_off c \<or> ev = CloseConnectBox \<and> window_connected (cs_window c) \<rparr>)"
| work: "cs_pending c = [] \<Longrightarrow> cs_requests c = Request request # rest \<Longrightarrow>
    worker_step connect request (cs_worker c) = (wk, signals) \<Longrightarrow>
    client_step arg c
      (c \<lparr> cs_requests := rest, cs_worker := wk, cs_pending := signals,
           cs_cut_off := cs_cut_off c \<and> \<not> opens_or_closes request \<rparr>)"
| download: "cs_pending c = [] \<Longrightarrow> cs_requests c = DownloadTo p # rest \<Longrightarrow>
    create_and_download_diagnostic disk p (cs_files c) (cs_worker c) = (wk, files, signals) \<Longrightarrow>
    client_step arg c
      (c \<lparr> cs_requests := rest, cs_worker := wk, cs_files := files, cs_pending := signals \<rparr>)"
| emit: "cs_pending c = s # rest \<Longrightarrow>
    client_step arg c (c \<lparr> cs_pending := rest, cs_signals := cs_signals c @ [s] \<rparr>)"
| deliver: "cs_signals c = s # rest \<Longrightarrow> handle_signal arg s (cs_window c) = (w, effects) \<Longrightarrow>
    client_step arg c
      (c \<lparr> cs_window := w, cs_signals := rest, cs_requests := cs_requests c @ sent_to_worker effects \<rparr>)"
| stream: "rw_stream (cs_worker c) \<noteq> None \<Longrightarrow> stream_signal s \<Longrightarrow>
    client_step arg c
      (c \<lparr> cs_signals := cs_signals c @ [s], cs_cut_off := cs_cut_off c \<or> stream_lost s \<rparr>)"
| agent: "rw_client (cs_worker c) = Some stb \<Longrightarrow>
    client_step arg c (c \<lparr> cs_worker := (cs_worker c) \<lparr> rw_client := Some stb' \<rparr> \<rparr>)"

inductive client_reachable :: "(string \<Rightarrow> string \<Rightarrow> string) \<Rightarrow> local_files \<Rightarrow> client_system \<Rightarrow> bool"
  for arg :: "string \<Rightarrow> string \<Rightarrow> string" and files :: local_files where
  start: "client_reachable arg files (new_client files)"
| step: "client_reachable arg files c \<Longrightarrow> client_step arg c c' \<Longrightarrow> client_reachable arg files c'"

section \<open>Starting the program\<close>

text \<open>
  \<open>client/src/gui_main.cpp\<close>: the program shows a new window and runs Qt's event loop; with the
  argument of the smoke test it asks for a connection at once and ends after 2.5 seconds.
\<close>

datatype gui_timer = InvokeConnect | QuitApplication

definition gui_main :: "string list \<Rightarrow> local_files \<Rightarrow> client_system \<times> (nat \<times> gui_timer) list" where
  "gui_main arguments files =
     (new_client files, if ''--smoke-test'' \<in> set arguments then [(0, InvokeConnect), (2500, QuitApplication)] else [])"

lemma gui_main_connects:
  "snd (click_connect (cs_window (fst (gui_main arguments files)))) = [Request (RequestConnect ''127.0.0.1'' 50051)]"
proof -
  have "trim ''127.0.0.1'' = ''127.0.0.1''"
    by code_simp
  then show ?thesis
    by (simp add: gui_main_def new_client_def new_window_def built_window_def set_connected_def click_connect_def Let_def)
qed

section \<open>Connected or not, along the queue\<close>

text \<open>What a signal makes of the mode of the window, once its box is closed.\<close>

definition mode_step :: "bool \<Rightarrow> worker_signal \<Rightarrow> bool" where
  "mode_step mode s = (case s of Connected _ \<Rightarrow> True | _ \<Rightarrow> if tells_lost s then False else mode)"

abbreviation mode_after :: "bool \<Rightarrow> worker_signal list \<Rightarrow> bool" where
  "mode_after \<equiv> foldl mode_step"

text \<open>The signals that the window has still to see.\<close>

definition coming :: "client_system \<Rightarrow> worker_signal list" where
  "coming c = cs_signals c @ cs_pending c"

lemma mode_step_mono: "mode_step mode s \<Longrightarrow> (mode \<longrightarrow> mode') \<Longrightarrow> mode_step mode' s"
  by (cases s) (auto simp: mode_step_def)

lemma mode_after_mono: "mode_after mode signals \<Longrightarrow> (mode \<longrightarrow> mode') \<Longrightarrow> mode_after mode' signals"
proof (induction signals arbitrary: mode mode')
  case (Cons s signals)
  then show ?case
    using mode_step_mono [of mode s mode'] by auto
qed simp

abbreviation free_mode :: "window \<Rightarrow> bool" where
  "free_mode w \<equiv> window_connected w \<and> w_boxes w = 0"

lemma handle_signal_mode:
  "mode_step (window_connected w) s \<Longrightarrow> window_connected (fst (handle_signal arg s w))"
  "free_mode (fst (handle_signal arg s w)) \<Longrightarrow> mode_step (free_mode w) s"
  by (cases s; simp add: mode_step_def signal_defs Let_def split: if_splits)+

lemma handle_event_mode:
  "ev \<noteq> CloseConnectBox \<Longrightarrow> window_connected (fst (handle_event ev w)) = window_connected w \<and>
     w_boxes (fst (handle_event ev w)) = w_boxes w"
  by (cases ev) (simp_all add: handler_defs Let_def split: prod.split)

lemma close_connect_box_mode [simp]: "\<not> window_connected (close_connect_box w)"
  by (simp add: close_connect_box_def set_connected_def Let_def)

lemma worker_step_mode:
  "worker_step connect request w = (w', signals) \<Longrightarrow>
     mode_after (rw_client w \<noteq> None) signals \<longleftrightarrow> rw_client w' \<noteq> None"
  by (cases request) (auto simp: slot_defs Let_def mode_step_def split: option.splits sum.splits if_splits)

text \<open>An answer to a request to connect says so whatever the window showed before.\<close>

lemma worker_step_opens:
  "worker_step connect request w = (w', signals) \<Longrightarrow> opens_or_closes request \<Longrightarrow> rw_client w' \<noteq> None \<Longrightarrow>
     mode_after mode signals"
  by (cases request) (auto simp: slot_defs Let_def mode_step_def split: option.splits sum.splits if_splits)

lemma worker_step_needs_client:
  "worker_step connect request w = (w', signals) \<Longrightarrow> \<not> opens_or_closes request \<Longrightarrow> rw_client w' \<noteq> None \<Longrightarrow>
     rw_client w \<noteq> None"
  using worker_step_lost [of connect request w w' signals] by auto

lemma mode_after_progress: "list_all is_progress signals \<Longrightarrow> mode_after mode signals = mode"
  by (induction signals arbitrary: mode) (auto simp: mode_step_def is_progress_def split: worker_signal.splits)

lemma download_mode:
  assumes "create_and_download_diagnostic disk p files w = (w', files', signals)"
  shows "mode_after (rw_client w \<noteq> None) signals \<longleftrightarrow> rw_client w' \<noteq> None"
proof (cases "rw_client w")
  case None
  then show ?thesis
    using assms by (simp add: create_and_download_diagnostic_def)
next
  case (Some stb)
  obtain progress verdict where signals: "signals = progress @ [verdict]" "list_all is_progress progress"
    using create_and_download_cases [OF assms] Some by blast
  have "mode_step True verdict \<longleftrightarrow> rw_client w' \<noteq> None"
    using assms signals(1) Some
    by (auto simp: create_and_download_diagnostic_def emit_rpc_error_def mode_step_def Let_def
        split: sum.splits prod.splits if_splits)
  then show ?thesis
    using mode_after_progress [OF signals(2)] Some by (simp add: signals(1))
qed

lemma download_needs_client:
  "create_and_download_diagnostic disk p files w = (w', files', signals) \<Longrightarrow> rw_client w' \<noteq> None \<Longrightarrow> rw_client w \<noteq> None"
  by (auto simp: create_and_download_diagnostic_def split: option.splits)

lemma stream_signal_mode:
  "stream_signal s \<Longrightarrow> mode_step mode s \<Longrightarrow> mode"
  "stream_signal s \<Longrightarrow> \<not> stream_lost s \<Longrightarrow> mode_step mode s = mode"
  by (cases s; simp add: mode_step_def split: if_splits)+

definition client_inv :: "client_system \<Rightarrow> bool" where
  "client_inv c \<longleftrightarrow>
     (mode_after (free_mode (cs_window c)) (coming c) \<longrightarrow> rw_client (cs_worker c) \<noteq> None) \<and>
     (rw_client (cs_worker c) \<noteq> None \<and> \<not> cs_cut_off c \<longrightarrow> mode_after (window_connected (cs_window c)) (coming c))"

lemma client_inv_slot:
  assumes "client_inv c" "mode_after (rw_client (cs_worker c) \<noteq> None) signals \<longleftrightarrow> rw_client wk \<noteq> None"
    "cs_pending c = []"
    "rw_client wk \<noteq> None \<and> \<not> cut_off \<longrightarrow>
       (\<forall>mode. mode_after mode signals) \<or> rw_client (cs_worker c) \<noteq> None \<and> \<not> cs_cut_off c"
  shows "client_inv (c \<lparr> cs_requests := rest, cs_worker := wk, cs_files := files, cs_pending := signals,
    cs_cut_off := cut_off \<rparr>)"
proof -
  let ?seen = "mode_after (free_mode (cs_window c)) (cs_signals c)"
  have one: "mode_after ?seen signals \<longrightarrow> rw_client wk \<noteq> None"
    using assms(1-3) mode_after_mono [of ?seen signals "rw_client (cs_worker c) \<noteq> None"]
    by (auto simp: client_inv_def coming_def)
  have two: "mode_after (mode_after (window_connected (cs_window c)) (cs_signals c)) signals"
    if open_end: "rw_client wk \<noteq> None" "\<not> cut_off"
  proof -
    consider "\<forall>mode. mode_after mode signals" | "rw_client (cs_worker c) \<noteq> None" "\<not> cs_cut_off c"
      using assms(4) open_end by blast
    then show ?thesis
    proof cases
      case 2
      then have "mode_after (window_connected (cs_window c)) (cs_signals c)"
        using assms(1,3) by (simp add: client_inv_def coming_def)
      then show ?thesis
        using 2 assms(2) open_end(1) by simp
    qed blast
  qed
  show ?thesis
    using one two by (simp add: client_inv_def coming_def)
qed

lemma client_step_inv:
  assumes "client_step arg c c'" "client_inv c"
  shows "client_inv c'"
  using assms
proof cases
  case (user ev w effects)
  show ?thesis
  proof (cases "ev = CloseConnectBox")
    case True
    then have "\<not> window_connected w" "w_boxes (cs_window c) \<noteq> 0"
      using user(2,3) by auto
    then show ?thesis
      using assms(2) user(1) True by (auto simp: client_inv_def coming_def)
  next
    case False
    then have "window_connected w = window_connected (cs_window c)" "w_boxes w = w_boxes (cs_window c)"
      using handle_event_mode [of ev "cs_window c"] user(3) by simp_all
    then show ?thesis
      using assms(2) user(1) False by (simp add: client_inv_def coming_def)
  qed
next
  case (work request rest connect wk signals)
  have "client_inv (c \<lparr> cs_requests := rest, cs_worker := wk, cs_files := cs_files c, cs_pending := signals,
      cs_cut_off := cs_cut_off c \<and> \<not> opens_or_closes request \<rparr>)"
    using worker_step_opens [OF work(4)] worker_step_needs_client [OF work(4)]
    by (intro client_inv_slot assms(2) worker_step_mode [OF work(4)] work(2)) blast
  then show ?thesis
    by (simp add: work(1))
next
  case (download p rest disk wk files signals)
  have "client_inv (c \<lparr> cs_requests := rest, cs_worker := wk, cs_files := files, cs_pending := signals,
      cs_cut_off := cs_cut_off c \<rparr>)"
    using download_needs_client [OF download(4)]
    by (intro client_inv_slot assms(2) download_mode [OF download(4)] download(2)) blast
  then show ?thesis
    by (simp add: download(1))
next
  case (emit s rest)
  then show ?thesis
    using assms(2) by (simp add: client_inv_def coming_def)
next
  case (deliver s rest w effects)
  have "window_connected w" if "mode_step (window_connected (cs_window c)) s"
    using handle_signal_mode(1) [OF that, of arg] deliver(3) by simp
  moreover have "mode_step (free_mode (cs_window c)) s" if "free_mode w"
    using handle_signal_mode(2) [of arg s "cs_window c"] deliver(3) that by simp
  ultimately show ?thesis
    using assms(2) deliver(1,2) mode_after_mono [of _ "rest @ cs_pending c"]
    by (fastforce simp: client_inv_def coming_def)
next
  case (stream s)
  let ?seen = "\<lambda>m. mode_after m (cs_signals c)"
  have "mode_after (mode_step m s) (cs_pending c) \<Longrightarrow> mode_after m (cs_pending c)" for m
    using stream_signal_mode(1) [OF stream(3)] mode_after_mono by blast
  then show ?thesis
    using assms(2) stream(1) stream_signal_mode(2) [OF stream(3)]
    by (auto simp: client_inv_def coming_def)
next
  case (agent stb stb')
  then show ?thesis
    using assms(2) by (simp add: client_inv_def coming_def)
qed

lemma client_inv_new: "client_inv (new_client files)"
  by (simp add: client_inv_def coming_def new_client_def new_worker_def)
     (simp add: new_window_def set_connected_def Let_def)

section \<open>Properties\<close>

text \<open>
  C17.  In every run of the client, whatever the user clicks, whatever the Agents answer, whatever
  the log stream reports and in whatever order the threads take their steps: the window never
  settles on \<open>connected\<close> without a connection, and while the worker has one it settles on
  \<open>connected\<close>, unless something else than the worker has disconnected the window since the worker
  was last asked to connect or disconnect (\<open>cs_cut_off\<close>).  To settle is to have seen the signals
  that are still under way, with no box about a failed connection left to close; the last part
  states it for a client at rest.
\<close>

theorem client_reachable_consistent:
  assumes "client_reachable arg files c"
  shows "(mode_after (free_mode (cs_window c)) (coming c) \<longrightarrow> rw_client (cs_worker c) \<noteq> None) \<and>
    (rw_client (cs_worker c) \<noteq> None \<and> \<not> cs_cut_off c \<longrightarrow> mode_after (window_connected (cs_window c)) (coming c)) \<and>
    (coming c = [] \<and> w_boxes (cs_window c) = 0 \<and> \<not> cs_cut_off c \<longrightarrow>
       (window_connected (cs_window c) \<longleftrightarrow> rw_client (cs_worker c) \<noteq> None))"
proof -
  have "client_inv c"
    using assms by induction (auto intro: client_inv_new client_step_inv)
  then show ?thesis
    by (auto simp: client_inv_def)
qed

lemma client_reachable_consistent_witness:
  "\<exists>c. client_reachable (\<lambda>s _. s) Map.empty c \<and> cs_requests c \<noteq> [] \<and> coming c = [] \<and> w_boxes (cs_window c) = 0 \<and>
     \<not> cs_cut_off c \<and> \<not> window_connected (cs_window c) \<and> rw_client (cs_worker c) = None"
proof -
  let ?c = "new_client Map.empty"
  let ?click = "click_connect (cs_window ?c)"
  let ?c' = "?c \<lparr> cs_window := fst ?click, cs_requests := cs_requests ?c @ sent_to_worker (snd ?click),
    cs_cut_off := cs_cut_off ?c \<or> ClickConnect = CloseConnectBox \<and> window_connected (cs_window ?c) \<rparr>"
  have "trim ''127.0.0.1'' \<noteq> []"
    by code_simp
  then have requests: "cs_requests ?c' \<noteq> []" and rest: "coming ?c' = []" "w_boxes (cs_window ?c') = 0" "\<not> cs_cut_off ?c'"
    by (simp_all add: new_client_def new_window_def built_window_def set_connected_def click_connect_def
        sent_to_worker_def coming_def Let_def)
  have "client_step (\<lambda>s _. s) ?c ?c'"
    by (rule client_step.user [of ClickConnect])
       (simp_all add: new_client_def new_window_def built_window_def set_connected_def Let_def)
  then have reach: "client_reachable (\<lambda>s _. s) Map.empty ?c'"
    by (rule client_reachable.step [OF client_reachable.start])
  have "rw_client (cs_worker ?c') = None"
    by (simp add: new_client_def new_worker_def)
  then show ?thesis
    using client_reachable_consistent [OF reach] reach requests rest by blast
qed

text \<open>
  The thread of the log stream reports a lost connection without telling the worker: the window
  then shows \<open>Disconnected\<close> while the worker keeps its client.
\<close>

theorem stream_loss_disagrees:
  "\<exists>w'. handle_signal arg (RpcError ''StreamLog'' message True) w =
       (w', [Request RequestStopLogStream, Warning ''Agent connection lost'' message]) \<and>
     \<not> window_connected w' \<and>
     worker_step connect RequestStopLogStream wk = (wk \<lparr> rw_stream := None \<rparr>, [])"
  by (simp add: handle_rpc_error_def show_message_def set_connected_def stop_log_stream_def Let_def)

text \<open>
  So does the end of a box about a connection that failed, when the next one has been made while the
  box was open: nothing is asked of the worker, which keeps that connection.
\<close>

theorem late_box_disagrees:
  "handle_signal arg (RpcError ''Connect'' message False) w =
     (w1, [Warning ''Connect failed'' message]) \<Longrightarrow>
   window_connected (fst (handle_connected info w1)) \<and>
   event_enabled CloseConnectBox (fst (handle_connected info w1)) \<and>
   (\<exists>w2. handle_event CloseConnectBox (fst (handle_connected info w1)) = (w2, []) \<and> \<not> window_connected w2)"
  by (auto simp: handle_rpc_error_def handle_connected_def show_message_def set_connected_def Let_def)

end
