(* ===== verification/Client_Cli.thy ===== *)
theory Client_Cli
  imports Rpc_Worker
begin

text \<open>
  \<open>client/src/main.cpp\<close>: the command line client.  A run gives what it prints, line by line, the
  control requests that it sends, the file that it leaves and its exit code.  The stub for the
  target address, the arguments and the local file are parameters.
\<close>

section \<open>Arguments\<close>

definition parse_control_action :: "string \<Rightarrow> int option" where
  "parse_control_action value =
     (if value = ''term'' then Some 1 else if value = ''kill'' then Some 2
      else if value = ''stop'' then Some 3 else if value = ''continue'' then Some 4 else None)"

definition parse_pid :: "string \<Rightarrow> i32 option" where
  "parse_pid value =
     (case stoll value of
        None \<Rightarrow> None
      | Some (parsed, parsed_characters) \<Rightarrow>
          if parsed_characters \<noteq> length value \<or> parsed \<le> 0 \<or> parsed > int i32_max then None
          else Some (word_of_int parsed))"

text \<open>The number of lines to follow: zero where \<open>stoul\<close> throws; characters after a number are ignored.\<close>

definition parse_wanted :: "string \<Rightarrow> u64" where
  "parse_wanted value = (case stoul value of None \<Rightarrow> 0 | Some (n, _) \<Rightarrow> n)"

definition target_and_rest :: "string list \<Rightarrow> string \<times> string list" where
  "target_and_rest arguments =
     (case arguments of
        flag # address # rest \<Rightarrow> if flag = ''--target'' then (address, rest) else (''127.0.0.1:50051'', arguments)
      | _ \<Rightarrow> (''127.0.0.1:50051'', arguments))"

section \<open>Output\<close>

datatype cli_event = Out string | Err string | ControlSent i32 int

definition pad_right :: "nat \<Rightarrow> string \<Rightarrow> string" where
  "pad_right n s = s @ replicate (n - length s) CHR '' ''"

definition pad_left :: "nat \<Rightarrow> string \<Rightarrow> string" where
  "pad_left n s = replicate (n - length s) CHR '' '' @ s"

definition gigabytes :: "u64 \<Rightarrow> string" where
  "gigabytes bytes = show_double_fixed 1 (ddiv (double_of_u64 bytes) (Fin 1073741824))"

definition print_system_metrics :: "metrics_msg \<Rightarrow> string list" where
  "print_system_metrics m =
     [''CPU Usage: '' @ show_double_fixed 1 (mm_cpu_usage_percent m) @ ''%'',
      ''Memory Used: '' @ gigabytes (mm_memory_used_bytes m) @ '' GB / '' @ gigabytes (mm_memory_total_bytes m) @ '' GB'',
      ''Memory Available: '' @ gigabytes (mm_memory_available_bytes m) @ '' GB'',
      ''Load Average: '' @ show_double_fixed 2 (mm_load_average_1m m) @ '' / '' @
        show_double_fixed 2 (mm_load_average_5m m) @ '' / '' @ show_double_fixed 2 (mm_load_average_15m m),
      ''Uptime: '' @ show_u64 (mm_uptime_seconds m) @ '' seconds'']"

definition print_process :: "process_msg \<Rightarrow> string" where
  "print_process p =
     pad_right 8 (show_int (sint (pm_pid p))) @ pad_right 8 (show_int (sint (pm_ppid p))) @
     pad_right 20 (take 19 (pm_name p)) @ pad_right 8 (pm_state p) @
     pad_left 8 (show_double_fixed 1 (pm_cpu_usage_percent p)) @
     pad_left 12 (show_double_fixed 1 (ddiv (double_of_u64 (pm_resident_memory_bytes p)) (Fin 1048576))) @
     pad_left 9 (show_u32 (pm_thread_count p))"

definition process_header :: string where
  "process_header =
     pad_right 8 ''PID'' @ pad_right 8 ''PPID'' @ pad_right 20 ''NAME'' @ pad_right 8 ''STATE'' @
     pad_left 8 ''CPU%'' @ pad_left 12 ''RSS(MB)'' @ pad_left 9 ''THREADS''"

definition agent_info_lines :: "agent_info_msg \<Rightarrow> string list" where
  "agent_info_lines i =
     [''Connected to EdgeScope Agent'',
      ''Hostname: '' @ ai_hostname i,
      ''Kernel: '' @ ai_kernel_version i,
      ''Uptime: '' @ show_u64 (ai_uptime_seconds i) @ '' seconds'',
      ''Agent Version: '' @ ai_agent_version i]"

definition process_detail_lines :: "process_msg \<Rightarrow> string list" where
  "process_detail_lines p =
     [[], ''Process Details for PID '' @ show_int (sint (pm_pid p)),
      ''Command: '' @ pm_command_line p,
      ''Virtual Memory: '' @ show_u64 (pm_virtual_memory_bytes p) @ '' bytes'',
      ''Read/Write: '' @ show_u64 (pm_read_bytes p) @ '' / '' @ show_u64 (pm_write_bytes p) @ '' bytes'',
      ''Start Time: '' @ show_u64 (pm_start_time_ticks p) @ '' ticks'']"

definition interface_line :: "interface_msg \<Rightarrow> string" where
  "interface_line i =
     im_name i @ '' ['' @ im_state i @ ''] RX='' @ show_u64 (im_rx_bytes i) @ '' TX='' @ show_u64 (im_tx_bytes i) @
     (case im_ipv4_addresses i of [] \<Rightarrow> [] | a # _ \<Rightarrow> '' IPv4='' @ a) @
     (case im_ipv6_addresses i of [] \<Rightarrow> [] | a # _ \<Rightarrow> '' IPv6='' @ a)"

definition connection_line :: "connection_msg \<Rightarrow> string" where
  "connection_line c =
     cm_protocol c @ '' '' @ cm_local_address c @ '':'' @ show_u32 (cm_local_port c) @ '' -> '' @
     cm_remote_address c @ '':'' @ show_u32 (cm_remote_port c) @ '' '' @ cm_state c @
     '' PID='' @ show_int (sint (cm_pid c))"

definition log_source_line :: "log_source_msg \<Rightarrow> string" where
  "log_source_line l =
     lm_id l @ '': '' @ lm_display_name l @ '' ['' @ (if lm_available l then ''available'' else ''unavailable'') @ '']''"

definition service_line :: "service_msg \<Rightarrow> string" where
  "service_line s =
     sm_name s @ '' ['' @ sm_load_state s @ ''/'' @ sm_active_state s @ ''/'' @ sm_sub_state s @ ''] '' @ sm_description s"

section \<open>The overview\<close>

text \<open>A step prints something and goes on, or ends the program with exit code 1.\<close>

type_synonym cli_step = "stub \<Rightarrow> cli_event list \<times> bool"

definition failed_call :: "string \<Rightarrow> status \<Rightarrow> cli_event list \<times> bool" where
  "failed_call name st = ([Err (name @ '' RPC failed: '' @ snd st)], False)"

definition show_metrics_step :: cli_step where
  "show_metrics_step stb =
     (case client_get_system_metrics stb of
        Inl st \<Rightarrow> failed_call ''GetSystemMetrics'' st
      | Inr m \<Rightarrow> (map Out ([[], ''System Metrics''] @ print_system_metrics m), True))"

fun sample_lines :: "nat \<Rightarrow> metrics_msg list \<Rightarrow> string list" where
  "sample_lines n [] = []"
| "sample_lines n (m # ms) = [[], ''Sample '' @ show_nat (n + 1)] @ print_system_metrics m @ sample_lines (n + 1) ms"

definition stream_metrics_step :: cli_step where
  "stream_metrics_step stb =
     (let (samples_shown, st) = client_stream_system_metrics stb 1000 3;
          shown = map Out ([[], ''Streaming System Metrics (3 samples)''] @ sample_lines 0 samples_shown)
      in if status_ok st then (shown, True)
         else (shown @ fst (failed_call ''StreamSystemMetrics'' st), False))"

definition show_processes_step :: cli_step where
  "show_processes_step stb =
     (case client_list_processes stb of
        Inl st \<Rightarrow> failed_call ''ListProcesses'' st
      | Inr processes \<Rightarrow>
          (let shown = map Out ([[], ''Processes (showing up to 10 of '' @ show_nat (length processes) @ '')'', process_header] @
                 map print_process (take 10 processes))
           in case processes of
                [] \<Rightarrow> (shown, True)
              | p # _ \<Rightarrow>
                  (case client_get_process_details stb (pm_pid p) of
                     Inl st \<Rightarrow> (shown @ fst (failed_call ''GetProcessDetails'' st), False)
                   | Inr details \<Rightarrow> (shown @ map Out (process_detail_lines details), True))))"

definition show_interfaces_step :: cli_step where
  "show_interfaces_step stb =
     (case client_get_network_interfaces stb of
        Inl st \<Rightarrow> failed_call ''GetNetworkInterfaces'' st
      | Inr interfaces \<Rightarrow> (map Out ([[], ''Network Interfaces''] @ map interface_line interfaces), True))"

definition show_connections_step :: cli_step where
  "show_connections_step stb =
     (case client_list_tcp_connections stb of
        Inl st \<Rightarrow> failed_call ''ListTcpConnections'' st
      | Inr connections \<Rightarrow>
          (map Out ((''TCP Connections: '' @ show_nat (length connections)) # map connection_line (take 10 connections)), True))"

text \<open>The first available log that can be read is shown.\<close>

fun first_readable :: "stub \<Rightarrow> log_source_msg list \<Rightarrow> string list" where
  "first_readable stb [] = []"
| "first_readable stb (l # ls) =
     (if \<not> lm_available l then first_readable stb ls
      else
        (case client_read_log stb (lm_id l) 5 [] of
           Inl _ \<Rightarrow> first_readable stb ls
         | Inr content \<Rightarrow>
             (''Last '' @ show_nat (length (lc_lines content)) @ '' lines from '' @ lm_id l @ '':'') # lc_lines content))"

definition show_logs_step :: cli_step where
  "show_logs_step stb =
     (case client_list_logs stb of
        Inl st \<Rightarrow> failed_call ''ListLogs'' st
      | Inr logs \<Rightarrow> (map Out ([[], ''Allowed Logs''] @ map log_source_line logs @ first_readable stb logs), True))"

definition show_services_step :: cli_step where
  "show_services_step stb =
     (case client_list_services stb of
        Inl st \<Rightarrow> failed_call ''ListServices'' st
      | Inr services \<Rightarrow> (map Out ([[], ''Allowed Services''] @ map service_line services), True))"

fun run_steps :: "cli_step list \<Rightarrow> stub \<Rightarrow> cli_event list \<times> nat" where
  "run_steps [] stb = ([], 0)"
| "run_steps (step # steps) stb =
     (case step stb of
        (events, False) \<Rightarrow> (events, 1)
      | (events, True) \<Rightarrow> (case run_steps steps stb of (later, exit_value) \<Rightarrow> (events @ later, exit_value)))"

definition overview_steps :: "cli_step list" where
  "overview_steps =
     [show_metrics_step, stream_metrics_step, show_processes_step, show_interfaces_step, show_connections_step,
      show_logs_step, show_services_step]"

section \<open>Commands\<close>

record cli_download =
  cl_written :: string
  cl_received :: u64

definition cli_on_chunk :: "local_disk \<Rightarrow> chunk_msg \<Rightarrow> cli_download \<Rightarrow> cli_download \<times> bool" where
  "cli_on_chunk disk chunk c =
     (if ch_offset chunk \<noteq> cl_received c then (c, False)
      else
        (let written_now = dk_takes disk (length (cl_written c) + length (ch_data chunk)) in
         (c \<lparr> cl_written := (if written_now then cl_written c @ ch_data chunk else cl_written c),
              cl_received := cl_received c + word_of_nat (length (ch_data chunk)) \<rparr>, written_now)))"

text \<open>The file is left as it is, also when the download fails.\<close>

definition cli_diagnostic :: "local_disk \<Rightarrow> stub \<Rightarrow> path \<Rightarrow> local_files \<Rightarrow> cli_event list \<times> local_files \<times> nat" where
  "cli_diagnostic disk stb p files =
     (case client_create_diagnostic_bundle stb of
        Inl st \<Rightarrow> ([Err (''CreateDiagnosticBundle RPC failed: '' @ snd st)], files, 1)
      | Inr created \<Rightarrow>
          if \<not> dk_opens disk then ([Err ''Failed to open diagnostic output file''], files, 1)
          else
            (let (c, st) = client_download_diagnostic_bundle stb (bm_bundle_id created) (cli_on_chunk disk)
                   \<lparr> cl_written = [], cl_received = 0 \<rparr>;
                 files = files(p \<mapsto> dk_closed disk (cl_written c))
             in if \<not> status_ok st \<or> cl_received c \<noteq> bm_total_size_bytes created
                then ([Err (''DownloadDiagnosticBundle failed: '' @ snd st)], files, 1)
                else ([Out (''Diagnostic bundle saved to '' @ p @ '' ('' @ show_u64 (cl_received c) @ '' bytes)'')],
                      files, 0)))"

definition cli_stream_log :: "stub \<Rightarrow> string \<Rightarrow> string \<Rightarrow> cli_event list \<times> nat" where
  "cli_stream_log stb log_id count_text =
     (let wanted_lines = unat (parse_wanted count_text) in
      if wanted_lines = 0 \<or> wanted_lines > 1000
      then ([Err ''Log stream count must be between 1 and 1000''], 1)
      else
        (let (printed, st) = client_stream_log stb log_id [] (\<lambda>line printed. printed @ [Out line])
               (\<lambda>printed. length printed \<ge> wanted_lines) []
         in if \<not> status_ok st \<and> fst st \<noteq> Cancelled
            then (printed @ [Err (''StreamLog RPC failed: '' @ snd st)], 1)
            else (printed, 0)))"

definition cli_control :: "stub \<Rightarrow> string \<Rightarrow> string \<Rightarrow> cli_event list \<times> nat" where
  "cli_control stb pid_text action_text =
     (case (parse_pid pid_text, parse_control_action action_text) of
        (Some pid, Some action) \<Rightarrow>
          (case client_control_process stb pid action of
             Inl st \<Rightarrow> ([ControlSent pid action, Err (''ControlProcess RPC failed: '' @ snd st)], 1)
           | Inr _ \<Rightarrow>
               ([ControlSent pid action,
                 Out (''Process control request succeeded for PID '' @ show_int (sint pid))], 0))
      | _ \<Rightarrow> ([Err ''Invalid process control arguments''], 1))"

definition usage_line :: "string \<Rightarrow> string" where
  "usage_line program =
     ''Usage: '' @ program @ '' [--target HOST:PORT] [--control PID term|kill|stop|continue | --diagnostic OUTPUT.tar.gz | --stream-log ID COUNT]''"

definition cli_command ::
  "local_disk \<Rightarrow> string \<Rightarrow> stub \<Rightarrow> string list \<Rightarrow> local_files \<Rightarrow> cli_event list \<times> local_files \<times> nat" where
  "cli_command disk program stb arguments files =
     (case arguments of
        [flag, a] \<Rightarrow>
          if flag = ''--diagnostic'' then cli_diagnostic disk stb a files
          else ([Err (usage_line program)], files, 1)
      | [flag, a, b] \<Rightarrow>
          if flag = ''--stream-log'' then (case cli_stream_log stb a b of (events, exit_value) \<Rightarrow> (events, files, exit_value))
          else if flag = ''--control'' then (case cli_control stb a b of (events, exit_value) \<Rightarrow> (events, files, exit_value))
          else ([Err (usage_line program)], files, 1)
      | _ \<Rightarrow> ([Err (usage_line program)], files, 1))"

definition cli_main ::
  "(string \<Rightarrow> stub) \<Rightarrow> local_disk \<Rightarrow> string \<Rightarrow> string list \<Rightarrow> local_files \<Rightarrow> cli_event list \<times> local_files \<times> nat" where
  "cli_main connect disk program arguments files =
     (let (address, rest) = target_and_rest arguments; stb = connect address in
      case client_get_agent_info stb of
        Inl st \<Rightarrow> ([Err (''GetAgentInfo RPC failed: '' @ snd st)], files, 1)
      | Inr info \<Rightarrow>
          (case (if rest = [] then (case run_steps overview_steps stb of (events, exit_value) \<Rightarrow> (events, files, exit_value))
                 else cli_command disk program stb rest files) of
             (events, files, exit_value) \<Rightarrow> (map Out (agent_info_lines info) @ events, files, exit_value)))"

section \<open>Receiving a download\<close>

interpretation cli_receiver: chunk_receiver "cli_on_chunk disk" cl_written cl_received
  for disk
  by unfold_locales (auto simp: cli_on_chunk_def Let_def split: if_splits)

section \<open>Parsing a pid\<close>

lemma parse_pid_show: "1 \<le> n \<Longrightarrow> n \<le> i32_max \<Longrightarrow> parse_pid (show_nat n) = Some (word_of_nat n)"
  using read_i64_show_int [of "int n" "[]"]
  by (simp add: parse_pid_def stoll_def show_int_def)

lemma sint_small: "n \<le> i32_max \<Longrightarrow> sint (word_of_nat n :: i32) = int n"
  by (simp add: signed_of_nat signed_take_bit_int_eq_self)

lemma parse_pid_positive:
  "parse_pid s = Some pid \<Longrightarrow> 0 < sint pid \<and> stoll s = Some (sint pid, length s)"
proof -
  assume "parse_pid s = Some pid"
  then obtain v where v: "stoll s = Some (v, length s)" "0 < v" "v \<le> int i32_max" "pid = word_of_int v"
    by (auto simp: parse_pid_def split: option.splits prod.splits if_splits)
  then have "sint pid = v"
    using sint_small [of "nat v"] by simp
  with v show ?thesis by simp
qed

section \<open>Properties\<close>

definition no_control :: "cli_event list \<Rightarrow> bool" where
  "no_control events \<longleftrightarrow> (\<forall>pid action. ControlSent pid action \<notin> set events)"

lemma no_control_simps [simp]:
  "no_control []" "no_control (Out l # es) = no_control es" "no_control (Err l # es) = no_control es"
  "no_control (map Out ls)" "no_control (map (Out \<circ> f) xs)" "no_control (es @ es2) \<longleftrightarrow> no_control es \<and> no_control es2"
  by (auto simp: no_control_def)

lemma failed_call_no_control [simp]: "no_control (fst (failed_call name st))"
  by (simp add: failed_call_def)

lemma run_steps_no_control:
  "\<forall>step \<in> set steps. no_control (fst (step stb)) \<Longrightarrow> no_control (fst (run_steps steps stb))"
proof (induction steps)
  case (Cons step steps)
  obtain events ok where step: "step stb = (events, ok)"
    by fastforce
  have "no_control events"
    using Cons.prems by (metis fst_conv list.set_intros(1) step)
  then show ?case
    using Cons by (cases ok) (auto simp: step split: prod.split)
qed simp

lemma overview_no_control: "\<forall>step \<in> set overview_steps. no_control (fst (step stb))"
proof -
  have "no_control (fst (show_metrics_step stb))"
    by (simp add: show_metrics_step_def split: sum.split)
  moreover have "no_control (fst (stream_metrics_step stb))"
    by (simp add: stream_metrics_step_def Let_def split: prod.split)
  moreover have "no_control (fst (show_processes_step stb))"
    by (simp add: show_processes_step_def Let_def split: sum.split list.split)
  moreover have "no_control (fst (show_interfaces_step stb))" "no_control (fst (show_connections_step stb))"
      "no_control (fst (show_logs_step stb))" "no_control (fst (show_services_step stb))"
    by (simp_all add: show_interfaces_step_def show_connections_step_def show_logs_step_def show_services_step_def
        split: sum.split)
  ultimately show ?thesis
    by (simp add: overview_steps_def)
qed

lemma stream_log_no_control: "no_control (fst (cli_stream_log stb log_id count_text))"
proof -
  have "no_control (fold (\<lambda>line printed. printed @ [Out line]) lines printed)" if "no_control printed" for lines printed
    using that by (induction lines arbitrary: printed) auto
  from this [of "[]"] show ?thesis
    by (auto simp: cli_stream_log_def client_stream_log_def Let_def split: prod.split)
qed

lemma diagnostic_no_control: "no_control (fst (cli_diagnostic disk stb p files))"
  by (simp add: cli_diagnostic_def Let_def split: sum.split prod.split)

text \<open>The control request of a command line, if it asks for one.\<close>

fun asked_control :: "string list \<Rightarrow> (i32 \<times> int) option" where
  "asked_control [flag, pid_text, action_text] =
     (if flag = ''--control''
      then (case (parse_pid pid_text, parse_control_action action_text) of
              (Some pid, Some action) \<Rightarrow> Some (pid, action) | _ \<Rightarrow> None)
      else None)"
| "asked_control _ = None"

lemma cli_control_sent:
  "ControlSent pid action \<in> set (fst (cli_control stb a b)) \<Longrightarrow> asked_control [''--control'', a, b] = Some (pid, action)"
  by (auto simp: cli_control_def split: option.splits sum.splits)

lemma cli_command_sent:
  assumes "ControlSent pid action \<in> set (fst (cli_command disk program stb arguments files))"
  shows "asked_control arguments = Some (pid, action)"
proof -
  consider a b where "arguments = [''--control'', a, b]"
      "ControlSent pid action \<in> set (fst (cli_control stb a b))"
    using assms stream_log_no_control [of stb] diagnostic_no_control [of disk stb _ files]
    unfolding cli_command_def no_control_def
    by (auto split: list.splits if_splits prod.splits) (metis fst_conv)+
  then show ?thesis
    by cases (metis cli_control_sent)
qed

lemma cli_main_sent:
  assumes "ControlSent pid action \<in> set (fst (cli_main connect disk program arguments files))"
  shows "asked_control (snd (target_and_rest arguments)) = Some (pid, action)"
proof -
  obtain address rest where arguments: "target_and_rest arguments = (address, rest)"
    by fastforce
  obtain info where info: "client_get_agent_info (connect address) = Inr info"
    using assms by (cases "client_get_agent_info (connect address)") (auto simp: cli_main_def arguments)
  show ?thesis
  proof (cases "rest = []")
    case True
    then show ?thesis
      using assms run_steps_no_control [OF overview_no_control, of "connect address"]
      by (auto simp: cli_main_def arguments info no_control_def split: prod.splits)
  next
    case False
    then have "ControlSent pid action \<in> set (fst (cli_command disk program (connect address) rest files))"
      using assms by (auto simp: cli_main_def arguments info split: prod.splits)
    then show ?thesis
      using cli_command_sent by (simp add: arguments)
  qed
qed

text \<open>
  C22.  The command line controls processes only when it is told to: a control request is only sent
  by a run whose arguments (after the target) are \<open>--control\<close>, a text that \<open>std::stoll\<close> reads as
  a whole as a positive number that fits, and one of the four action words, and then for that
  process and action; every other run, the overview included, sends none.
\<close>

theorem cli_control_only_asked:
  assumes "ControlSent pid action \<in> set (fst (cli_main connect disk program arguments files))"
  shows "\<exists>pid_text action_text. snd (target_and_rest arguments) = [''--control'', pid_text, action_text] \<and>
       stoll pid_text = Some (sint pid, length pid_text) \<and> 0 < sint pid \<and>
       (action_text, action) \<in> {(''term'', 1), (''kill'', 2), (''stop'', 3), (''continue'', 4)}"
proof -
  have "asked_control (snd (target_and_rest arguments)) = Some (pid, action)"
    by (rule cli_main_sent [OF assms])
  then obtain a b where "snd (target_and_rest arguments) = [''--control'', a, b]"
      "parse_pid a = Some pid" "parse_control_action b = Some action"
    by (cases "snd (target_and_rest arguments)" rule: asked_control.cases) (auto split: if_splits option.splits)
  then show ?thesis
    using parse_pid_positive [of a pid] by (auto simp: parse_control_action_def split: if_splits)
qed

lemma cli_control_only_asked_witness:
  "\<exists>action_text. snd (target_and_rest [''--control'', ''300'', ''stop'']) = [''--control'', ''300'', action_text] \<and>
     (action_text, 3 :: int) \<in> {(''term'', 1), (''kill'', 2), (''stop'', 3), (''continue'', 4)}"
proof -
  have pid: "parse_pid ''300'' = Some 300"
    by code_simp
  have "ControlSent 300 3 \<in> set (fst (cli_main
      (\<lambda>_. offline_stub \<lparr> stub_get_agent_info := (\<lambda>_. Inr \<lparr> ai_hostname = [], ai_kernel_version = [],
         ai_uptime_seconds = 0, ai_agent_version = [] \<rparr>) \<rparr>)
      \<lparr> dk_opens = True, dk_takes = (\<lambda>_. True), dk_closed = id, dk_removes = True \<rparr> ''edgescope'' [''--control'', ''300'', ''stop''] Map.empty))"
    by (simp add: cli_main_def target_and_rest_def client_get_agent_info_def cli_command_def cli_control_def pid
        parse_control_action_def client_control_process_def offline_stub_def)
  from cli_control_only_asked [OF this] show ?thesis
    by (simp add: target_and_rest_def)
qed

end
