(* ===== verification/Spec2Isabelle.thy ===== *)
theory Spec2Isabelle
  imports Agent_System Agent_Logger Client_System Client_Cli
begin

text \<open>
  EdgeScope is a remote monitor of Linux machines: an Agent that runs on the machine
  (\<open>agent/\<close>), a desktop client and a command line client (\<open>client/\<close>), and the calls between
  them (\<open>proto/edgescope.proto\<close>, gRPC).  The Agent reads \<open>/proc\<close>, \<open>/sys\<close> and logs, sends signals
  to processes, runs \<open>systemctl\<close> and packs diagnostic bundles, all on request of a client.  This
  development models the C++ code of both sides and proves what makes it correct.

  \<^bold>\<open>Theories and files.\<close>  Each theory has the definitions of one part in the order of the code,
  with the names of the functions (\<open>GetProcess\<close> is \<open>get_process\<close>), and then its lemmas and
  properties.

  \<^item> Vocabulary: \<open>ES_Prelude\<close> (integer types, error numbers, facts on lists, words and maps, the
    collections of simplification rules), \<open>Cpp_String\<close> (\<open>std::string\<close>, \<open>std::getline\<close>, streams as
    functions from the input to a value and the rest), \<open>Cpp_Number\<close> (\<open>std::to_string\<close>, \<open>stoul\<close>,
    \<open>from_chars\<close>, integers and words from a stream), \<open>Cpp_Double\<close> (binary64 with rounding, the
    casts and printed forms that the code uses).
  \<^item> \<open>Agent_Config\<close>: \<open>AgentConfig.cpp\<close>.  \<open>Process_Collector\<close>: \<open>ProcessCollector.cpp\<close>.
    \<open>Process_Controller\<close>: \<open>ProcessController.cpp\<close>.  \<open>Network_Collector\<close>: \<open>NetworkCollector.cpp\<close>.
    \<open>System_Collector\<close>: \<open>SystemCollector.cpp\<close>.  \<open>Metrics_Sampler\<close>: \<open>MetricsSampler.cpp\<close>.
    \<open>Utf8\<close> and \<open>Log_Collector\<close>: \<open>LogCollector.cpp\<close>.  \<open>Service_Manager\<close>: \<open>ServiceManager.cpp\<close>.
    \<open>Diagnostic_Collector\<close>: \<open>DiagnosticCollector.cpp\<close>.
  \<^item> \<open>Rpc_Messages\<close>, \<open>Agent_Service\<close>, \<open>Stream_Log\<close>, \<open>Stream_Metrics\<close>, \<open>Bundle_Download\<close>:
    \<open>EdgeScopeServiceImpl.cpp\<close>, the calls with one answer and the three streams.  \<open>Agent_Main\<close>:
    \<open>agent/src/main.cpp\<close>.  \<open>Agent_Logger\<close>: \<open>AgentLogger.cpp\<close>.  \<open>Agent_System\<close>: the calls of
    any clients and the sampler's thread together.
  \<^item> \<open>Edge_Client\<close>: \<open>EdgeScopeClient.cpp\<close>.  \<open>Rpc_Worker\<close>: \<open>ClientModels.h\<close> and \<open>RpcWorker.cpp\<close>.
    \<open>Process_Table\<close>: \<open>ProcessTableModel.cpp\<close>.  \<open>Main_Window\<close>: \<open>MainWindow.cpp\<close>.
    \<open>Client_System\<close>: window, worker and stream thread together, and \<open>gui_main.cpp\<close>.
    \<open>Client_Cli\<close>: \<open>client/src/main.cpp\<close>.
  \<^item> This theory: what holds of the Agent and a client together.

  \<^bold>\<open>How the code is modelled.\<close>  A class is a record of its members, a method a function that
  returns the next state beside its result; \<open>bool F(..., T* out, std::string* error)\<close> is a
  function into \<open>error + 'a\<close>.  Integers are words of their width and wrap around; sizes and file
  offsets that cannot reach \<open>2 ^ 63\<close> are natural numbers, where a theory says so.  A cast that is
  undefined in C++ is \<open>None\<close>.  Files that are read as a whole are a function from paths to
  contents or error numbers.  The diagnostic bundles are the exception: they are written, so that
  they have an explicit file system which records its operations and in which any operation may fail
  and a buffered write may lose its text unnoticed (\<open>faults\<close>).  Threads are
  transition systems whose steps are the critical sections (\<open>sampler_step\<close>), the calls of clients
  (\<open>agent_step\<close>) or the deliveries of Qt's queued signals (\<open>client_step\<close>); theorems about them hold
  for every interleaving.  The loop
  of a stream is a function over the list of what its passes see (\<open>poll\<close> for a log, the sampler at
  the end of each wait for metrics), so that a theorem for all lists holds for all runs.

  \<^bold>\<open>Loops, fuel and bounds.\<close>  No definition has fuel.  Loops over input are recursive on the text
  that is left, with a measure where a pass takes a variable amount (\<open>read_back\<close>, \<open>send_lines\<close>,
  \<open>download_loop\<close>), so that they end by construction; \<open>rpc_download_ends\<close> counts the passes, and
  \<open>sampler_stops\<close> and \<open>stream_log_catches_up\<close> say how many steps are enough.  A retry on an
  interrupted system call runs over the list of the results of that call.

  \<^bold>\<open>Interfaces.\<close>  \<open>stream_reader\<close> and \<open>printed_reader\<close> are the laws of extraction from a stream,
  interpreted on \<open>getline\<close> and the readers of the code; \<open>metrics_source\<close> is what the sampler needs
  of a collector, interpreted on \<open>collect\<close>; \<open>whitelist\<close> is the contract of acting only for names
  on a list, interpreted on \<open>read_log\<close> and \<open>control_service\<close>; \<open>bounded_store\<close> keeps the last
  elements put into it, interpreted on the bundles and on the log view of the window;
  \<open>chunk_receiver\<close> is the contract of a download's callback, interpreted on those of both clients.

  \<^bold>\<open>What the lemmas show.\<close>  Parsers: round trips with the text that the kernel or the user writes,
  for every process name, address and configuration (\<open>parse_stat_line_text\<close>,
  \<open>parse_status_text\<close>, \<open>parse_tcp_line_text\<close>, \<open>load_config_text\<close>).  Collectors: results are well
  formed whatever the files hold, and lists are complete and in order (\<open>get_process_ok\<close>,
  \<open>list_processes_correct\<close>, \<open>collect_ok\<close>, \<open>get_interfaces_correct\<close>,
  \<open>list_tcp_connections_eq\<close>).  Logs: reading blocks from the end gives the last matching lines of
  the whole file (\<open>read_log_view\<close>), following a log gives every line once (\<open>stream_log_exact\<close>,
  \<open>stream_log_catches_up\<close>).  Actions: only permitted signals, files and commands, whatever the
  requests (\<open>control_calls_permitted\<close>, \<open>read_log_files\<close>, \<open>control_service_commands\<close>, and for the
  whole Agent \<open>agent_history_safe\<close>, with the operations on files and the \<open>tar\<close> of bundles), and
  only after a question in the window (\<open>window_control_confirmed\<close>).  Bundles: atomic creation, the
  invariant of the stored bundles, a refinement to "the last five successes", and their way to the
  client in pieces (\<open>create_bundle_*\<close>, \<open>create_bundles_refine\<close>, \<open>rpc_download_*\<close>,
  \<open>create_and_download_verdict\<close>).  Threads: what clients of the sampler see, that it stops, and
  when window and worker agree on the connection (\<open>client_reachable_consistent\<close>; the two ways in
  which they come to disagree are \<open>stream_loss_disagrees\<close> and \<open>late_box_disagrees\<close>).  Here: a bundle
  from the Agent's disk to the user's file (\<open>diagnostic_end_to_end\<close>), a log from the Agent's file
  to the screen (\<open>log_pane_end_to_end\<close>), and a click or a word on the command line to the signal
  (\<open>gui_control_end_to_end\<close>, \<open>cli_control_end_to_end\<close>).

  \<^bold>\<open>Parameters.\<close>  What the code calls and this repository does not have is an argument: the
  kernel (\<open>kill\<close>, \<open>stat\<close>, \<open>getifaddrs\<close>, files of \<open>/proc\<close>), \<open>inet_ntop\<close>, \<open>tar\<close>, the runner of
  \<open>systemctl\<close>, the generated stub with the transport (a record of functions, \<open>stub\<close>), whether the
  context is cancelled and a message can be written, the local disk of a download, the server that
  starts or not, spdlog (\<open>spdlog_documented\<close> states what is used of it), and \<open>QString::arg\<close>.
  \<open>serves_bundles\<close>, \<open>serves_log\<close> and \<open>serves_control\<close> are the hypotheses that a stub gives the
  answers of the modelled Agent.

  \<^bold>\<open>Not modelled.\<close>  Of \<open>MainWindow.cpp\<close> the layout, the fixed labels and the widths of columns, and
  the views' sorting and filtering, which are Qt's.  The box about a failed connection is open while
  signals are handled and the window changes when it is closed (\<open>w_boxes\<close>); questions and the other
  boxes are moments, after which the code does nothing that depends on what came meanwhile.  Serialisation, deadlines as time, the contents of clocks, and the shutdown of
  the gRPC server are the libraries'.  Strings are byte strings: the conversions between UTF-8 and
  \<open>QString\<close> are taken to be lossless on well-formed text.  A log is followed exactly for lines of
  up to 4096 bytes; longer ones are cut by the code, and \<open>stream_log_bounds\<close> bounds what is sent.
\<close>

section \<open>A bundle from the Agent to the desktop\<close>

text \<open>A stub whose calls for bundles are answered by an Agent, over a transport that loses nothing.\<close>

definition agent_finish :: "status \<Rightarrow> bool \<Rightarrow> status" where
  "agent_finish st cancelled_by_client = (if cancelled_by_client then (Cancelled, []) else st)"

definition serves_bundles :: "bundle_msg \<Rightarrow> agent_service \<Rightarrow> world \<Rightarrow> stub \<Rightarrow> bool" where
  "serves_bundles created srv w stb \<longleftrightarrow>
     stub_create_diagnostic_bundle stb bundle_deadline_ms = Inr created \<and>
     (\<forall>i. stub_download_diagnostic_bundle stb download_deadline_ms i =
        (case rpc_download_diagnostic_bundle (\<lambda>_. False) (\<lambda>_. True) (opened_in w) srv i of
           (chunks, _, st) \<Rightarrow> (chunks, agent_finish st)))"

text \<open>A local disk without trouble.\<close>

definition good_disk :: local_disk where
  "good_disk = \<lparr> dk_opens = True, dk_takes = (\<lambda>_. True), dk_closed = (\<lambda>contents. contents), dk_removes = True \<rparr>"

text \<open>The desktop takes every chunk that comes in sequence.\<close>

lemma gui_takes_chunks:
  "chunks_from (gd_received g) announced cs \<Longrightarrow>
     \<exists>g'. chunk_loop (gui_on_chunk good_disk announced) g cs = (g', False)"
proof (induction cs arbitrary: g)
  case (Cons c cs)
  then show ?case
    by (auto simp: gui_on_chunk_def good_disk_def Let_def)
qed simp

text \<open>
  C3.  From one machine to the other: when an Agent answers a request for a bundle with success
  and the transport and the local disk do their work, the desktop reports the bundle as ready, and
  the file it leaves is byte by byte the archive of a staging directory, with every planned
  file in it, in full, if the Agent's streams could be flushed.
\<close>

theorem diagnostic_end_to_end:
  assumes "collector_inv (as_diagnostics srv) w" "bundle_sequence (as_diagnostics srv) \<noteq> - 1"
    "distinct (map (ls_id \<circ> fst) (src_logs s))"
    "rpc_create_diagnostic_bundle tar faults inp s srv w = (Inr created, entries, srv', w')"
    "serves_bundles created srv' w' stb" "rw_client wk = Some stb"
  shows "\<exists>t progress. create_and_download_diagnostic good_disk destination files wk =
      (wk, files(destination \<mapsto> tar t (next_staging inp (as_diagnostics srv))),
       progress @ [DiagnosticReady destination (bm_total_size_bytes created)]) \<and>
    (\<exists>m. rpc_get_system_metrics srv = Inr (fill_system_metrics_response m) \<and>
      (flushes faults \<longrightarrow> (\<forall>(p, c) \<in> set (planned_files (staging_plan (next_staging inp (as_diagnostics srv))
          (hostname_text (in_hostname inp)) (in_kernel inp) m s)). t p = Some (File c))))"
proof -
  obtain g m where latest: "get_latest (as_sampler srv) = (g, Inr m)"
    using assms(4) by (auto simp: rpc_create_diagnostic_bundle_def split: prod.splits sum.splits)
  obtain info st' where run: "create_bundle tar faults inp s m (as_diagnostics srv) w = (Inr info, st', w')"
    and created: "created = fill_bundle info" and srv': "srv' = srv \<lparr> as_diagnostics := st' \<rparr>"
    using assms(4) by (auto simp: rpc_create_diagnostic_bundle_def latest split: prod.splits sum.splits)
  let ?st = "as_diagnostics srv" and ?b = "new_bundle inp (as_diagnostics srv) info"
  note complete = create_bundle_complete [OF assms(1-3) run]
  have inv: "collector_inv (as_diagnostics srv') w'"
    using create_bundle_inv_stored [OF assms(1-3) run] by (simp add: srv')
  have stored: "?b \<in> set (bundles (as_diagnostics srv'))"
    using complete by (simp add: srv' take_last_snoc)
  obtain t where t: "fs w' (next_archive inp ?st) = Some (File (tar t (next_staging inp ?st)))"
      "flushes faults \<longrightarrow> (\<forall>(p, c) \<in> set (planned_files (staging_plan (next_staging inp ?st)
          (hostname_text (in_hostname inp)) (in_kernel inp) m s)). t p = Some (File c))"
    using complete by blast
  obtain chunks where sent: "rpc_download_diagnostic_bundle (\<lambda>_. False) (\<lambda>_. True) (opened_in w') srv' (db_id info) =
        (chunks, [LogInfo (''downloaded diagnostic bundle '' @ db_id info)], ok_status)"
      "chunks_from 0 (db_size_bytes info) chunks" "chunk_data chunks = tar t (next_staging inp ?st)"
      "db_size_bytes info = word_of_nat (length (chunk_data chunks))"
    using rpc_download_stored [OF inv stored, of "\<lambda>_. False" "\<lambda>_. True"] t(1) by auto
  have reader: "stub_download_diagnostic_bundle stb download_deadline_ms (db_id info) = (chunks, agent_finish ok_status)"
    using assms(5) sent(1) by (simp add: serves_bundles_def)
  obtain g' where loop: "chunk_loop (gui_on_chunk good_disk (db_size_bytes info)) new_gui_download chunks = (g', False)"
    using gui_takes_chunks [of new_gui_download "db_size_bytes info" chunks] sent(2) by (auto simp: new_gui_download_def)
  have download: "client_download_diagnostic_bundle stb (db_id info) (gui_on_chunk good_disk (db_size_bytes info))
      new_gui_download = (g', ok_status)"
    by (simp add: client_download_diagnostic_bundle_def reader loop agent_finish_def)
  have ok: "\<not> gd_local_write_failed g'"
    using chunk_loop_failed [OF loop] by (simp add: new_gui_download_def)
  have received: "gd_written g' = chunk_data chunks" "gd_received g' = db_size_bytes info"
    using gui_download_stored [OF download ok] sent(4) by (simp_all add: reader)
  have "create_and_download_diagnostic good_disk destination files wk =
      (wk, files(destination \<mapsto> tar t (next_staging inp ?st)),
       gd_progress g' @ [DiagnosticReady destination (bm_total_size_bytes created)])"
    using assms(5,6) download ok received sent(3)
    by (simp add: create_and_download_diagnostic_def client_create_diagnostic_bundle_def serves_bundles_def created
        fill_bundle_def status_ok_def good_disk_def Let_def)
  then show ?thesis
    using t(2) latest by (auto simp: rpc_get_system_metrics_def)
qed

definition sample_agent :: agent_service where
  "sample_agent = sample_service \<lparr> as_diagnostics := new_diagnostic_collector ''/d'' \<rparr>"

definition empty_world :: world where
  "empty_world = \<lparr> fs = (\<lambda>_. None), ops = [] \<rparr>"

definition stub_of_agent :: "bundle_msg \<Rightarrow> agent_service \<Rightarrow> world \<Rightarrow> stub" where
  "stub_of_agent created srv w = offline_stub
     \<lparr> stub_create_diagnostic_bundle := (\<lambda>_. Inr created),
       stub_download_diagnostic_bundle := (\<lambda>_ i.
         (case rpc_download_diagnostic_bundle (\<lambda>_. False) (\<lambda>_. True) (opened_in w) srv i of
            (chunks, _, st) \<Rightarrow> (chunks, agent_finish st))) \<rparr>"

lemma serves_stub_of_agent: "serves_bundles created srv w (stub_of_agent created srv w)"
  by (simp add: serves_bundles_def stub_of_agent_def)

lemma diagnostic_end_to_end_witness:
  "\<exists>created entries srv' w' files signals.
     rpc_create_diagnostic_bundle sample_tar no_faults sample_inputs sample_sources sample_agent empty_world =
       (Inr created, entries, srv', w') \<and>
     create_and_download_diagnostic good_disk ''bundle.tar.gz'' Map.empty
         (new_worker \<lparr> rw_client := Some (stub_of_agent created srv' w') \<rparr>) =
       (new_worker \<lparr> rw_client := Some (stub_of_agent created srv' w') \<rparr>, files, signals) \<and>
     last signals = DiagnosticReady ''bundle.tar.gz'' (bm_total_size_bytes created) \<and> files ''bundle.tar.gz'' \<noteq> None"
proof -
  let ?run = "rpc_create_diagnostic_bundle sample_tar no_faults sample_inputs sample_sources sample_agent empty_world"
  have "is_ok (fst ?run)"
    by code_simp
  then obtain created entries srv' w' where run: "?run = (Inr created, entries, srv', w')"
    by (cases ?run; cases "fst ?run") auto
  have inv: "collector_inv (as_diagnostics sample_agent) empty_world"
    by (simp add: sample_agent_def collector_inv_new)
  have wrap: "bundle_sequence (as_diagnostics sample_agent) \<noteq> - 1"
    by (simp add: sample_agent_def new_diagnostic_collector_def)
  have ids: "distinct (map (ls_id \<circ> fst) (src_logs sample_sources))"
    by (simp add: sample_sources_def)
  let ?wk = "new_worker \<lparr> rw_client := Some (stub_of_agent created srv' w') \<rparr>"
  have client: "rw_client ?wk = Some (stub_of_agent created srv' w')"
    by simp
  obtain t progress where ready: "create_and_download_diagnostic good_disk ''bundle.tar.gz'' Map.empty ?wk =
      (?wk, [''bundle.tar.gz'' \<mapsto> sample_tar t (next_staging sample_inputs (as_diagnostics sample_agent))],
       progress @ [DiagnosticReady ''bundle.tar.gz'' (bm_total_size_bytes created)])"
    using diagnostic_end_to_end [OF inv wrap ids run serves_stub_of_agent client] by blast
  show ?thesis
    by (intro exI conjI, rule run, rule ready) simp_all
qed

section \<open>From the command line to the signal\<close>

definition serves_control :: "i32 \<Rightarrow> (signal_call \<Rightarrow> errno option) \<Rightarrow> stub \<Rightarrow> bool" where
  "serves_control self kill stb \<longleftrightarrow>
     is_ok (stub_get_agent_info stb unary_deadline_ms) \<and>
     (\<forall>pid number. stub_control_process stb unary_deadline_ms pid number =
        (case rpc_control_process self kill pid number of (_, _, answer) \<Rightarrow> answer))"

lemma control_failure_stays_connected: "\<not> connection_lost (process_control_status e message)"
  by (cases e) (simp_all add: connection_lost_def)

lemma control_sends_or_fails:
  assumes "pid \<noteq> self" "1 < sint pid" "process_action_of number = Some action" "signal_of action = Some sig"
  shows "\<exists>entries answer. rpc_control_process self kill pid number = ([(pid, sig)], entries, answer) \<and>
    (case answer of Inr _ \<Rightarrow> kill (pid, sig) = None
     | Inl st \<Rightarrow> kill (pid, sig) \<noteq> None \<and> \<not> connection_lost st \<and> snd st \<noteq> [])"
proof (cases "kill (pid, sig)")
  case (Some error_number)
  obtain e message where failure: "control_failure error_number = (e, message)"
    by fastforce
  then have "e \<noteq> CtlNone" "message \<noteq> []"
    by (auto simp: control_failure_def split: if_splits)
  then have "snd (process_control_status e message) \<noteq> []"
    by (cases e) simp_all
  then show ?thesis
    using Some assms failure control_failure_stays_connected by (simp add: rpc_control_process_def control_def)
qed (use assms in \<open>simp add: rpc_control_process_def control_def\<close>)

lemma control_sends:
  assumes "pid \<noteq> self" "1 < sint pid" "process_action_of number = Some action" "signal_of action = Some sig"
  shows "\<exists>entries answer. rpc_control_process self kill pid number = ([(pid, sig)], entries, answer) \<and>
    (is_ok answer \<longleftrightarrow> kill (pid, sig) = None)"
proof -
  obtain entries answer where "rpc_control_process self kill pid number = ([(pid, sig)], entries, answer)"
    "case answer of Inr _ \<Rightarrow> kill (pid, sig) = None
     | Inl st \<Rightarrow> kill (pid, sig) \<noteq> None \<and> \<not> connection_lost st \<and> snd st \<noteq> []"
    using control_sends_or_fails [OF assms] by blast
  then show ?thesis by (cases answer) auto
qed

lemma control_word_action:
  "(action_text, sig) \<in> {(''term'', SIGTERM), (''kill'', SIGKILL), (''stop'', SIGSTOP), (''continue'', SIGCONT)} \<Longrightarrow>
     \<exists>number action. parse_control_action action_text = Some number \<and> process_action_of number = Some action \<and>
       signal_of action = Some sig"
  by (auto simp: parse_control_action_def process_action_of_def)

text \<open>
  C21.  From the command line to the system of the Agent: \<open>--control PID ACTION\<close> with the decimal
  text of a pid above 1 that is not the Agent's own makes the Agent send exactly the named signal
  to exactly that process, the run touches no file, and its exit value is 0 if the system of the
  Agent accepted the signal and 1 otherwise.
\<close>

theorem cli_control_end_to_end:
  assumes "target_and_rest arguments = (address, [''--control'', show_nat n, action_text])"
    "serves_control self kill (connect address)" "1 < n" "n \<le> i32_max" "word_of_nat n \<noteq> self"
    "(action_text, sig) \<in> {(''term'', SIGTERM), (''kill'', SIGKILL), (''stop'', SIGSTOP), (''continue'', SIGCONT)}"
  shows "\<exists>events number entries answer.
    cli_main connect disk program arguments files =
      (events, files, if kill (word_of_nat n, sig) = None then 0 else 1) \<and>
    ControlSent (word_of_nat n) number \<in> set events \<and>
    rpc_control_process self kill (word_of_nat n) number = ([(word_of_nat n, sig)], entries, answer)"
proof -
  have pid: "parse_pid (show_nat n) = Some (word_of_nat n)" "1 < sint (word_of_nat n :: i32)"
    using assms(3,4) parse_pid_show [of n] sint_small [of n] by simp_all
  obtain number action where word: "parse_control_action action_text = Some number"
      "process_action_of number = Some action" "signal_of action = Some sig"
    using control_word_action [OF assms(6)] by blast
  obtain entries answer where
      control: "rpc_control_process self kill (word_of_nat n) number = ([(word_of_nat n, sig)], entries, answer)"
      "is_ok answer \<longleftrightarrow> kill (word_of_nat n, sig) = None"
    using control_sends [OF assms(5) pid(2) word(2,3)] by blast
  obtain info where info: "client_get_agent_info (connect address) = Inr info"
    using assms(2) by (auto simp: serves_control_def client_get_agent_info_def is_ok_def split: sum.splits)
  have sent: "client_control_process (connect address) (word_of_nat n) number = answer"
    using assms(2) by (simp add: serves_control_def client_control_process_def control(1))
  have "\<exists>events. cli_main connect disk program arguments files =
      (events, files, if kill (word_of_nat n, sig) = None then 0 else 1) \<and>
    ControlSent (word_of_nat n) number \<in> set events"
    using control(2)
    by (cases answer)
      (simp_all add: cli_main_def assms(1) info cli_command_def cli_control_def pid(1) word(1) sent)
  then show ?thesis
    using control(1) by blast
qed

lemma cli_control_end_to_end_witness:
  "\<exists>events. cli_main
       (\<lambda>_. offline_stub \<lparr> stub_get_agent_info := (\<lambda>_. Inr \<lparr> ai_hostname = [], ai_kernel_version = [],
             ai_uptime_seconds = 0, ai_agent_version = [] \<rparr>),
          stub_control_process := (\<lambda>_ pid number. snd (snd (rpc_control_process 77 (\<lambda>_. Some ESRCH) pid number))) \<rparr>)
       good_disk ''edgescope'' [''--control'', show_nat 300, ''stop''] Map.empty = (events, Map.empty, 1)"
proof -
  let ?stb = "offline_stub \<lparr> stub_get_agent_info := (\<lambda>_. Inr \<lparr> ai_hostname = [], ai_kernel_version = [],
             ai_uptime_seconds = 0, ai_agent_version = [] \<rparr>),
          stub_control_process := (\<lambda>_ pid number. snd (snd (rpc_control_process 77 (\<lambda>_. Some ESRCH) pid number))) \<rparr>"
  have target: "target_and_rest [''--control'', show_nat 300, ''stop''] =
      (''127.0.0.1:50051'', [''--control'', show_nat 300, ''stop''])"
    by (simp add: target_and_rest_def)
  have serves: "serves_control 77 (\<lambda>_. Some ESRCH) ((\<lambda>_. ?stb) ''127.0.0.1:50051'')"
    by (simp add: serves_control_def split: prod.split)
  show ?thesis
    using cli_control_end_to_end [OF target serves, where sig = SIGSTOP and disk = good_disk and
        program = "''edgescope''" and files = Map.empty] by auto
qed

section \<open>From a click to the signal\<close>

fun button_signal :: "process_button \<Rightarrow> int" where
  "button_signal TerminateButton = SIGTERM"
| "button_signal KillButton = SIGKILL"
| "button_signal StopButton = SIGSTOP"
| "button_signal ContinueButton = SIGCONT"

lemma button_action_signal:
  "process_button_action button = (number, name) \<Longrightarrow>
     \<exists>action. process_action_of number = Some action \<and> signal_of action = Some (button_signal button)"
  by (cases button) (auto simp: process_action_of_def)

lemma control_refused:
  assumes "sint pid \<le> 1 \<or> pid = self" "process_action_of number = Some action"
  shows "\<exists>entries st. rpc_control_process self kill pid number = ([], entries, Inl st) \<and>
    \<not> connection_lost st \<and> snd st \<noteq> []"
  using assms by (auto simp: rpc_control_process_def control_def connection_lost_def)

text \<open>
  C20.  From a click in the window to the system of the Agent: a confirmed click on one of the four
  process buttons, with a row selected whose pid is positive, becomes one request.  For pid 1 and
  for the Agent's own pid the Agent refuses it and sends nothing; for every other process it sends
  exactly that button's signal to exactly that process.  The user is told that the operation
  succeeded if and only if the signal was sent and the system accepted it; otherwise there is one
  error with a message, and the connection is kept.
\<close>

theorem gui_control_end_to_end:
  assumes "process_at (w_processes w) row = Some p" "0 < sint (pd_pid p)"
    "confirmed (''Really '' @ snd (process_button_action button) @ '' process '' @ show_int (sint (pd_pid p)) @ ''?'')"
    "serves_control self kill stb" "rw_client wk = Some stb"
  shows "\<exists>number calls entries answer wk' signals.
    handle_event (ClickProcess button confirmed row) w = (w, [Request (RequestProcessControl (pd_pid p) number)]) \<and>
    worker_step connect (RequestProcessControl (pd_pid p) number) wk = (wk', signals) \<and>
    rpc_control_process self kill (pd_pid p) number = (calls, entries, answer) \<and>
    calls = (if 1 < sint (pd_pid p) \<and> pd_pid p \<noteq> self then [(pd_pid p, button_signal button)] else []) \<and>
    (if calls \<noteq> [] \<and> kill (pd_pid p, button_signal button) = None
     then \<exists>rest. signals =
       OperationSucceeded (''Process '' @ show_int (sint (pd_pid p)) @ '' operation succeeded'') # rest
     else wk' = wk \<and> (\<exists>message. message \<noteq> [] \<and> signals = [RpcError ''ControlProcess'' message False]))"
proof -
  obtain number name where button: "process_button_action button = (number, name)"
    by fastforce
  obtain action where action: "process_action_of number = Some action" "signal_of action = Some (button_signal button)"
    using button_action_signal [OF button] by blast
  let ?sent = "1 < sint (pd_pid p) \<and> pd_pid p \<noteq> self"
  obtain calls entries answer where
      control: "rpc_control_process self kill (pd_pid p) number = (calls, entries, answer)"
      "calls = (if ?sent then [(pd_pid p, button_signal button)] else [])"
      "case answer of Inr _ \<Rightarrow> calls \<noteq> [] \<and> kill (pd_pid p, button_signal button) = None
       | Inl st \<Rightarrow> \<not> (calls \<noteq> [] \<and> kill (pd_pid p, button_signal button) = None) \<and> \<not> connection_lost st \<and> snd st \<noteq> []"
  proof (cases ?sent)
    case True
    then obtain entries answer where "rpc_control_process self kill (pd_pid p) number = ([(pd_pid p, button_signal button)], entries, answer)"
        "case answer of Inr _ \<Rightarrow> kill (pd_pid p, button_signal button) = None
         | Inl st \<Rightarrow> kill (pd_pid p, button_signal button) \<noteq> None \<and> \<not> connection_lost st \<and> snd st \<noteq> []"
      using control_sends_or_fails [of "pd_pid p" self, OF _ _ action] by blast
    then show thesis
      using that True by (cases answer) auto
  next
    case False
    then have "sint (pd_pid p) \<le> 1 \<or> pd_pid p = self"
      by auto
    then obtain entries st where "rpc_control_process self kill (pd_pid p) number = ([], entries, Inl st)"
        "\<not> connection_lost st" "snd st \<noteq> []"
      using control_refused [OF _ action(1)] by blast
    then show thesis
      using that [of "[]" entries "Inl st"] False by auto
  qed
  have asked: "handle_event (ClickProcess button confirmed row) w =
      (w, [Request (RequestProcessControl (pd_pid p) number)])"
    using assms(1-3) by (simp add: button confirm_process_control_def selected_pid_def)
  have sent: "client_control_process stb (pd_pid p) number = answer"
    using assms(4) by (simp add: serves_control_def client_control_process_def control(1))
  obtain wk' signals where step: "worker_step connect (RequestProcessControl (pd_pid p) number) wk = (wk', signals)"
    by fastforce
  have "if calls \<noteq> [] \<and> kill (pd_pid p, button_signal button) = None
     then \<exists>rest. signals =
       OperationSucceeded (''Process '' @ show_int (sint (pd_pid p)) @ '' operation succeeded'') # rest
     else wk' = wk \<and> (\<exists>message. message \<noteq> [] \<and> signals = [RpcError ''ControlProcess'' message False])"
    using control(3) step
    by (cases answer) (auto simp: control_process_def assms(5) sent emit_rpc_error_def split: prod.splits)
  then show ?thesis
    using asked step control(1,2) by blast
qed

lemma gui_control_end_to_end_witness:
  "\<exists>number entries answer. rpc_control_process 77 (\<lambda>_. None) 300 number = ([(300, SIGKILL)], entries, answer)"
proof -
  let ?stb = "offline_stub \<lparr> stub_get_agent_info := (\<lambda>_. Inr \<lparr> ai_hostname = [], ai_kernel_version = [],
             ai_uptime_seconds = 0, ai_agent_version = [] \<rparr>),
          stub_control_process := (\<lambda>_ pid number. snd (snd (rpc_control_process 77 (\<lambda>_. None) pid number))) \<rparr>"
  let ?w = "new_window \<lparr> w_processes := [sample_row] \<rparr>"
  have row: "process_at (w_processes ?w) 0 = Some sample_row"
    by (simp add: process_at_def)
  have pid: "0 < sint (pd_pid sample_row)" "pd_pid sample_row = 300"
    by (simp_all add: sample_row_def)
  have serves: "serves_control 77 (\<lambda>_. None) ?stb"
    by (simp add: serves_control_def split: prod.split)
  show ?thesis
    using gui_control_end_to_end [OF row pid(1) _ serves, where confirmed = "\<lambda>_. True" and button = KillButton
      and wk = "new_worker \<lparr> rw_client := Some ?stb \<rparr>"] pid(2) by auto
qed

section \<open>From a log of the Agent to the screen\<close>

text \<open>The window takes the signals of the worker one after the other.\<close>

definition window_after :: "(string \<Rightarrow> string \<Rightarrow> string) \<Rightarrow> worker_signal list \<Rightarrow> window \<Rightarrow> window" where
  "window_after arg signals w = fold (\<lambda>s w. fst (handle_signal arg s w)) signals w"

lemma log_lines_shown:
  "window_after arg (map LogLineReady lines) w = fold append_log_line lines w"
  by (induction lines arbitrary: w) (simp_all add: window_after_def)

text \<open>What the thread of a stream emits after its lines does not touch the log pane.\<close>

lemma log_end_keeps_pane:
  assumes "\<forall>s \<in> set signals. s = LogStreamStopped \<or> (\<exists>operation message lost. s = RpcError operation message lost)"
  shows "w_log_output (window_after arg signals w) = w_log_output w"
  using assms
proof (induction signals arbitrary: w)
  case (Cons s signals)
  then have "w_log_output (fst (handle_signal arg s w)) = w_log_output w"
    by (auto simp: handle_log_stream_stopped_def handle_rpc_error_def show_message_def set_connected_def
        stop_timers_def Let_def)
  moreover have "w_log_output (window_after arg signals (fst (handle_signal arg s w))) =
      w_log_output (fst (handle_signal arg s w))"
    using Cons by simp
  ultimately show ?case
    by (simp add: window_after_def)
qed (simp add: window_after_def)

lemma emitted_lines: "fold (\<lambda>line emitted. emitted @ [LogLineReady line]) lines emitted = emitted @ map LogLineReady lines"
  by (induction lines arbitrary: emitted) simp_all

text \<open>A stub whose log stream is that of an Agent that has seen the file with these passes.\<close>

definition serves_log ::
  "allowed_log list \<Rightarrow> (path \<Rightarrow> (nat \<times> nat) option) \<Rightarrow> string \<Rightarrow> string \<Rightarrow> poll list \<Rightarrow> stub \<Rightarrow> bool" where
  "serves_log logs stat_of log_id keyword polls stb \<longleftrightarrow>
     (case rpc_stream_log logs stat_of (\<lambda>_. True) log_id keyword True polls of
        Inl st \<Rightarrow> fst (stub_stream_log stb log_id keyword True) = []
      | Inr (lines, _) \<Rightarrow> fst (stub_stream_log stb log_id keyword True) = lines)"

text \<open>
  C4.  From a log file of the Agent to the screen: when a user follows a log with lines of at most
  4096 bytes, the log pane ends up with the last 2000 of the lines that were in it before followed
  by every complete line that was appended to the file since and that matches the keyword, each
  once and in order; however the file grew between the passes of the Agent, and however the stream
  ends.
\<close>

theorem log_pane_end_to_end:
  assumes "find_allowed_log logs log_id = Some source" "stat_of (al_path source) = Some (ino, length c0)"
    "length keyword \<le> maximum_keyword_length"
    "growing ino c0 polls" "c = last_content c0 polls" "short_lines c"
    "list_all (resting ino c) quiet" "length c \<le> length c0 + stream_read_size * length quiet"
    "serves_log logs stat_of log_id keyword (polls @ quiet) stb"
    "length (w_log_output w) \<le> maximum_log_blocks"
  shows "w_log_output (window_after arg (stream_thread_signals stb log_id keyword cancelled) w) =
    take_last maximum_log_blocks (w_log_output w @ stream_view keyword (drop (length c0) c))"
proof -
  have "stream_loop keyword (\<lambda>_. True) 0 (start_stream ino (length c0)) (polls @ quiet) =
      (stream_view keyword (drop (length c0) c), Some (followed ino (length c0) (length c - length c0) c))"
    by (rule stream_loop_catches_up) (use assms in simp_all)
  then have lines: "fst (stub_stream_log stb log_id keyword True) = stream_view keyword (drop (length c0) c)"
    using assms(1-3,9)
    by (simp add: serves_log_def rpc_stream_log_defs resolve_log_path_def start_offset_def start_stream_def)
  obtain finish where stb: "stub_stream_log stb log_id keyword True = (stream_view keyword (drop (length c0) c), finish)"
    using lines by (metis prod.collapse)
  obtain rest where signals: "stream_thread_signals stb log_id keyword cancelled =
      map LogLineReady (stream_view keyword (drop (length c0) c)) @ rest"
    "\<forall>s \<in> set rest. s = LogStreamStopped \<or> (\<exists>operation message lost. s = RpcError operation message lost)"
    by (simp add: stream_thread_signals_def client_stream_log_def stb emitted_lines)
  let ?lines = "stream_view keyword (drop (length c0) c)"
  have "window_after arg (map LogLineReady ?lines @ rest) w =
      window_after arg rest (window_after arg (map LogLineReady ?lines) w)"
    by (simp add: window_after_def)
  then have "w_log_output (window_after arg (map LogLineReady ?lines @ rest) w) = w_log_output (fold append_log_line ?lines w)"
    using log_end_keeps_pane [OF signals(2)] by (simp add: log_lines_shown)
  then show ?thesis
    using log_output.kept_puts [OF assms(10)] by (simp add: signals(1))
qed

lemma log_pane_end_to_end_witness:
  "\<exists>stb. w_log_output (window_after (\<lambda>s _. s) (stream_thread_signals stb ''system'' [] True) new_window) = [''new'']"
proof -
  let ?old = "''old'' @ [CHR 0x0A]" and ?grown = "''old'' @ [CHR 0x0A] @ ''new'' @ [CHR 0x0A]"
  let ?stat = "\<lambda>_. Some (7, length ?old)" and ?polls = "[sample_poll ?grown]"
  let ?lines = "case rpc_stream_log (allowed_logs []) ?stat (\<lambda>_. True) ''system'' [] True (?polls @ ?polls) of
      Inl st \<Rightarrow> [] | Inr (lines, _) \<Rightarrow> lines"
  let ?stb = "offline_stub \<lparr> stub_stream_log := (\<lambda>_ _ _. (?lines, \<lambda>_. ok_status)) \<rparr>"
  have source: "find_allowed_log (allowed_logs []) ''system'' =
      Some \<lparr> al_id = ''system'', al_display_name = ''System log'', al_path = ''/var/log/syslog'' \<rparr>"
    by (simp add: find_allowed_log_def allowed_logs_def)
  have serves: "serves_log (allowed_logs []) ?stat ''system'' [] (?polls @ ?polls) ?stb"
    by (simp add: serves_log_def split: sum.split prod.split)
  have grows: "growing 7 ?old ?polls" "?grown = last_content ?old ?polls" "short_lines ?grown" "list_all (resting 7 ?grown) ?polls"
    by (simp_all add: sample_poll_def short_lines_def complete_lines_def unfinished_def resting_def)
  have "sanitize_utf8 ''new'' = ''new''" "drop_carriage_return ''new'' = ''new''"
    by code_simp+
  then have view: "stream_view [] (drop (length ?old) ?grown) = [''new'']"
    by (simp add: stream_view_def complete_lines_def stream_wanted_def shown_line_def)
  have empty: "w_log_output new_window = []"
    by (simp add: new_window_def built_window_def set_connected_def Let_def)
  then have "w_log_output (window_after (\<lambda>s _. s) (stream_thread_signals ?stb ''system'' [] True) new_window) =
      take_last maximum_log_blocks (w_log_output new_window @ stream_view [] (drop (length ?old) ?grown))"
    by (intro log_pane_end_to_end [OF source _ _ grows(1-4) _ serves]) simp_all
  then have "w_log_output (window_after (\<lambda>s _. s) (stream_thread_signals ?stb ''system'' [] True) new_window) = [''new'']"
    unfolding view empty by (simp add: take_last_def)
  then show ?thesis by blast
qed

end
